(* ===== verification/Prelude.thy ===== *)
theory Prelude
  imports Complex_Main "HOL-Library.AList"
begin

text \<open>
  Shared vocabulary of the development.  Go functions become state-passing functions: a
  value of type \<open>('s, 'a) go\<close> takes the driver state and returns an outcome and the new
  state.  The outcome says how the call ended: it returned (\<open>Done\<close>), it panicked
  (\<open>Panic\<close>, which crashes the driver, no handler recovers), or it waits for a lock that
  nobody will release when the request runs alone (\<open>Deadlock\<close>).  A Go pair \<open>(T, error)\<close>
  is the sum \<open>gerror + 'a\<close>, the error on the left.

  The second half is the program logic used by every component: Hoare triples over
  outcomes (\<open>triple\<close>), and the locale \<open>go_frame\<close>, the contract of a relation between
  the states before and after a call which every composition of calls keeps.
\<close>

named_theorems go_defs \<open>definitions of the sequencing operators\<close>
named_theorems triple_rules \<open>structural rules for Hoare triples\<close>

section \<open>Errors and outcomes\<close>

text \<open>
  The status codes of gRPC.  An error is a gRPC status (its code and the format string of
  its message; the rendered arguments are not kept) or a plain Go error.
\<close>

datatype grpc_code =
    OK | Canceled | UnknownCode | InvalidArgument | DeadlineExceeded | NotFound
  | AlreadyExists | PermissionDenied | ResourceExhausted | FailedPrecondition | Aborted
  | OutOfRange | Unimplemented | Internal | Unavailable | DataLoss | Unauthenticated

datatype gerror = GStatus grpc_code string | GPlain string

text \<open>\<open>status.Convert(err).Code()\<close>: an error that is no gRPC status converts to Unknown.\<close>

fun err_code :: "gerror \<Rightarrow> grpc_code" where
  "err_code (GStatus c _) = c"
| "err_code (GPlain _) = UnknownCode"

datatype 'a outcome = Done 'a | Panic string | Deadlock

type_synonym ('s, 'a) go = "'s \<Rightarrow> 'a outcome \<times> 's"

section \<open>Sequencing\<close>

definition retG :: "'a \<Rightarrow> ('s, 'a) go" where
  "retG x = (\<lambda>s. (Done x, s))"

definition bindG :: "('s, 'a) go \<Rightarrow> ('a \<Rightarrow> ('s, 'b) go) \<Rightarrow> ('s, 'b) go" where
  "bindG m f = (\<lambda>s. case m s of
      (Done x, s') \<Rightarrow> f x s'
    | (Panic p, s') \<Rightarrow> (Panic p, s')
    | (Deadlock, s') \<Rightarrow> (Deadlock, s'))"

definition seqG :: "('s, 'a) go \<Rightarrow> ('s, 'b) go \<Rightarrow> ('s, 'b) go" where
  "seqG m k = bindG m (\<lambda>_. k)"

definition panicG :: "string \<Rightarrow> ('s, 'a) go" where
  "panicG p = (\<lambda>s. (Panic p, s))"

definition deadlockG :: "('s, 'a) go" where
  "deadlockG = (\<lambda>s. (Deadlock, s))"

definition getG :: "('s \<Rightarrow> 'a) \<Rightarrow> ('s, 'a) go" where
  "getG f = (\<lambda>s. (Done (f s), s))"

definition modG :: "('s \<Rightarrow> 's) \<Rightarrow> ('s, unit) go" where
  "modG f = (\<lambda>s. (Done (), f s))"

text \<open>\<open>x, err := m(); if err != nil { return nil, err }; k(x)\<close>\<close>

definition tryG :: "('s, 'e + 'a) go \<Rightarrow> ('a \<Rightarrow> ('s, 'e + 'b) go) \<Rightarrow> ('s, 'e + 'b) go" where
  "tryG m k = bindG m (\<lambda>r. case r of Inl e \<Rightarrow> retG (Inl e) | Inr x \<Rightarrow> k x)"

text \<open>
  \<open>defer fin(); return m()\<close>.  A panic crashes the process, and the deferred calls of this
  program only touch the memory of the driver, so a panic of \<open>m\<close> ends the run at once.
\<close>

definition deferG :: "('s, unit) go \<Rightarrow> ('s, 'a) go \<Rightarrow> ('s, 'a) go" where
  "deferG fin m = bindG m (\<lambda>x. seqG fin (retG x))"

abbreviation failG :: "grpc_code \<Rightarrow> string \<Rightarrow> ('s, gerror + 'a) go" where
  "failG c msg \<equiv> retG (Inl (GStatus c msg))"

text \<open>A pointer dereference: \<open>None\<close> is nil, and dereferencing it panics.\<close>

definition derefG :: "('s \<Rightarrow> 'a option) \<Rightarrow> ('s, 'a) go" where
  "derefG f = bindG (getG f) (\<lambda>o'. case o' of
      None \<Rightarrow> panicG ''nil pointer dereference'' | Some x \<Rightarrow> retG x)"

text \<open>A range loop over a list, with no early exit, and one that collects values.\<close>

fun forG :: "'a list \<Rightarrow> ('a \<Rightarrow> ('s, unit) go) \<Rightarrow> ('s, unit) go" where
  "forG [] f = retG ()"
| "forG (x # xs) f = seqG (f x) (forG xs f)"

fun mapG :: "('a \<Rightarrow> ('s, 'b) go) \<Rightarrow> 'a list \<Rightarrow> ('s, 'b list) go" where
  "mapG f [] = retG []"
| "mapG f (x # xs) = bindG (f x) (\<lambda>y. bindG (mapG f xs) (\<lambda>ys. retG (y # ys)))"

lemmas [go_defs] = retG_def bindG_def seqG_def panicG_def deadlockG_def getG_def modG_def
  tryG_def deferG_def derefG_def

lemma bindG_retG [simp]: "bindG (retG x) f = f x"
  by (simp add: go_defs)

lemma bindG_retG_right [simp]: "bindG m retG = m"
  by (rule ext) (simp add: go_defs split: prod.split outcome.split)

lemma bindG_assoc: "bindG (bindG m f) g = bindG m (\<lambda>x. bindG (f x) g)"
  by (rule ext) (simp add: go_defs split: prod.split outcome.split)

lemma bindG_panicG [simp]: "bindG (panicG p) f = panicG p"
  by (simp add: go_defs)

lemma bindG_deadlockG [simp]: "bindG deadlockG f = deadlockG"
  by (simp add: go_defs)

lemma tryG_retG [simp]:
  "tryG (retG (Inl e)) k = retG (Inl e)" "tryG (retG (Inr x)) k = k x"
  by (simp_all add: go_defs)

lemma bindG_Done [simp]: "m s = (Done x, s') \<Longrightarrow> bindG m f s = f x s'"
  by (simp add: bindG_def)

lemma seqG_Done [simp]: "m s = (Done x, s') \<Longrightarrow> seqG m k s = k s'"
  by (simp add: seqG_def)

lemma tryG_Inr [simp]: "m s = (Done (Inr x), s') \<Longrightarrow> tryG m k s = k x s'"
  by (simp add: tryG_def)

lemma tryG_Inl [simp]: "m s = (Done (Inl e), s') \<Longrightarrow> tryG m k s = (Done (Inl e), s')"
  by (simp add: tryG_def retG_def)

lemma apply_simps [simp]:
  "retG x s = (Done x, s)" "panicG p s = (Panic p, s)" "deadlockG s = (Deadlock, s)"
  "getG f s = (Done (f s), s)" "modG h s = (Done (), h s)"
  by (simp_all add: go_defs)

lemma derefG_Some [simp]: "f s = Some x \<Longrightarrow> derefG f s = (Done x, s)"
  by (simp add: derefG_def)

lemma derefG_None [simp]:
  "f s = None \<Longrightarrow> derefG f s = (Panic ''nil pointer dereference'', s)"
  by (simp add: derefG_def)

lemma bindG_Panic [simp]: "m s = (Panic p, s') \<Longrightarrow> bindG m f s = (Panic p, s')"
  by (simp add: bindG_def)

lemma bindG_Deadlock [simp]: "m s = (Deadlock, s') \<Longrightarrow> bindG m f s = (Deadlock, s')"
  by (simp add: bindG_def)

lemma seqG_Panic [simp]: "m s = (Panic p, s') \<Longrightarrow> seqG m k s = (Panic p, s')"
  by (simp add: seqG_def)

lemma seqG_Deadlock [simp]: "m s = (Deadlock, s') \<Longrightarrow> seqG m k s = (Deadlock, s')"
  by (simp add: seqG_def)

lemma tryG_Panic [simp]: "m s = (Panic p, s') \<Longrightarrow> tryG m k s = (Panic p, s')"
  by (simp add: tryG_def)

lemma deferG_Done: "m s = (Done x, s') \<Longrightarrow> fin s' = (Done u, s'') \<Longrightarrow> deferG fin m s = (Done x, s'')"
  by (simp add: deferG_def)

section \<open>Hoare triples\<close>

text \<open>
  \<open>triple p P m Q\<close>: from a state satisfying \<open>P\<close>, the call never deadlocks, if it returns
  \<open>x\<close> the new state satisfies \<open>Q x\<close>, and it may panic only when \<open>p\<close> is set.
\<close>

definition triple ::
  "bool \<Rightarrow> ('s \<Rightarrow> bool) \<Rightarrow> ('s, 'a) go \<Rightarrow> ('a \<Rightarrow> 's \<Rightarrow> bool) \<Rightarrow> bool" where
  "triple p P m Q \<longleftrightarrow> (\<forall>s. P s \<longrightarrow> (case m s of
      (Done x, s') \<Rightarrow> Q x s' | (Panic _, _) \<Rightarrow> p | (Deadlock, _) \<Rightarrow> False))"

lemma tripleI:
  assumes "\<And>s. P s \<Longrightarrow> (case m s of
      (Done x, s') \<Rightarrow> Q x s' | (Panic _, _) \<Rightarrow> p | (Deadlock, _) \<Rightarrow> False)"
  shows "triple p P m Q"
  using assms by (simp add: triple_def)

lemma triple_Done: "triple p P m Q \<Longrightarrow> P s \<Longrightarrow> m s = (Done x, s') \<Longrightarrow> Q x s'"
  by (fastforce simp: triple_def)

lemma triple_run:
  "triple p P m Q \<Longrightarrow> P s \<Longrightarrow> m s = (r, s') \<Longrightarrow>
     r \<noteq> Deadlock \<and> (\<forall>x. r = Done x \<longrightarrow> Q x s') \<and> (\<forall>e. r = Panic e \<longrightarrow> p)"
  by (cases r) (auto simp: triple_def)

lemma triple_no_deadlock: "triple p P m Q \<Longrightarrow> P s \<Longrightarrow> fst (m s) \<noteq> Deadlock"
  by (cases "m s"; cases "fst (m s)") (fastforce simp: triple_def)+

lemma triple_no_panic: "triple False P m Q \<Longrightarrow> P s \<Longrightarrow> fst (m s) \<noteq> Panic e"
  by (cases "m s"; cases "fst (m s)") (fastforce simp: triple_def)+

lemma triple_returns:
  assumes "triple False P m Q" "P s"
  obtains x s' where "m s = (Done x, s')" "Q x s'"
  using assms by (cases "m s"; cases "fst (m s)") (fastforce simp: triple_def)+

lemma triple_conseq:
  assumes "triple p P m Q" "\<And>s. P' s \<Longrightarrow> P s" "\<And>x s. Q x s \<Longrightarrow> Q' x s"
  shows "triple p P' m Q'"
  using assms by (fastforce simp: triple_def split: outcome.splits prod.splits)

lemma triple_weaken_pre: "triple p P m Q \<Longrightarrow> (\<And>s. P' s \<Longrightarrow> P s) \<Longrightarrow> triple p P' m Q"
  by (rule triple_conseq)

lemma triple_weaken_post: "triple p P m Q \<Longrightarrow> (\<And>x s. Q x s \<Longrightarrow> Q' x s) \<Longrightarrow> triple p P m Q'"
  by (rule triple_conseq)

lemma triple_allow_panic: "triple False P m Q \<Longrightarrow> triple p P m Q"
  by (fastforce simp: triple_def split: outcome.splits prod.splits)

lemma triple_pre_conj: "(C \<Longrightarrow> triple p P m Q) \<Longrightarrow> triple p (\<lambda>s. C \<and> P s) m Q"
  by (auto simp: triple_def)

lemma triple_pre_ex:
  assumes "\<And>y. triple p (P y) m Q"
  shows "triple p (\<lambda>s. \<exists>y. P y s) m Q"
proof (rule tripleI)
  fix s assume "\<exists>y. P y s"
  then obtain y where "P y s" ..
  then show "case m s of (Done x, s') \<Rightarrow> Q x s' | (Panic _, _) \<Rightarrow> p | (Deadlock, _) \<Rightarrow> False"
    using assms [of y] by (simp add: triple_def)
qed

lemma triple_pre_False [simp]: "triple p (\<lambda>s. False) m Q"
  by (simp add: triple_def)

lemma triple_retG [triple_rules]: "triple p (Q x) (retG x) Q"
  by (simp add: triple_def)

lemma triple_retG_weak: "(\<And>s. P s \<Longrightarrow> Q x s) \<Longrightarrow> triple p P (retG x) Q"
  by (simp add: triple_def)

lemma triple_bindG:
  assumes "triple p P m R" "\<And>x. triple p (R x) (f x) Q"
  shows "triple p P (bindG m f) Q"
proof (rule tripleI)
  fix s assume P: "P s"
  show "case bindG m f s of (Done x, s') \<Rightarrow> Q x s' | (Panic _, _) \<Rightarrow> p | (Deadlock, _) \<Rightarrow> False"
  proof (cases "m s")
    case (Pair o' s')
    with P assms show ?thesis
      by (cases o') (fastforce simp: triple_def bindG_def split: outcome.splits prod.splits)+
  qed
qed

lemma triple_seqG: "triple p P m (\<lambda>_. R) \<Longrightarrow> triple p R k Q \<Longrightarrow> triple p P (seqG m k) Q"
  unfolding seqG_def by (rule triple_bindG)

lemma triple_tryG:
  assumes "triple p P m R" "\<And>e s. R (Inl e) s \<Longrightarrow> Q (Inl e) s" "\<And>x. triple p (R (Inr x)) (k x) Q"
  shows "triple p P (tryG m k) Q"
  unfolding tryG_def
proof (rule triple_bindG [OF assms(1)])
  fix r
  show "triple p (R r) (case r of Inl e \<Rightarrow> retG (Inl e) | Inr x \<Rightarrow> k x) Q"
    using assms(2,3) by (cases r) (auto intro: triple_retG_weak)
qed

lemma triple_deferG:
  assumes "triple p P m R" "\<And>x. triple p (R x) fin (\<lambda>_. Q x)"
  shows "triple p P (deferG fin m) Q"
  unfolding deferG_def
  by (rule triple_bindG [OF assms(1)], rule triple_seqG [OF assms(2)], rule triple_retG)

lemma triple_getG: "triple p (\<lambda>s. Q (f s) s) (getG f) Q"
  by (simp add: triple_def)

lemma triple_getG_bind:
  "(\<And>v. triple p (\<lambda>s. P s \<and> v = f s) (k v) Q) \<Longrightarrow> triple p P (bindG (getG f) k) Q"
  by (rule triple_bindG [where R = "\<lambda>v s. P s \<and> v = f s"]) (auto simp: triple_def)

lemma triple_modG: "(\<And>s. P s \<Longrightarrow> Q () (h s)) \<Longrightarrow> triple p P (modG h) Q"
  by (simp add: triple_def)

lemma triple_panicG [triple_rules]: "triple True P (panicG e) Q"
  by (simp add: triple_def)

lemma triple_if:
  "(b \<Longrightarrow> triple p P m Q) \<Longrightarrow> (\<not> b \<Longrightarrow> triple p P k Q) \<Longrightarrow> triple p P (if b then m else k) Q"
  by simp

lemma triple_option:
  "triple p P m Q \<Longrightarrow> (\<And>x. triple p P (f x) Q) \<Longrightarrow> triple p P (case r of None \<Rightarrow> m | Some x \<Rightarrow> f x) Q"
  by (cases r) simp_all

lemma triple_sum:
  "(\<And>e. r = Inl e \<Longrightarrow> triple p P (f e) Q) \<Longrightarrow> (\<And>x. r = Inr x \<Longrightarrow> triple p P (g x) Q) \<Longrightarrow>
     triple p P (case r of Inl e \<Rightarrow> f e | Inr x \<Rightarrow> g x) Q"
  by (cases r) simp_all

lemma triple_prod:
  "(\<And>x y. r = (x, y) \<Longrightarrow> triple p P (f x y) Q) \<Longrightarrow> triple p P (case r of (x, y) \<Rightarrow> f x y) Q"
  by (cases r) simp

lemma triple_forG: "(\<And>x. triple p P (f x) (\<lambda>_. P)) \<Longrightarrow> triple p P (forG xs f) (\<lambda>_. P)"
  by (induction xs) (auto intro: triple_retG_weak triple_seqG)

lemma triple_mapG: "(\<And>x. triple p P (f x) (\<lambda>_. P)) \<Longrightarrow> triple p P (mapG f xs) (\<lambda>_. P)"
  by (induction xs) (auto intro!: triple_retG_weak triple_bindG)

section \<open>Frames\<close>

text \<open>
  \<open>keeps R m\<close>: however the call ends, the states before and after it are related by \<open>R\<close>.
\<close>

definition keeps :: "('s \<Rightarrow> 's \<Rightarrow> bool) \<Rightarrow> ('s, 'a) go \<Rightarrow> bool" where
  "keeps R m \<longleftrightarrow> (\<forall>s. R s (snd (m s)))"

lemma keepsI: "(\<And>s. R s (snd (m s))) \<Longrightarrow> keeps R m"
  by (simp add: keeps_def)

lemma keepsD: "keeps R m \<Longrightarrow> m s = (x, s') \<Longrightarrow> R s s'"
  by (metis keeps_def snd_conv)

text \<open>
  The contract of a frame: a preorder on states.  Everything a client needs to lift it
  through the sequencing operators follows.
\<close>

locale go_frame =
  fixes R :: "'s \<Rightarrow> 's \<Rightarrow> bool"
  assumes frame_refl: "R s s"
    and frame_trans: "R s t \<Longrightarrow> R t u \<Longrightarrow> R s u"
begin

lemma keeps_retG: "keeps R (retG x)"
  by (simp add: keeps_def frame_refl)

lemma keeps_getG: "keeps R (getG f)"
  by (simp add: keeps_def frame_refl)

lemma keeps_panicG: "keeps R (panicG p)"
  by (simp add: keeps_def frame_refl)

lemma keeps_deadlockG: "keeps R deadlockG"
  by (simp add: keeps_def frame_refl)

lemma keeps_bindG:
  assumes "keeps R m" "\<And>x. keeps R (f x)"
  shows "keeps R (bindG m f)"
proof (rule keepsI)
  fix s
  obtain o' s' where m: "m s = (o', s')" by (cases "m s")
  then have "R s s'" using assms(1) by (auto dest: keepsD)
  then show "R s (snd (bindG m f s))"
    using m assms(2) by (cases o') (auto simp: bindG_def keeps_def intro: frame_trans)
qed

lemma keeps_seqG: "keeps R m \<Longrightarrow> keeps R k \<Longrightarrow> keeps R (seqG m k)"
  unfolding seqG_def by (rule keeps_bindG)

lemma keeps_tryG: "keeps R m \<Longrightarrow> (\<And>x. keeps R (k x)) \<Longrightarrow> keeps R (tryG m k)"
  unfolding tryG_def by (rule keeps_bindG) (auto intro: keeps_retG split: sum.split)

lemma keeps_deferG: "keeps R fin \<Longrightarrow> keeps R m \<Longrightarrow> keeps R (deferG fin m)"
  unfolding deferG_def by (intro keeps_bindG keeps_seqG keeps_retG)

lemma keeps_derefG: "keeps R (derefG f)"
  unfolding derefG_def
  by (rule keeps_bindG [OF keeps_getG]) (auto intro: keeps_panicG keeps_retG split: option.split)

lemma keeps_modG: "(\<And>s. R s (h s)) \<Longrightarrow> keeps R (modG h)"
  by (simp add: keeps_def)

lemma keeps_if: "keeps R m \<Longrightarrow> keeps R k \<Longrightarrow> keeps R (if b then m else k)"
  by simp

lemma keeps_option:
  "keeps R m \<Longrightarrow> (\<And>x. keeps R (f x)) \<Longrightarrow> keeps R (case r of None \<Rightarrow> m | Some x \<Rightarrow> f x)"
  by (cases r) simp_all

lemma keeps_sum:
  "(\<And>e. keeps R (f e)) \<Longrightarrow> (\<And>x. keeps R (g x)) \<Longrightarrow>
     keeps R (case r of Inl e \<Rightarrow> f e | Inr x \<Rightarrow> g x)"
  by (cases r) simp_all

lemma keeps_prod: "(\<And>x y. keeps R (f x y)) \<Longrightarrow> keeps R (case r of (x, y) \<Rightarrow> f x y)"
  by (cases r) simp

lemmas keeps_rules = keeps_retG keeps_getG keeps_panicG keeps_deadlockG keeps_bindG keeps_seqG
  keeps_tryG keeps_deferG keeps_derefG keeps_if keeps_option keeps_sum keeps_prod

end

text \<open>Keeping the value of a function of the state is a frame.\<close>

definition same :: "('s \<Rightarrow> 'v) \<Rightarrow> 's \<Rightarrow> 's \<Rightarrow> bool" where
  "same f s t \<longleftrightarrow> f t = f s"

interpretation same_frame: go_frame "same f" for f
  by unfold_locales (auto simp: same_def)

lemma keeps_triple:
  assumes "keeps (same f) m" "triple p P m Q"
  shows "triple p (\<lambda>s. P s \<and> f s = v) m (\<lambda>x s. Q x s \<and> f s = v)"
proof (rule tripleI)
  fix s assume s: "P s \<and> f s = v"
  obtain o' s' where m: "m s = (o', s')" by (cases "m s")
  then have "f s' = v" using assms(1) s by (auto dest: keepsD simp: same_def)
  then show "case m s of (Done x, s') \<Rightarrow> Q x s' \<and> f s' = v | (Panic _, _) \<Rightarrow> p | (Deadlock, _) \<Rightarrow> False"
    using assms(2) s m by (cases o') (fastforce simp: triple_def)+
qed

section \<open>Runs of several goroutines\<close>

text \<open>When each step lowers the measure of one of finitely many, there is no endless run.\<close>

lemma no_endless_sum:
  assumes "finite A" "\<And>n. \<exists>i\<in>A. m (Suc n) i < (m n i :: nat) \<and> (\<forall>j. j \<noteq> i \<longrightarrow> m (Suc n) j = m n j)"
  shows False
proof -
  have "(\<Sum>i\<in>A. m (Suc n) i) < (\<Sum>i\<in>A. m n i)" for n
  proof -
    obtain i where i: "i \<in> A" "m (Suc n) i < m n i" "\<forall>j. j \<noteq> i \<longrightarrow> m (Suc n) j = m n j"
      using assms(2) by blast
    then show ?thesis
      by (intro sum_strict_mono_ex1 [OF assms(1)]) (metis order.refl less_imp_le, blast)
  qed
  then have "\<exists>g. \<forall>n. (g (Suc n), g n) \<in> less_than" by (intro exI [of _ "\<lambda>n. \<Sum>i\<in>A. m n i"]) simp
  then show False using wf_less_than unfolding wf_iff_no_infinite_down_chain by blast
qed

section \<open>Machine integers\<close>

text \<open>
  Go's \<open>int\<close> and \<open>int64\<close> are 64 bits wide, \<open>int32\<close> 32 bits.  They are integers here, with
  the wrap-around of an addition written out where it can happen.
\<close>

definition wrap64 :: "int \<Rightarrow> int" where
  "wrap64 i = (i + 2 ^ 63) mod 2 ^ 64 - 2 ^ 63"

definition wrap32 :: "int \<Rightarrow> int" where
  "wrap32 i = (i + 2 ^ 31) mod 2 ^ 32 - 2 ^ 31"

definition int64_range :: "int \<Rightarrow> bool" where
  "int64_range i \<longleftrightarrow> - (2 ^ 63) \<le> i \<and> i < 2 ^ 63"

lemma wrap64_id [simp]: "int64_range i \<Longrightarrow> wrap64 i = i"
  by (simp add: wrap64_def int64_range_def)

lemma wrap64_range [simp]: "int64_range (wrap64 i)"
proof -
  have "0 \<le> (i + 2 ^ 63) mod 2 ^ 64 \<and> (i + 2 ^ 63) mod 2 ^ 64 < (2 ^ 64 :: int)"
    by (intro conjI pos_mod_sign pos_mod_bound) simp_all
  then show ?thesis by (simp add: wrap64_def int64_range_def)
qed

lemma wrap32_id: "- (2 ^ 31) \<le> i \<Longrightarrow> i < 2 ^ 31 \<Longrightarrow> wrap32 i = i"
  by (simp add: wrap32_def)

lemma wrap32_0_1 [simp]: "wrap32 0 = 0" "wrap32 1 = 1"
  by (simp_all add: wrap32_def)

text \<open>A Go slice expression \<open>xs[i:j]\<close>; out of bounds it panics.\<close>

definition sliceG :: "'a list \<Rightarrow> int \<Rightarrow> int \<Rightarrow> ('s, 'a list) go" where
  "sliceG xs i j = (if 0 \<le> i \<and> i \<le> j \<and> j \<le> int (length xs)
     then retG (take (nat (j - i)) (drop (nat i) xs))
     else panicG ''slice bounds out of range'')"

text \<open>A Go index expression \<open>xs[i]\<close>.\<close>

definition indexG :: "'a list \<Rightarrow> nat \<Rightarrow> ('s, 'a) go" where
  "indexG xs i = (if i < length xs then retG (xs ! i) else panicG ''index out of range'')"

end
