(* ===== verification/GoStrings.thy ===== *)
theory GoStrings
  imports Prelude "HOL-Library.Sublist"
begin

text \<open>
  The functions of Go's standard library on strings that the driver uses: \<open>strings.Split\<close>,
  \<open>strings.Contains\<close>, \<open>strconv.Atoi\<close>, \<open>strconv.Itoa\<close>, \<open>strconv.ParseBool\<close> and the part
  of \<open>fmt.Sprintf\<close> the REST interface relies on.  A Go string is its list of bytes.
\<close>

section \<open>strings.Split and joining with a separator\<close>

text \<open>\<open>strings.Split(s, "/")\<close>: always at least one component, empty components are kept.\<close>

fun split_on :: "char \<Rightarrow> string \<Rightarrow> string list" where
  "split_on c [] = [[]]"
| "split_on c (x # xs) =
     (if x = c then [] # split_on c xs
      else case split_on c xs of [] \<Rightarrow> [[x]] | y # ys \<Rightarrow> (x # y) # ys)"

fun join_with :: "char \<Rightarrow> string list \<Rightarrow> string" where
  "join_with c [] = []"
| "join_with c [x] = x"
| "join_with c (x # y # ys) = x @ c # join_with c (y # ys)"

lemma split_on_nonempty [simp]: "split_on c s \<noteq> []"
  by (cases s) (auto split: list.split)

lemma split_on_no_sep: "c \<notin> set s \<Longrightarrow> split_on c s = [s]"
  by (induction s) auto

lemma split_on_append: "c \<notin> set x \<Longrightarrow> split_on c (x @ c # s) = x # split_on c s"
  by (induction x) auto

lemma append_sep_eq:
  "c \<notin> set x \<Longrightarrow> c \<notin> set y \<Longrightarrow> x @ c # s = y @ c # t \<longleftrightarrow> x = y \<and> s = t"
proof (induction x arbitrary: y)
  case Nil
  then show ?case by (cases y) auto
next
  case (Cons a x)
  then show ?case by (cases y) auto
qed

lemma split_on_components: "x \<in> set (split_on c s) \<Longrightarrow> c \<notin> set x"
  by (induction s arbitrary: x) (auto split: if_splits list.splits)

lemma join_split [simp]: "join_with c (split_on c s) = s"
proof (induction s)
  case (Cons x xs)
  then show ?case
    by (cases "split_on c xs"; cases "tl (split_on c xs)") auto
qed simp

lemma split_join:
  "xs \<noteq> [] \<Longrightarrow> \<forall>x \<in> set xs. c \<notin> set x \<Longrightarrow> split_on c (join_with c xs) = xs"
  by (induction c xs rule: join_with.induct) (auto simp: split_on_no_sep split_on_append)

section \<open>strings.Contains\<close>

fun str_contains :: "string \<Rightarrow> string \<Rightarrow> bool" where
  "str_contains [] sub = (sub = [])"
| "str_contains (x # xs) sub = (prefix sub (x # xs) \<or> str_contains xs sub)"

lemma str_contains_sublist: "str_contains s sub \<longleftrightarrow> sublist sub s"
  by (induction s) (auto simp: sublist_Cons_right)

section \<open>strconv\<close>

definition is_digit :: "char \<Rightarrow> bool" where
  "is_digit c \<longleftrightarrow> 48 \<le> (of_char c :: nat) \<and> (of_char c :: nat) \<le> 57"

definition digit_val :: "char \<Rightarrow> nat" where
  "digit_val c = of_char c - 48"

fun digits_val :: "nat \<Rightarrow> string \<Rightarrow> nat option" where
  "digits_val a [] = Some a"
| "digits_val a (c # cs) = (if is_digit c then digits_val (10 * a + digit_val c) cs else None)"

text \<open>
  \<open>strconv.Atoi\<close>: an optional sign and at least one decimal digit, nothing else; a value
  outside the 64-bit range is an error, as a syntax error is.
\<close>

definition Atoi :: "string \<Rightarrow> int option" where
  "Atoi s = (let neg = (s \<noteq> [] \<and> hd s = CHR ''-'');
                 ds = (if s \<noteq> [] \<and> (hd s = CHR ''-'' \<or> hd s = CHR ''+'') then tl s else s)
             in if ds = [] then None
                else case digits_val 0 ds of None \<Rightarrow> None
                | Some v \<Rightarrow> (let i = (if neg then - int v else int v)
                            in if int64_range i then Some i else None))"

fun nat_digits :: "nat \<Rightarrow> string" where
  "nat_digits n = (if n < 10 then [char_of (48 + n)]
                   else nat_digits (n div 10) @ [char_of (48 + n mod 10)])"

declare nat_digits.simps [simp del]

text \<open>\<open>strconv.Itoa\<close>\<close>

definition Itoa :: "int \<Rightarrow> string" where
  "Itoa i = (if i < 0 then CHR ''-'' # nat_digits (nat (- i)) else nat_digits (nat i))"

lemma of_char_char_of_digit: "d < 10 \<Longrightarrow> (of_char (char_of (48 + d) :: char) :: nat) = 48 + d"
  by (simp add: of_char_of take_bit_eq_mod)

lemma digit_char [simp]:
  "d < 10 \<Longrightarrow> is_digit (char_of (48 + d))" "d < 10 \<Longrightarrow> digit_val (char_of (48 + d)) = d"
  by (simp_all only: is_digit_def digit_val_def of_char_char_of_digit) simp_all

lemma digits_val_append:
  "digits_val a (xs @ ys) = (case digits_val a xs of None \<Rightarrow> None | Some b \<Rightarrow> digits_val b ys)"
  by (induction xs arbitrary: a) auto

lemma digits_val_nat_digits: "digits_val 0 (nat_digits n) = Some n"
proof (induction n rule: nat_digits.induct)
  case (1 n)
  show ?case
  proof (cases "n < 10")
    case True
    then show ?thesis by (subst nat_digits.simps) simp
  next
    case False
    with 1 have "digits_val 0 (nat_digits (n div 10)) = Some (n div 10)" by simp
    with False show ?thesis by (subst nat_digits.simps) (simp add: digits_val_append)
  qed
qed

lemma nat_digits_all_digits: "\<forall>c \<in> set (nat_digits n). is_digit c"
proof (induction n rule: nat_digits.induct)
  case (1 n)
  then show ?case
    by (cases "n < 10") (simp_all add: nat_digits.simps [of n])
qed

lemma nat_digits_nonempty [simp]: "nat_digits n \<noteq> []"
  by (subst nat_digits.simps) simp

lemma nat_digits_hd: "is_digit (hd (nat_digits n))"
  using nat_digits_all_digits hd_in_set nat_digits_nonempty by blast

lemma not_digit_sign [simp]: "\<not> is_digit CHR ''-''" "\<not> is_digit CHR ''+''"
  by (simp_all add: is_digit_def)

lemma Atoi_Itoa:
  assumes "int64_range i"
  shows "Atoi (Itoa i) = Some i"
proof (cases "i < 0")
  case True
  then show ?thesis
    using assms by (simp add: Atoi_def Itoa_def digits_val_nat_digits Let_def)
next
  case False
  have "hd (nat_digits (nat i)) \<noteq> CHR ''-''" "hd (nat_digits (nat i)) \<noteq> CHR ''+''"
    using nat_digits_hd [of "nat i"] by auto
  with False show ?thesis
    using assms by (simp add: Atoi_def Itoa_def digits_val_nat_digits Let_def)
qed

text \<open>\<open>strconv.ParseBool\<close>\<close>

definition ParseBool :: "string \<Rightarrow> bool option" where
  "ParseBool s =
     (if s \<in> set [''1'', ''t'', ''T'', ''TRUE'', ''true'', ''True''] then Some True
      else if s \<in> set [''0'', ''f'', ''F'', ''FALSE'', ''false'', ''False''] then Some False
      else None)"

section \<open>fmt.Sprintf with string arguments\<close>

text \<open>
  \<open>%s\<close> and \<open>%v\<close> print the next argument and \<open>%%\<close> a percent sign.  The driver uses
  references received from the appliance as format strings, so the other cases occur too:
  any verb with no argument left prints \<open>%!verb(MISSING)\<close>, after its flags, width and
  precision are skipped; another verb given an argument prints the bad-verb form; arguments
  left at the end of the format are printed as \<open>%!(EXTRA ...)\<close>.
  (Padding by a width is not modelled.)
\<close>

definition skip_flags :: "string \<Rightarrow> string" where
  "skip_flags = dropWhile (\<lambda>c. is_digit c \<or> c \<in> set ''+-# .'')"

lemma length_skip_flags: "length (skip_flags s) \<le> length s"
  by (simp add: skip_flags_def length_dropWhile_le)

fun extra_args :: "string list \<Rightarrow> string" where
  "extra_args [] = []"
| "extra_args [a] = ''string='' @ a"
| "extra_args (a # as) = ''string='' @ a @ '', '' @ extra_args as"

function Sprintf :: "string \<Rightarrow> string list \<Rightarrow> string" where
  "Sprintf [] args = (if args = [] then [] else ''%!(EXTRA '' @ extra_args args @ '')'')"
| "Sprintf (c # cs) args =
     (if c \<noteq> CHR ''%'' then c # Sprintf cs args
      else case skip_flags cs of
        [] \<Rightarrow> ''%!(NOVERB)''
      | v # rest \<Rightarrow>
          if v = CHR ''%'' then CHR ''%'' # Sprintf rest args
          else case args of
            [] \<Rightarrow> ''%!'' @ [v] @ ''(MISSING)'' @ Sprintf rest []
          | a # as \<Rightarrow>
              (if v = CHR ''s'' \<or> v = CHR ''v'' then a
               else ''%!'' @ [v] @ ''(string='' @ a @ '')'') @ Sprintf rest as)"
  by pat_completeness auto
termination
proof (relation "measure (\<lambda>(cs, args). length cs)", goal_cases)
  case (3 c cs args v rest)
  then show ?case using length_skip_flags [of cs] by simp
next
  case (4 c cs args v rest)
  then show ?case using length_skip_flags [of cs] by simp
next
  case (5 c cs args v rest a as)
  then show ?case using length_skip_flags [of cs] by simp
qed auto

lemma Sprintf_plain: "CHR ''%'' \<notin> set s \<Longrightarrow> Sprintf s [] = s"
  by (induction s) auto

lemma Sprintf_plain_append: "CHR ''%'' \<notin> set s \<Longrightarrow> Sprintf (s @ t) args = s @ Sprintf t args"
  by (induction s) auto

lemma Sprintf_s: "Sprintf (CHR ''%'' # CHR ''s'' # rest) (a # as) = a @ Sprintf rest as"
  by (simp add: skip_flags_def is_digit_def)

declare Sprintf.simps [simp del]

end
