(* ===== verification/VolumeIds.thy ===== *)
theory VolumeIds
  imports GoStrings
begin

text \<open>
  \<open>pkg/utils/volume_id.go\<close>: the identifiers of volumes and snapshots, their parsers and
  printers, the references (hrefs) of the appliance, the conversion of dates and the
  validation of resource names.  The lemmas show that printing and parsing are inverse on
  well-formed identifiers, that every accepted volume ID names only valid resources, and
  that the href-based constructors agree with each other.
\<close>

section \<open>Data and constants\<close>

definition VolumeMinComponents :: nat where "VolumeMinComponents = 2"
definition VolumeIdLen :: nat where "VolumeIdLen = 6"
definition VolumeHandleLen :: nat where "VolumeHandleLen = 8"
definition SnapshotIdLen :: nat where "SnapshotIdLen = 7"
definition VolumeHrefLen :: nat where "VolumeHrefLen = 10"
definition SnapshotHrefLen :: nat where "SnapshotHrefLen = 12"

definition BlockVolume :: string where "BlockVolume = ''lun''"
definition MountVolume :: string where "MountVolume = ''mnt''"
definition ResourceNameLength :: nat where "ResourceNameLength = 64"

lemmas id_consts = VolumeMinComponents_def VolumeIdLen_def VolumeHandleLen_def SnapshotIdLen_def
  VolumeHrefLen_def SnapshotHrefLen_def BlockVolume_def MountVolume_def

record VolumeId =
  vidType :: string
  vidZfssa :: string
  vidPool :: string
  vidProject :: string
  vidName :: string

record SnapshotId =
  sidVolumeId :: VolumeId
  sidName :: string

section \<open>Resource names\<close>

text \<open>The class \<open>[a-zA-Z0-9_\-\.\:]\<close> of \<open>ResourceNamePattern\<close>.\<close>

definition resource_char :: "char \<Rightarrow> bool" where
  "resource_char c \<longleftrightarrow>
     c \<in> set ''abcdefghijklmnopqrstuvwxyzABCDEFGHIJKLMNOPQRSTUVWXYZ0123456789_-.:''"

definition IsResourceNameValid :: "string \<Rightarrow> bool" where
  "IsResourceNameValid name \<longleftrightarrow>
     length name \<le> ResourceNameLength \<and> name \<noteq> [] \<and> list_all resource_char name"

text \<open>What the validation is for: the name stays one component of an ID, and of a URL.\<close>

lemma resource_char_plain: "resource_char c \<Longrightarrow> c \<noteq> CHR ''/'' \<and> c \<noteq> CHR ''%''"
  by (auto simp: resource_char_def)

lemma valid_name_no_sep: "IsResourceNameValid n \<Longrightarrow> CHR ''/'' \<notin> set n"
  by (auto simp: IsResourceNameValid_def list_all_iff dest: resource_char_plain)

lemma valid_name_no_percent: "IsResourceNameValid n \<Longrightarrow> CHR ''%'' \<notin> set n"
  by (auto simp: IsResourceNameValid_def list_all_iff dest: resource_char_plain)

section \<open>Volume IDs\<close>

definition NewVolumeId :: "string \<Rightarrow> string \<Rightarrow> string \<Rightarrow> string \<Rightarrow> string \<Rightarrow> VolumeId" where
  "NewVolumeId vType zfssaName pool project name =
     \<lparr>vidType = vType, vidZfssa = zfssaName, vidPool = pool, vidProject = project, vidName = name\<rparr>"

definition VolumeId_String :: "VolumeId \<Rightarrow> string" where
  "VolumeId_String v = ''/'' @ vidType v @ ''/'' @ vidZfssa v @ ''/'' @ vidPool v @ ''/'' @
     vidProject v @ ''/'' @ vidName v"

text \<open>The type component of an href, shared by the three href parsers.\<close>

definition href_type :: "string \<Rightarrow> gerror + string" where
  "href_type kind =
     (if kind = ''filesystems'' then Inr MountVolume
      else if kind = ''luns'' then Inr BlockVolume
      else Inl (GStatus NotFound ''Invalid snapshot href (%s)''))"

definition VolumeIdStringFromHref :: "string \<Rightarrow> string \<Rightarrow> gerror + string" where
  "VolumeIdStringFromHref zfssa hRef = (let result = split_on CHR ''/'' hRef in
     if length result < VolumeHrefLen
     then Inl (GStatus NotFound ''Volume ID (%s) contains insufficient components (%d)'')
     else case href_type (result ! 8) of
       Inl e \<Rightarrow> Inl e
     | Inr vType \<Rightarrow> Inr (''/'' @ vType @ ''/'' @ zfssa @ ''/'' @ result ! 5 @ ''/'' @ result ! 7
         @ ''/'' @ result ! 9))"

definition VolumeIdFromString :: "string \<Rightarrow> gerror + VolumeId" where
  "VolumeIdFromString volumeId = (let result = split_on CHR ''/'' volumeId in
     if length result < VolumeMinComponents
     then Inl (GStatus InvalidArgument
       ''Volume ID/Handle (%s) contains insufficient components to continue handling (%d)'')
     else
       let handle = (result ! 1 = ''nfs'' \<or> result ! 1 = ''iscsi'') in
       if handle \<and> length result < VolumeHandleLen
       then Inl (GStatus NotFound ''Volume ID/Handle (%s) contains insufficient components (%d)'')
       else if \<not> handle \<and> length result < VolumeIdLen
       then Inl (GStatus NotFound ''Volume ID (%s) contains insufficient components (%d)'')
       else
         let pool = (if handle then result ! 4 else result ! 3);
             project = (if handle then result ! 6 else result ! 4);
             share = (if handle then result ! 7 else result ! 5) in
         if \<not> IsResourceNameValid pool
         then Inl (GStatus InvalidArgument ''pool name is invalid (%s)'')
         else if \<not> IsResourceNameValid project
         then Inl (GStatus InvalidArgument ''project name is invalid (%s)'')
         else if \<not> IsResourceNameValid share
         then Inl (GStatus InvalidArgument ''share name is invalid (%s)'')
         else Inr \<lparr>vidType = result ! 1, vidZfssa = result ! 2, vidPool = pool,
                   vidProject = project, vidName = share\<rparr>)"

definition VolumeId_IsBlock :: "VolumeId \<Rightarrow> bool" where
  "VolumeId_IsBlock v =
     (if vidType v = BlockVolume then True
      else if vidType v = MountVolume then False
      else False)"

section \<open>Snapshot IDs\<close>

definition NewSnapshotId :: "VolumeId \<Rightarrow> string \<Rightarrow> SnapshotId" where
  "NewSnapshotId volumeId snapshotName = \<lparr>sidVolumeId = volumeId, sidName = snapshotName\<rparr>"

definition SnapshotId_String :: "SnapshotId \<Rightarrow> string" where
  "SnapshotId_String z = (let v = sidVolumeId z in
     ''/'' @ vidType v @ ''/'' @ vidZfssa v @ ''/'' @ vidPool v @ ''/'' @
     vidProject v @ ''/'' @ vidName v @ ''/'' @ sidName z)"

definition SnapshotIdFromString :: "string \<Rightarrow> gerror + SnapshotId" where
  "SnapshotIdFromString snapshotId = (let result = split_on CHR ''/'' snapshotId in
     if length result < SnapshotIdLen
     then Inl (GStatus NotFound ''Volume ID (%s) contains insufficient components (%d)'')
     else Inr \<lparr>sidVolumeId = \<lparr>vidType = result ! 1, vidZfssa = result ! 2, vidPool = result ! 3,
                              vidProject = result ! 4, vidName = result ! 5\<rparr>,
               sidName = result ! 6\<rparr>)"

definition SnapshotIdFromHref :: "string \<Rightarrow> string \<Rightarrow> gerror + SnapshotId" where
  "SnapshotIdFromHref zfssa hRef = (let result = split_on CHR ''/'' hRef in
     if length result < SnapshotHrefLen
     then Inl (GStatus NotFound ''Snapshot ID (%s) contains insufficient components (%d)'')
     else if result ! 10 \<noteq> ''snapshots''
     then Inl (GStatus NotFound ''Invalid snapshot href (%s)'')
     else case href_type (result ! 8) of
       Inl e \<Rightarrow> Inl e
     | Inr vType \<Rightarrow> Inr \<lparr>sidVolumeId = \<lparr>vidType = vType, vidZfssa = zfssa, vidPool = result ! 5,
                                       vidProject = result ! 7, vidName = result ! 9\<rparr>,
                        sidName = result ! 11\<rparr>)"

definition SnapshotIdStringFromHref :: "string \<Rightarrow> string \<Rightarrow> gerror + string" where
  "SnapshotIdStringFromHref zfssa hRef = (let result = split_on CHR ''/'' hRef in
     if length result < SnapshotHrefLen
     then Inl (GStatus NotFound ''Snapshot ID (%s) contains insufficient components (%d)'')
     else if result ! 10 \<noteq> ''snapshots''
     then Inl (GStatus NotFound ''Invalid snapshot href (%s)'')
     else case href_type (result ! 8) of
       Inl e \<Rightarrow> Inl e
     | Inr vType \<Rightarrow> Inr (''/'' @ vType @ ''/'' @ zfssa @ ''/'' @ result ! 5 @ ''/'' @ result ! 7
         @ ''/'' @ result ! 9 @ ''/'' @ result ! 11))"

section \<open>Dates\<close>

text \<open>
  \<open>DateToUnix\<close>: the six numbers of an ISO date.  \<open>time.Date(...).Unix()\<close> in the local
  zone depends on the time zone data of the machine and is the parameter \<open>tz\<close>.  The result
  is the pair of Go's return values; the errors of the inner conversions go to variables that
  shadow \<open>err\<close>, so the final \<open>return nil, err\<close> returns the outer, nil, one.
\<close>

type_synonym clock = "int \<Rightarrow> int \<Rightarrow> int \<Rightarrow> int \<Rightarrow> int \<Rightarrow> int \<Rightarrow> int"

definition DateToUnix :: "clock \<Rightarrow> string \<Rightarrow> ('s, int option \<times> gerror option) go" where
  "DateToUnix tz date =
     bindG (sliceG date 0 4) (\<lambda>y. case Atoi y of
       None \<Rightarrow> retG (None, Some (GPlain ''strconv.Atoi: parsing''))
     | Some year \<Rightarrow>
     bindG (sliceG date 5 7) (\<lambda>mo. case Atoi mo of
       None \<Rightarrow> retG (None, None)
     | Some month \<Rightarrow>
     bindG (sliceG date 8 10) (\<lambda>d. case Atoi d of
       None \<Rightarrow> retG (None, None)
     | Some day \<Rightarrow>
     bindG (sliceG date 11 13) (\<lambda>h. case Atoi h of
       None \<Rightarrow> retG (None, None)
     | Some hour \<Rightarrow>
     bindG (sliceG date 14 16) (\<lambda>mi. case Atoi mi of
       None \<Rightarrow> retG (None, None)
     | Some min' \<Rightarrow>
     bindG (sliceG date 17 19) (\<lambda>se. case Atoi se of
       None \<Rightarrow> retG (None, None)
     | Some sec \<Rightarrow> retG (Some (tz year month day hour min' sec), None)))))))"

section \<open>Printing and parsing\<close>

text \<open>
  The contract of an identifier type: its printer and parser, and the identifiers that are
  well formed.  On those, parsing inverts printing, so printed IDs identify.
\<close>

locale id_codec =
  fixes print_id :: "'a \<Rightarrow> string"
    and parse_id :: "string \<Rightarrow> gerror + 'a"
    and wf_id :: "'a \<Rightarrow> bool"
  assumes parse_print: "wf_id x \<Longrightarrow> parse_id (print_id x) = Inr x"
begin

lemma print_inject: "wf_id x \<Longrightarrow> wf_id y \<Longrightarrow> print_id x = print_id y \<longleftrightarrow> x = y"
  using parse_print by (metis sum.inject(2))

lemma print_not_error: "wf_id x \<Longrightarrow> parse_id (print_id x) \<noteq> Inl e"
  by (simp add: parse_print)

end

text \<open>A volume ID as the driver makes it: no handle type, components without separator.\<close>

definition vid_wf :: "VolumeId \<Rightarrow> bool" where
  "vid_wf v \<longleftrightarrow> vidType v \<noteq> ''nfs'' \<and> vidType v \<noteq> ''iscsi'' \<and> CHR ''/'' \<notin> set (vidType v) \<and>
     CHR ''/'' \<notin> set (vidZfssa v) \<and> IsResourceNameValid (vidPool v) \<and>
     IsResourceNameValid (vidProject v) \<and> IsResourceNameValid (vidName v)"

definition sid_wf :: "SnapshotId \<Rightarrow> bool" where
  "sid_wf z \<longleftrightarrow> (let v = sidVolumeId z in
     \<forall>c \<in> set [vidType v, vidZfssa v, vidPool v, vidProject v, vidName v, sidName z].
       CHR ''/'' \<notin> set c)"

lemma VolumeId_String_join:
  "VolumeId_String v = join_with CHR ''/''
     [[], vidType v, vidZfssa v, vidPool v, vidProject v, vidName v]"
  by (simp add: VolumeId_String_def)

lemma SnapshotId_String_join:
  "SnapshotId_String z = join_with CHR ''/'' [[], vidType (sidVolumeId z),
     vidZfssa (sidVolumeId z), vidPool (sidVolumeId z), vidProject (sidVolumeId z),
     vidName (sidVolumeId z), sidName z]"
  by (simp add: SnapshotId_String_def Let_def)

lemma SnapshotId_String_append:
  "SnapshotId_String z = VolumeId_String (sidVolumeId z) @ ''/'' @ sidName z"
  by (simp add: SnapshotId_String_def VolumeId_String_def Let_def)

interpretation vid: id_codec VolumeId_String VolumeIdFromString vid_wf
proof
  fix v assume wf: "vid_wf v"
  have "split_on CHR ''/'' (VolumeId_String v) =
      [[], vidType v, vidZfssa v, vidPool v, vidProject v, vidName v]"
    unfolding VolumeId_String_join using wf
    by (intro split_join) (auto simp: vid_wf_def dest: valid_name_no_sep)
  then show "VolumeIdFromString (VolumeId_String v) = Inr v"
    using wf by (simp add: VolumeIdFromString_def id_consts vid_wf_def Let_def)
qed

interpretation sid: id_codec SnapshotId_String SnapshotIdFromString sid_wf
proof
  fix z assume wf: "sid_wf z"
  have "split_on CHR ''/'' (SnapshotId_String z) =
      [[], vidType (sidVolumeId z), vidZfssa (sidVolumeId z), vidPool (sidVolumeId z),
       vidProject (sidVolumeId z), vidName (sidVolumeId z), sidName z]"
    unfolding SnapshotId_String_join using wf
    by (intro split_join) (auto simp: sid_wf_def Let_def)
  then show "SnapshotIdFromString (SnapshotId_String z) = Inr z"
    by (simp add: SnapshotIdFromString_def id_consts Let_def)
qed

lemma VolumeIdFromString_names:
  "VolumeIdFromString s = Inr v \<Longrightarrow>
     IsResourceNameValid (vidPool v) \<and> IsResourceNameValid (vidProject v) \<and>
     IsResourceNameValid (vidName v)"
  by (auto simp: VolumeIdFromString_def Let_def split: if_splits)

lemma VolumeIdFromString_no_sep:
  assumes "VolumeIdFromString s = Inr v"
  shows "CHR ''/'' \<notin> set (vidType v)" "CHR ''/'' \<notin> set (vidZfssa v)"
proof -
  let ?r = "split_on CHR ''/'' s"
  have len: "5 < length ?r" and eq: "vidType v = ?r ! 1" "vidZfssa v = ?r ! 2"
    using assms by (auto simp: VolumeIdFromString_def id_consts Let_def split: if_splits)
  have "vidType v \<in> set ?r" "vidZfssa v \<in> set ?r"
    using len unfolding eq by (auto intro!: nth_mem)
  then show "CHR ''/'' \<notin> set (vidType v)" "CHR ''/'' \<notin> set (vidZfssa v)"
    by (auto dest: split_on_components)
qed

text \<open>An accepted ID that is no handle is well formed, so it is its own canonical form.\<close>

lemma VolumeIdFromString_wf:
  assumes "VolumeIdFromString s = Inr v" "vidType v \<noteq> ''nfs''" "vidType v \<noteq> ''iscsi''"
  shows "vid_wf v"
  using assms VolumeIdFromString_names [OF assms(1)] VolumeIdFromString_no_sep [OF assms(1)]
  by (simp add: vid_wf_def)

lemma SnapshotIdFromHref_parts:
  assumes "SnapshotIdFromHref zfssa h = Inr z"
  shows "\<exists>r t. r = split_on CHR ''/'' h \<and> 12 \<le> length r \<and> href_type (r ! 8) = Inr t \<and>
    z = \<lparr>sidVolumeId = \<lparr>vidType = t, vidZfssa = zfssa, vidPool = r ! 5, vidProject = r ! 7,
                       vidName = r ! 9\<rparr>, sidName = r ! 11\<rparr>"
  using assms by (auto simp: SnapshotIdFromHref_def id_consts Let_def split: if_splits sum.splits)

lemma VolumeIdStringFromHref_snapshot:
  assumes "SnapshotIdFromHref zfssa h = Inr z"
  shows "VolumeIdStringFromHref zfssa h = Inr (VolumeId_String (sidVolumeId z))"
  using SnapshotIdFromHref_parts [OF assms]
  by (auto simp: VolumeIdStringFromHref_def VolumeId_String_def id_consts Let_def)

lemma DateToUnix_Panic_short:
  "length date < 4 \<Longrightarrow> DateToUnix tz date s = (Panic ''slice bounds out of range'', s)"
  by (simp add: DateToUnix_def sliceG_def)

end
