(* ===== verification/RestTypes.thy ===== *)
theory RestTypes
  imports VolumeIds
begin

text \<open>
  The data of \<open>pkg/zfssarest\<close>: the structures the appliance sends, with their zero values
  (what a Go variable holds before anything is decoded into it), requests and responses of
  the HTTP transport, tokens, and the environment of the driver, a record of everything that
  is not code of this repository: the appliance behind the transport, the files, the time
  zone data and the decoders generated by reflection in \<open>encoding/json\<close>.
\<close>

section \<open>Structures of the REST interface\<close>

record Filesystem =
  fsMountPoint :: string
  fsCreationTime :: string
  fsRootUser :: string
  fsRootGroup :: string
  fsRootPermissions :: string
  fsRestrictChown :: bool
  fsShareNFS :: string
  fsShareSMB :: string
  fsSpaceData :: int
  fsCanonicalName :: string
  fsRecordSize :: int
  fsSpaceAvailable :: int
  fsQuota :: int
  fsUTF8Only :: bool
  fsMaxBlockSize :: int
  fsAtime :: bool
  fsReadOnly :: bool
  fsPool :: string
  fsName :: string
  fsSpaceTotal :: int
  fsSpaceUnused :: int
  fsProject :: string
  fsHref :: string

definition zero_Filesystem :: Filesystem where
  "zero_Filesystem = \<lparr>fsMountPoint = [], fsCreationTime = [], fsRootUser = [], fsRootGroup = [],
     fsRootPermissions = [], fsRestrictChown = False, fsShareNFS = [], fsShareSMB = [],
     fsSpaceData = 0, fsCanonicalName = [], fsRecordSize = 0, fsSpaceAvailable = 0, fsQuota = 0,
     fsUTF8Only = False, fsMaxBlockSize = 0, fsAtime = False, fsReadOnly = False, fsPool = [],
     fsName = [], fsSpaceTotal = 0, fsSpaceUnused = 0, fsProject = [], fsHref = []\<rparr>"

text \<open>A finite \<open>float64\<close> is a rational number; JSON has no other.\<close>

record Lun =
  lunSpaceData :: rat
  lunCanonicalName :: string
  lunVolumeSize :: rat
  lunVolumeBlockSize :: int
  lunPool :: string
  lunProject :: string
  lunName :: string
  lunHref :: string
  lunAssignedNumber :: "int list"
  lunInitiatorGroup :: "string list"
  lunTargetGroup :: string

definition zero_Lun :: Lun where
  "zero_Lun = \<lparr>lunSpaceData = 0, lunCanonicalName = [], lunVolumeSize = 0, lunVolumeBlockSize = 0,
     lunPool = [], lunProject = [], lunName = [], lunHref = [], lunAssignedNumber = [],
     lunInitiatorGroup = [], lunTargetGroup = []\<rparr>"

text \<open>\<open>int64(f)\<close>: truncation; out of range, the value the conversion has on amd64.\<close>

definition int64_of_float :: "rat \<Rightarrow> int" where
  "int64_of_float f = (let i = (if 0 \<le> f then \<lfloor>f\<rfloor> else \<lceil>f\<rceil>)
     in if int64_range i then i else - (2 ^ 63))"

record Snapshot =
  snName :: string
  snNumClones :: int
  snCreation :: string
  snCollection :: string
  snProject :: string
  snCanonicalName :: string
  snSpaceUnique :: int
  snSpaceData :: int
  snType :: string
  snID :: string
  snPool :: string
  snHref :: string

definition zero_Snapshot :: Snapshot where
  "zero_Snapshot = \<lparr>snName = [], snNumClones = 0, snCreation = [], snCollection = [],
     snProject = [], snCanonicalName = [], snSpaceUnique = 0, snSpaceData = 0, snType = [],
     snID = [], snPool = [], snHref = []\<rparr>"

record PoolUsage =
  puAvailable :: int
  puUsageSnapshots :: int
  puUsageMetasize :: int
  puUsed :: int
  puUsageChildReservation :: int
  puUsageReplication :: int
  puUsageReservation :: int
  puFree :: int
  puUsageTotal :: int
  puUsageMetaused :: int
  puTotal :: int
  puUsageData :: int

record Pool =
  poStatus :: string
  poName :: string
  poUsage :: PoolUsage
  poHRef :: string
  poASN :: string

definition zero_Pool :: Pool where
  "zero_Pool = \<lparr>poStatus = [], poName = [],
     poUsage = \<lparr>puAvailable = 0, puUsageSnapshots = 0, puUsageMetasize = 0, puUsed = 0,
       puUsageChildReservation = 0, puUsageReplication = 0, puUsageReservation = 0, puFree = 0,
       puUsageTotal = 0, puUsageMetaused = 0, puTotal = 0, puUsageData = 0\<rparr>,
     poHRef = [], poASN = []\<rparr>"

record Project =
  prName :: string
  prPool :: string
  prSpaceAvailable :: int

definition zero_Project :: Project where
  "zero_Project = \<lparr>prName = [], prPool = [], prSpaceAvailable = 0\<rparr>"

record TargetGroup =
  tgName :: string
  tgTargets :: "string list"

definition zero_TargetGroup :: TargetGroup where
  "zero_TargetGroup = \<lparr>tgName = [], tgTargets = []\<rparr>"

record Dependent =
  depProject :: string
  depHRef :: string
  depShare :: string

record Service =
  svVersion :: string
  svName :: string
  svURI :: string

section \<open>The HTTP transport\<close>

text \<open>
  The values the driver puts into request bodies, and a body: the fields of the JSON object
  that \<open>json.Marshal\<close> makes of the map or structure (\<open>NoBody\<close> for nil).  Marshalling
  these values cannot fail.
\<close>

datatype jval = JStr string | JInt int | JBool bool | JStrs "string list"

datatype body = NoBody | Body "string \<Rightarrow> jval option"

text \<open>
  A session request carries the account in its headers, any other request the session.  The
  result is an error of the transport (its text), or a response: its status code, its body
  unless reading it fails, and the two session headers.
\<close>

datatype http_request =
    SessionRequest string string string   \<comment> \<open>URL, X-Auth-User, X-Auth-Key\<close>
  | ApiRequest string string string body   \<comment> \<open>method, URL, X-Auth-Session, body\<close>

datatype http_result =
    DoError string
  | Response int "string option" string string

section \<open>Tokens\<close>

datatype token_state = zfssaTokenInvalid | zfssaTokenCreating | zfssaTokenValid

record Token =
  tokName :: string
  tokUser :: string
  tokPassword :: string
  tokState :: token_state
  tokXAuthSession :: string
  tokXAuthName :: string

section \<open>The environment\<close>

text \<open>
  \<open>envHttp\<close> is \<open>httpClient.Do\<close>, the appliance with the network before it, as a function
  on the world it keeps.  The decoders are \<open>json.Unmarshal\<close> into one type each, \<open>None\<close>
  for an error; \<open>envJsonValue\<close> gives the bytes of the top-level value of a valid JSON text,
  what \<open>json.Unmarshal\<close> hands to an \<open>UnmarshalJSON\<close> method.  \<open>envRequestOk\<close> says whether
  \<open>http.NewRequest\<close> accepts a method and a URL.  \<open>envMapOrder\<close> is the order in which a
  range loop visits a map, and \<open>envNodeName\<close> the query of Kubernetes for the name of a node.
\<close>

record 'w env =
  envHttp :: "http_request \<Rightarrow> 'w \<Rightarrow> http_result \<times> 'w"
  envRequestOk :: "string \<Rightarrow> string \<Rightarrow> bool"
  envReadFile :: "string \<Rightarrow> 'w \<Rightarrow> string option"
  envCertsOk :: "string \<Rightarrow> bool"
  envYamlCredentials :: "string \<Rightarrow> (string \<times> string) option"
  envClock :: clock
  envNodeName :: "string \<Rightarrow> 'w \<Rightarrow> string option"
  envMapOrder :: "(string \<times> nat) list \<Rightarrow> (string \<times> nat) list"
  envJsonValue :: "string \<Rightarrow> string option"
  decFilesystem :: "string \<Rightarrow> Filesystem option"
  decFilesystemList :: "string \<Rightarrow> Filesystem list option"
  decLun :: "string \<Rightarrow> Lun option"
  decLunList :: "string \<Rightarrow> Lun list option"
  decSnapshot :: "string \<Rightarrow> Snapshot option"
  decSnapshotList :: "string \<Rightarrow> Snapshot list option"
  decDependentList :: "string \<Rightarrow> Dependent list option"
  decPool :: "string \<Rightarrow> Pool option"
  decPoolList :: "string \<Rightarrow> Pool list option"
  decProject :: "string \<Rightarrow> Project option"
  decProjectList :: "string \<Rightarrow> Project list option"
  decTargetGroup :: "string \<Rightarrow> TargetGroup option"
  decServiceList :: "string \<Rightarrow> Service list option"

section \<open>The global state of the package\<close>

text \<open>
  \<open>restTokens\<close> is \<open>tokens.list\<close> (\<open>None\<close> while it is the nil map) with pointers into
  \<open>restHeap\<close>: a token outlives its removal from the list.
\<close>

record 'w rest =
  restTokens :: "(string \<times> nat) list option"
  restHeap :: "nat \<Rightarrow> Token option"
  restNext :: nat
  InsecureSkipVerify :: bool
  zfssaCertLocation :: string
  zServicesURL :: string
  zName :: string
  world :: 'w

end
