(* ===== verification/Rest.thy ===== *)
theory Rest
  imports RestTypes
begin

text \<open>
  \<open>pkg/zfssarest/zfssa_rest.go\<close>: the initialisation of the interface, the token list, the
  life of a token and the requests to the appliance.  The critical sections of the token
  mutexes are atomic steps here, as a request running alone sees them.  The lemmas give the
  frame of every request (it changes tokens and the appliance only), the states a token can
  be left in, the meaning of a nil error of \<open>MakeRequest\<close>, and a bound on the requests sent.
\<close>

section \<open>URL formats\<close>

definition zAppliance :: string where "zAppliance = ''https://%s:215''"
definition zServices :: string where "zServices = zAppliance @ ''/api/access/v2''"
definition zStorage :: string where "zStorage = zAppliance @ ''/api/storage/v2''"
definition zSan :: string where "zSan = zAppliance @ ''/api/san/v2''"
definition zPools :: string where "zPools = zStorage @ ''/pools''"
definition zPool :: string where "zPool = zPools @ ''/%s''"
definition zAllProjects :: string where "zAllProjects = zStorage @ ''/projects''"
definition zProjects :: string where "zProjects = zPool @ ''/projects''"
definition zProject :: string where "zProject = zProjects @ ''/%s''"
definition zAllFilesystems :: string where "zAllFilesystems = zStorage @ ''/filesystems''"
definition zFilesystems :: string where "zFilesystems = zProject @ ''/filesystems''"
definition zFilesystem :: string where "zFilesystem = zFilesystems @ ''/%s''"
definition zAllLUNs :: string where "zAllLUNs = zStorage @ ''/luns''"
definition zLUNs :: string where "zLUNs = zProject @ ''/luns''"
definition zLUN :: string where "zLUN = zLUNs @ ''/%s''"
definition zAllSnapshots :: string where "zAllSnapshots = zStorage @ ''/snapshots''"
definition zTargetGroups :: string where "zTargetGroups = zSan @ ''/%s/target-groups''"
definition zTargetGroup :: string where "zTargetGroup = zTargetGroups @ ''/%s''"

lemmas url_defs = zAppliance_def zServices_def zStorage_def zSan_def zPools_def zPool_def
  zAllProjects_def zProjects_def zProject_def zAllFilesystems_def zFilesystems_def
  zFilesystem_def zAllLUNs_def zLUNs_def zLUN_def zAllSnapshots_def zTargetGroups_def
  zTargetGroup_def

text \<open>HTTP status codes the driver tests.\<close>

definition StatusOK :: int where "StatusOK = 200"
definition StatusCreated :: int where "StatusCreated = 201"
definition StatusAccepted :: int where "StatusAccepted = 202"
definition StatusNoContent :: int where "StatusNoContent = 204"
definition StatusUnauthorized :: int where "StatusUnauthorized = 401"
definition StatusNotFound :: int where "StatusNotFound = 404"
definition StatusConflict :: int where "StatusConflict = 409"

lemmas http_codes = StatusOK_def StatusCreated_def StatusAccepted_def StatusNoContent_def
  StatusUnauthorized_def StatusNotFound_def StatusConflict_def

section \<open>Initialisation and the token list\<close>

definition resetHttpTlsClient ::
  "'w env \<Rightarrow> (('w, 'b) rest_scheme, gerror option) go" where
  "resetHttpTlsClient env =
     bindG (getG InsecureSkipVerify) (\<lambda>insecure.
     if insecure then retG None
     else
     bindG (getG (\<lambda>s. envReadFile env (zfssaCertLocation s) (world s))) (\<lambda>certs. case certs of
       None \<Rightarrow> retG (Some (GPlain ''failed to read ZFSSA certificate''))
     | Some pem \<Rightarrow>
       if \<not> envCertsOk env pem
       then retG (Some (GPlain ''failed to append the certificate''))
       else seqG (modG (\<lambda>s. s\<lparr>restTokens := Some []\<rparr>)) (retG None)))"

definition InitREST ::
  "'w env \<Rightarrow> string \<Rightarrow> string \<Rightarrow> bool \<Rightarrow> (('w, 'b) rest_scheme, gerror option) go" where
  "InitREST env name certLocation secure =
     seqG (modG (\<lambda>s. s\<lparr>InsecureSkipVerify := \<not> secure, zfssaCertLocation := certLocation\<rparr>))
     (bindG (resetHttpTlsClient env) (\<lambda>err. case err of
       Some e \<Rightarrow> retG (Some e)
     | None \<Rightarrow>
       seqG (modG (\<lambda>s. s\<lparr>zServicesURL := Sprintf zServices [name], zName := name\<rparr>))
       (retG None)))"

abbreviation modToken :: "nat \<Rightarrow> (Token \<Rightarrow> Token) \<Rightarrow> (('w, 'b) rest_scheme, unit) go" where
  "modToken t f \<equiv> modG (\<lambda>s. s\<lparr>restHeap := (restHeap s)(t := map_option f (restHeap s t))\<rparr>)"

text \<open>
  Reading the nil map finds nothing; assigning to an entry of it panics.
\<close>

definition LookUpToken ::
  "string \<Rightarrow> string \<Rightarrow> (('w, 'b) rest_scheme, nat) go" where
  "LookUpToken user password =
     bindG (getG restTokens) (\<lambda>l.
     case (case l of None \<Rightarrow> None | Some al \<Rightarrow> map_of al user) of
       Some t \<Rightarrow>
         bindG (derefG (\<lambda>s. restHeap s t)) (\<lambda>token.
         seqG (if password \<noteq> [] \<and> password \<noteq> tokPassword token
               then modToken t (\<lambda>k. k\<lparr>tokPassword := password\<rparr>) else retG ())
         (retG t))
     | None \<Rightarrow>
         bindG (getG restNext) (\<lambda>t.
         seqG (modG (\<lambda>s. s\<lparr>restHeap := (restHeap s)(t \<mapsto>
                 \<lparr>tokName = zName s, tokUser = user, tokPassword = password,
                  tokState = zfssaTokenInvalid, tokXAuthSession = [], tokXAuthName = []\<rparr>),
               restNext := Suc t\<rparr>))
         (case l of
            None \<Rightarrow> panicG ''assignment to entry in nil map''
          | Some al \<Rightarrow> seqG (modG (\<lambda>s. s\<lparr>restTokens := Some (AList.update user t al)\<rparr>)) (retG t))))"

section \<open>Sessions\<close>

definition httpDo ::
  "'w env \<Rightarrow> http_request \<Rightarrow> (('w, 'b) rest_scheme, http_result) go" where
  "httpDo env rq = (\<lambda>s. let (r, w) = envHttp env rq (world s) in (Done r, s\<lparr>world := w\<rparr>))"

definition createZfssaSession ::
  "'w env \<Rightarrow> nat \<Rightarrow> (('w, 'b) rest_scheme, gerror + string \<times> string) go" where
  "createZfssaSession env t =
     bindG (getG zServicesURL) (\<lambda>url.
     if \<not> envRequestOk env ''POST'' url
     then failG Internal ''Failure creating token''
     else
     bindG (derefG (\<lambda>s. restHeap s t)) (\<lambda>token.
     bindG (httpDo env (SessionRequest url (tokUser token) (tokPassword token))) (\<lambda>rsp. case rsp of
       DoError e \<Rightarrow>
         bindG (if str_contains e ''failed to verify certificate''
                then resetHttpTlsClient env else retG None) (\<lambda>_.
         failG Internal ''Failure creating token'')
     | Response code _ session name \<Rightarrow>
         if code \<noteq> StatusCreated then failG Internal ''Failure creating token''
         else retG (Inr (session, name)))))"

text \<open>
  \<open>getToken\<close>: the loop over the state of the token.  Alone, a request finds a token being
  created only when a creation was interrupted, and would wait for ever.  The fuel bounds
  the loop; \<open>getToken_enough\<close> shows that two rounds always suffice.
\<close>

fun getToken_loop ::
  "'w env \<Rightarrow> nat \<Rightarrow> nat \<Rightarrow> string option \<Rightarrow> (('w, 'b) rest_scheme, gerror + string) go" where
  "getToken_loop env 0 t previous = deadlockG"
| "getToken_loop env (Suc fuel) t previous =
     bindG (derefG (\<lambda>s. restHeap s t)) (\<lambda>token. case tokState token of
       zfssaTokenInvalid \<Rightarrow>
         seqG (modToken t (\<lambda>k. k\<lparr>tokState := zfssaTokenCreating\<rparr>))
         (bindG (createZfssaSession env t) (\<lambda>r. case r of
            Inl err \<Rightarrow>
              seqG (modToken t (\<lambda>k. k\<lparr>tokXAuthSession := [], tokXAuthName := [],
                                    tokState := zfssaTokenInvalid\<rparr>))
              (retG (Inl err))
          | Inr (session, name) \<Rightarrow>
              seqG (modToken t (\<lambda>k. k\<lparr>tokXAuthSession := session, tokXAuthName := name,
                                    tokState := zfssaTokenValid\<rparr>))
              (retG (Inr session))))
     | zfssaTokenCreating \<Rightarrow> deadlockG
     | zfssaTokenValid \<Rightarrow>
         if previous \<noteq> Some (tokXAuthSession token)
         then retG (Inr (tokXAuthSession token))
         else seqG (modToken t (\<lambda>k. k\<lparr>tokState := zfssaTokenInvalid\<rparr>))
              (getToken_loop env fuel t previous))"

definition getToken ::
  "'w env \<Rightarrow> nat \<Rightarrow> string option \<Rightarrow> (('w, 'b) rest_scheme, gerror + string) go" where
  "getToken env t previous = getToken_loop env 2 t previous"

section \<open>Requests\<close>

text \<open>
  The response body variable of the caller is an argument, its zero value, and a result.
  A decoder is \<open>json.Unmarshal\<close> with the \<open>UnmarshalJSON\<close> method of the type, if it has
  one; it may fail, or panic, as the slicing of \<open>zfssaUnmarshalList\<close> can.
\<close>

datatype 'a decoded = Decoded 'a | DecodeError | DecodePanic string

definition makeRequest ::
  "'w env \<Rightarrow> nat \<Rightarrow> string \<Rightarrow> string \<Rightarrow> body \<Rightarrow> int \<Rightarrow> (string \<Rightarrow> 'a decoded) \<Rightarrow> 'a \<Rightarrow>
     (('w, 'b) rest_scheme, 'a \<times> int \<times> gerror option) go" where
  "makeRequest env t httpMethod url reqbody status decode rspbody =
     bindG (getToken env t None) (\<lambda>tk. case tk of
       Inl err \<Rightarrow> retG (rspbody, 0, Some err)
     | Inr xAuthSession \<Rightarrow>
     if \<not> envRequestOk env httpMethod url
     then retG (rspbody, 0, Some (GStatus UnknownCode ''http.NewRequest call failed''))
     else
     bindG (httpDo env (ApiRequest httpMethod url xAuthSession reqbody)) (\<lambda>rsp. case rsp of
       DoError e \<Rightarrow>
         if str_contains e ''failed to verify certificate''
         then seqG (modToken t (\<lambda>k. k\<lparr>tokState := zfssaTokenInvalid\<rparr>))
              (bindG (resetHttpTlsClient env) (\<lambda>_.
               retG (rspbody, StatusUnauthorized, Some (GPlain e))))
         else retG (rspbody, 0, Some (GStatus UnknownCode ''client.do call failed''))
     | Response code content _ _ \<Rightarrow> (case content of
         None \<Rightarrow> retG (rspbody, code, Some (GStatus UnknownCode ''ioutil.ReadAll call failed''))
       | Some rspjson \<Rightarrow>
         if code = status
         then (case decode rspjson of
             Decoded v \<Rightarrow> retG (v, code, None)
           | DecodeError \<Rightarrow>
               retG (rspbody, code, Some (GStatus UnknownCode ''json.Unmarshal call failed''))
           | DecodePanic p \<Rightarrow> panicG p)
         else if code = StatusUnauthorized
         then bindG (getToken env t (Some xAuthSession)) (\<lambda>r. case r of
             Inl err \<Rightarrow> retG (rspbody, StatusUnauthorized, Some err)
           | Inr _ \<Rightarrow> retG (rspbody, StatusUnauthorized, None))
         else if code = StatusNotFound
         then retG (rspbody, code,
           Some (GStatus NotFound ''Resource not found on target appliance: %s''))
         else retG (rspbody, code,
           Some (GStatus UnknownCode ''Unknown Error Occurred on target appliance: %s'')))))"

definition MakeRequest ::
  "'w env \<Rightarrow> nat \<Rightarrow> string \<Rightarrow> string \<Rightarrow> body \<Rightarrow> int \<Rightarrow> (string \<Rightarrow> 'a decoded) \<Rightarrow> 'a \<Rightarrow>
     (('w, 'b) rest_scheme, 'a \<times> int \<times> gerror option) go" where
  "MakeRequest env t httpMethod url reqbody status decode rspbody =
     bindG (makeRequest env t httpMethod url reqbody status decode rspbody) (\<lambda>(v, code, err).
     if code = StatusUnauthorized \<and> err = None
     then makeRequest env t httpMethod url reqbody status decode rspbody
     else retG (v, code, err))"

text \<open>
  \<open>zfssaUnmarshalList\<close>: drops the last byte and everything before the first opening bracket
  after the first byte, then decodes what is left.
\<close>

fun from_bracket :: "string \<Rightarrow> string option" where
  "from_bracket [] = None"
| "from_bracket (c # cs) = (if c = CHR ''['' then Some (c # cs) else from_bracket cs)"

definition zfssaUnmarshalList :: "(string \<Rightarrow> 'a option) \<Rightarrow> string \<Rightarrow> 'a decoded" where
  "zfssaUnmarshalList decode b =
     (if b = [] then DecodePanic ''slice bounds out of range''
      else let b' = butlast b;
               l = (case from_bracket (tl b') of None \<Rightarrow> b' | Some l \<Rightarrow> l) in
        case decode l of None \<Rightarrow> DecodeError | Some v \<Rightarrow> Decoded v)"

text \<open>\<open>json.Unmarshal\<close> into a list type: its \<open>UnmarshalJSON\<close> method gets the value.\<close>

definition unmarshalListType ::
  "'w env \<Rightarrow> (string \<Rightarrow> 'a option) \<Rightarrow> string \<Rightarrow> 'a decoded" where
  "unmarshalListType env decode b = (case envJsonValue env b of
     None \<Rightarrow> DecodeError | Some v \<Rightarrow> zfssaUnmarshalList decode v)"

text \<open>The other types decode directly; with a nil body nothing is decoded.\<close>

definition unmarshal :: "(string \<Rightarrow> 'a option) \<Rightarrow> string \<Rightarrow> 'a decoded" where
  "unmarshal decode b = (case decode b of None \<Rightarrow> DecodeError | Some v \<Rightarrow> Decoded v)"

definition noBody :: "string \<Rightarrow> unit decoded" where
  "noBody b = Decoded ()"

definition GetServices :: "'w env \<Rightarrow> nat \<Rightarrow> (('w, 'b) rest_scheme, gerror + Service list) go" where
  "GetServices env t =
     bindG (getG zServicesURL) (\<lambda>url.
     bindG (MakeRequest env t ''GET'' url NoBody StatusOK
              (unmarshalListType env (decServiceList env)) []) (\<lambda>(v, code, err).
     case err of Some e \<Rightarrow> retG (Inl e) | None \<Rightarrow> retG (Inr v)))"

section \<open>What requests change\<close>

text \<open>
  Between requests no token is being created.  \<open>rest_op\<close> is what every operation of the
  package promises its callers: it changes the state of the package only, and from a state
  with settled tokens it never waits for ever and leaves the tokens settled.
\<close>

definition tokens_settled :: "('w, 'b) rest_scheme \<Rightarrow> bool" where
  "tokens_settled s \<longleftrightarrow> (\<forall>t k. restHeap s t = Some k \<longrightarrow> tokState k \<noteq> zfssaTokenCreating)"

definition rest_op :: "(('w, 'b) rest_scheme, 'a) go \<Rightarrow> bool" where
  "rest_op m \<longleftrightarrow> keeps (same rest.more) m \<and> triple True tokens_settled m (\<lambda>_. tokens_settled)"

named_theorems rest_ops \<open>operations of the REST package and their composition\<close>

lemma rest_op_frame: "rest_op m \<Longrightarrow> keeps (same rest.more) m"
  by (simp add: rest_op_def)

lemma rest_op_more: "rest_op m \<Longrightarrow> m s = (r, s') \<Longrightarrow> rest.more s' = rest.more s"
  by (auto simp: rest_op_def same_def dest: keepsD)

lemma rest_op_retG [rest_ops]: "rest_op (retG x)"
  by (simp add: rest_op_def same_frame.keeps_retG triple_def)

lemma rest_op_panicG [rest_ops]: "rest_op (panicG p)"
  by (simp add: rest_op_def same_frame.keeps_panicG triple_def)

lemma rest_op_getG [rest_ops]: "rest_op (getG f)"
  by (simp add: rest_op_def same_frame.keeps_getG triple_def)

lemma rest_op_bindG [rest_ops]: "rest_op m \<Longrightarrow> (\<And>x. rest_op (f x)) \<Longrightarrow> rest_op (bindG m f)"
  unfolding rest_op_def by (meson same_frame.keeps_bindG triple_bindG)

lemma rest_op_seqG [rest_ops]: "rest_op m \<Longrightarrow> rest_op k \<Longrightarrow> rest_op (seqG m k)"
  unfolding seqG_def by (rule rest_op_bindG)

lemma rest_op_tryG [rest_ops]: "rest_op m \<Longrightarrow> (\<And>x. rest_op (f x)) \<Longrightarrow> rest_op (tryG m f)"
  unfolding tryG_def by (rule rest_op_bindG) (auto intro: rest_op_retG split: sum.split)

lemma rest_op_if [rest_ops]: "rest_op m \<Longrightarrow> rest_op k \<Longrightarrow> rest_op (if b then m else k)"
  by simp

lemma rest_op_option [rest_ops]:
  "rest_op m \<Longrightarrow> (\<And>x. rest_op (f x)) \<Longrightarrow> rest_op (case r of None \<Rightarrow> m | Some x \<Rightarrow> f x)"
  by (cases r) simp_all

lemma rest_op_derefG [rest_ops]: "rest_op (derefG f)"
  unfolding derefG_def by (intro rest_ops)

lemma rest_op_sum [rest_ops]:
  "(\<And>e. rest_op (f e)) \<Longrightarrow> (\<And>x. rest_op (g x)) \<Longrightarrow> rest_op (case r of Inl e \<Rightarrow> f e | Inr x \<Rightarrow> g x)"
  by (cases r) simp_all

lemma rest_op_prod [rest_ops]: "(\<And>x y. rest_op (f x y)) \<Longrightarrow> rest_op (case r of (x, y) \<Rightarrow> f x y)"
  by (cases r) simp

lemma rest_op_result [rest_ops]:
  "(\<And>e. rest_op (f e)) \<Longrightarrow> (\<And>c b x n. rest_op (g c b x n)) \<Longrightarrow>
     rest_op (case r of DoError e \<Rightarrow> f e | Response c b x n \<Rightarrow> g c b x n)"
  by (cases r) simp_all

lemma keeps_result:
  "(\<And>e. keeps R (f e)) \<Longrightarrow> (\<And>c b x n. keeps R (g c b x n)) \<Longrightarrow>
     keeps R (case r of DoError e \<Rightarrow> f e | Response c b x n \<Rightarrow> g c b x n)"
  by (cases r) simp_all

lemma rest_op_decoded [rest_ops]:
  "(\<And>v. rest_op (f v)) \<Longrightarrow> rest_op m \<Longrightarrow> (\<And>p. rest_op (g p)) \<Longrightarrow>
     rest_op (case r of Decoded v \<Rightarrow> f v | DecodeError \<Rightarrow> m | DecodePanic p \<Rightarrow> g p)"
  by (cases r) simp_all

lemma rest_op_http [rest_ops]: "rest_op (httpDo env rq)"
  by (simp add: rest_op_def httpDo_def keeps_def same_def triple_def tokens_settled_def
      split: prod.split)

lemma rest_op_reset [rest_ops]: "rest_op (resetHttpTlsClient env)"
  by (simp add: rest_op_def resetHttpTlsClient_def go_defs keeps_def same_def triple_def
      tokens_settled_def split: option.split)

lemma rest_op_modToken [rest_ops]:
  "(\<And>k. tokState k \<noteq> zfssaTokenCreating \<Longrightarrow> tokState (f k) \<noteq> zfssaTokenCreating) \<Longrightarrow>
     rest_op (modToken t f)"
  by (auto simp: rest_op_def keeps_def same_def triple_def tokens_settled_def)

lemma rest_op_LookUpToken [rest_ops]: "rest_op (LookUpToken user password)"
  by (auto simp: rest_op_def LookUpToken_def go_defs keeps_def same_def triple_def
      tokens_settled_def split: option.split prod.split)

lemma rest_op_createZfssaSession [rest_ops]: "rest_op (createZfssaSession env t)"
  unfolding createZfssaSession_def by (intro rest_ops)

text \<open>Creating a session does not touch the tokens.\<close>

lemma createZfssaSession_heap: "keeps (same restHeap) (createZfssaSession env t)"
proof -
  have http: "keeps (same restHeap) (httpDo env rq)" for rq
    by (simp add: httpDo_def keeps_def same_def split: prod.split)
  have reset: "keeps (same restHeap) (resetHttpTlsClient env)"
    unfolding resetHttpTlsClient_def
    by (intro same_frame.keeps_rules same_frame.keeps_modG) (simp add: same_def)
  show ?thesis
    unfolding createZfssaSession_def
    by (intro same_frame.keeps_rules http reset keeps_result)
qed

section \<open>Tokens\<close>

lemma getToken_None [simp]:
  "restHeap s t = None \<Longrightarrow> getToken_loop env (Suc n) t previous s = (Panic ''nil pointer dereference'', s)"
  by simp

text \<open>A second round of the loop is needed only for a token found expired, never a third.\<close>

lemma getToken_invalid:
  assumes "restHeap s t = Some k" "tokState k = zfssaTokenInvalid"
  shows "getToken_loop env (Suc n) t previous s = getToken_loop env (Suc 0) t previous' s"
  using assms by simp

lemma getToken_enough:
  "getToken_loop env (Suc (Suc n)) t previous s = getToken env t previous s"
proof (cases "restHeap s t")
  case None
  then show ?thesis by (simp add: getToken_def numeral_2_eq_2)
next
  case (Some k)
  show ?thesis
  proof (cases "tokState k")
    case zfssaTokenValid
    let ?s = "s\<lparr>restHeap := (restHeap s)(t := Some (k\<lparr>tokState := zfssaTokenInvalid\<rparr>))\<rparr>"
    have "getToken_loop env (Suc n) t previous ?s = getToken_loop env (Suc 0) t previous ?s"
      by (rule getToken_invalid [where k = "k\<lparr>tokState := zfssaTokenInvalid\<rparr>"]) simp_all
    with Some zfssaTokenValid show ?thesis
      by (cases "previous = Some (tokXAuthSession k)")
        (simp_all add: getToken_def numeral_2_eq_2 del: getToken_loop.simps
          add: getToken_loop.simps(2) [of env "Suc _"])
  qed (use Some in \<open>simp_all add: getToken_def numeral_2_eq_2\<close>)
qed

text \<open>Alone, a request never finds a token in creation, and leaves it valid or invalid.\<close>

lemma createZfssaSession_no_deadlock:
  "triple True (\<lambda>_. True) (createZfssaSession env t) (\<lambda>_ _. True)"
  by (simp add: triple_def createZfssaSession_def resetHttpTlsClient_def httpDo_def go_defs
      split: option.split http_result.split prod.split)

lemma getToken_create:
  assumes "restHeap s t = Some k" "tokState k = zfssaTokenInvalid" "tokens_settled s"
    "getToken_loop env (Suc n) t previous s = (r, s')"
  shows "rest.more s' = rest.more s" "r \<noteq> Deadlock" "\<And>x. r = Done x \<Longrightarrow> tokens_settled s'"
    "\<And>e. r = Done (Inl e) \<Longrightarrow> \<exists>k'. restHeap s' t = Some k' \<and> tokState k' = zfssaTokenInvalid"
    "\<And>x. r = Done (Inr x) \<Longrightarrow> \<exists>k'. restHeap s' t = Some k' \<and> tokState k' = zfssaTokenValid
       \<and> tokXAuthSession k' = x"
proof -
  define s1 where "s1 = s\<lparr>restHeap := (restHeap s)(t \<mapsto> k\<lparr>tokState := zfssaTokenCreating\<rparr>)\<rparr>"
  obtain r2 s2 where c: "createZfssaSession env t s1 = (r2, s2)"
    by (cases "createZfssaSession env t s1")
  have heap: "restHeap s2 = restHeap s1"
    using keepsD [OF createZfssaSession_heap c] by (simp add: same_def)
  have more: "rest.more s2 = rest.more s"
    using rest_op_more [OF rest_op_createZfssaSession c] by (simp add: s1_def)
  have nd: "r2 \<noteq> Deadlock"
    using triple_no_deadlock [OF createZfssaSession_no_deadlock TrueI] c by (metis fst_conv)
  have run: "bindG (createZfssaSession env t) (\<lambda>r. case r of
        Inl err \<Rightarrow> seqG (modToken t (\<lambda>k. k\<lparr>tokXAuthSession := [], tokXAuthName := [],
                                    tokState := zfssaTokenInvalid\<rparr>)) (retG (Inl err))
      | Inr (session, name) \<Rightarrow> seqG (modToken t (\<lambda>k. k\<lparr>tokXAuthSession := session,
            tokXAuthName := name, tokState := zfssaTokenValid\<rparr>)) (retG (Inr session))) s1 = (r, s')"
    using assms(1,2,4) by (simp add: s1_def)
  have t: "restHeap s2 t = Some (k\<lparr>tokState := zfssaTokenCreating\<rparr>)"
    by (simp add: heap s1_def)
  have others: "u \<noteq> t \<Longrightarrow> restHeap s2 u = restHeap s u" for u
    by (simp add: heap s1_def)
  show "rest.more s' = rest.more s" "r \<noteq> Deadlock" "\<And>x. r = Done x \<Longrightarrow> tokens_settled s'"
    "\<And>e. r = Done (Inl e) \<Longrightarrow> \<exists>k'. restHeap s' t = Some k' \<and> tokState k' = zfssaTokenInvalid"
    "\<And>x. r = Done (Inr x) \<Longrightarrow> \<exists>k'. restHeap s' t = Some k' \<and> tokState k' = zfssaTokenValid
       \<and> tokXAuthSession k' = x"
    using run c t others more nd assms(3)
    by (cases r2; auto simp: tokens_settled_def split: sum.splits prod.splits if_splits)+
qed

text \<open>The same for \<open>getToken\<close>, in any state of the token.\<close>

lemma getToken_run:
  assumes "tokens_settled s" "getToken env t previous s = (r, s')"
  shows "rest.more s' = rest.more s" "r \<noteq> Deadlock" "\<And>x. r = Done x \<Longrightarrow> tokens_settled s'"
    "\<And>e. r = Done (Inl e) \<Longrightarrow> \<exists>k. restHeap s' t = Some k \<and> tokState k = zfssaTokenInvalid"
    "\<And>x. r = Done (Inr x) \<Longrightarrow> \<exists>k. restHeap s' t = Some k \<and> tokState k = zfssaTokenValid
       \<and> tokXAuthSession k = x"
proof -
  have run: "getToken_loop env (Suc (Suc 0)) t previous s = (r, s')"
    using assms(2) by (simp add: getToken_def numeral_2_eq_2)
  have "rest.more s' = rest.more s \<and> r \<noteq> Deadlock \<and> (\<forall>x. r = Done x \<longrightarrow> tokens_settled s') \<and>
      (\<forall>e. r = Done (Inl e) \<longrightarrow> (\<exists>k. restHeap s' t = Some k \<and> tokState k = zfssaTokenInvalid)) \<and>
      (\<forall>x. r = Done (Inr x) \<longrightarrow> (\<exists>k. restHeap s' t = Some k \<and> tokState k = zfssaTokenValid
         \<and> tokXAuthSession k = x))"
  proof (cases "restHeap s t")
    case None
    then show ?thesis using run assms(1) by auto
  next
    case (Some k)
    show ?thesis
    proof (cases "tokState k")
      case zfssaTokenInvalid
      show ?thesis using getToken_create [OF Some zfssaTokenInvalid assms(1) run] by blast
    next
      case zfssaTokenCreating
      then show ?thesis using Some assms(1) by (auto simp: tokens_settled_def)
    next
      case zfssaTokenValid
      let ?s = "s\<lparr>restHeap := (restHeap s)(t := Some (k\<lparr>tokState := zfssaTokenInvalid\<rparr>))\<rparr>"
      show ?thesis
      proof (cases "previous = Some (tokXAuthSession k)")
        case True
        have run': "getToken_loop env (Suc 0) t previous ?s = (r, s')"
          using run Some zfssaTokenValid True by (simp del: getToken_loop.simps
            add: getToken_loop.simps(2) [of env "Suc _"])
        have "tokens_settled ?s" using assms(1) by (simp add: tokens_settled_def)
        from getToken_create [OF _ _ this run', where k = "k\<lparr>tokState := zfssaTokenInvalid\<rparr>"]
        show ?thesis by simp
      next
        case False
        then show ?thesis using run Some zfssaTokenValid assms(1) by auto
      qed
    qed
  qed
  then show "rest.more s' = rest.more s" "r \<noteq> Deadlock" "\<And>x. r = Done x \<Longrightarrow> tokens_settled s'"
    "\<And>e. r = Done (Inl e) \<Longrightarrow> \<exists>k. restHeap s' t = Some k \<and> tokState k = zfssaTokenInvalid"
    "\<And>x. r = Done (Inr x) \<Longrightarrow> \<exists>k. restHeap s' t = Some k \<and> tokState k = zfssaTokenValid
       \<and> tokXAuthSession k = x"
    by blast+
qed

lemma keeps_token_state:
  "keeps R m \<Longrightarrow> keeps R k \<Longrightarrow> keeps R l \<Longrightarrow>
     keeps R (case ts of zfssaTokenInvalid \<Rightarrow> m | zfssaTokenCreating \<Rightarrow> k | zfssaTokenValid \<Rightarrow> l)"
  by (cases ts) simp_all

lemma getToken_loop_frame: "keeps (same rest.more) (getToken_loop env n t previous)"
proof (induction n)
  case 0
  show ?case unfolding getToken_loop.simps by (rule same_frame.keeps_deadlockG)
next
  case (Suc n)
  show ?case
    unfolding getToken_loop.simps
    by (intro same_frame.keeps_rules keeps_token_state same_frame.keeps_modG Suc
        rest_op_frame [OF rest_op_createZfssaSession])
      (simp_all add: same_def [abs_def])
qed

lemma rest_op_getToken [rest_ops]: "rest_op (getToken env t previous)"
  unfolding rest_op_def
proof
  show "keeps (same rest.more) (getToken env t previous)"
    unfolding getToken_def by (rule getToken_loop_frame)
  show "triple True tokens_settled (getToken env t previous) (\<lambda>_. tokens_settled)"
  proof (rule tripleI, goal_cases)
    case s: (1 s)
    obtain r s' where r: "getToken env t previous s = (r, s')" by (cases "getToken env t previous s")
    show ?case
      using r getToken_run(2,3) [OF s r] by (cases r) auto
  qed
qed

lemma rest_op_makeRequest [rest_ops]:
  "rest_op (makeRequest env t httpMethod url reqbody status decode rspbody)"
  unfolding makeRequest_def by (intro rest_ops) simp

lemma rest_op_MakeRequest [rest_ops]:
  "rest_op (MakeRequest env t httpMethod url reqbody status decode rspbody)"
  unfolding MakeRequest_def by (intro rest_ops)

lemma rest_op_GetServices [rest_ops]: "rest_op (GetServices env t)"
  unfolding GetServices_def by (intro rest_ops)

section \<open>The result of a request\<close>

text \<open>What a nil error of \<open>makeRequest\<close> says about the code and the response body.\<close>

definition good_answer :: "int \<Rightarrow> (string \<Rightarrow> 'a decoded) \<Rightarrow> 'a \<Rightarrow> 'a \<Rightarrow> int \<Rightarrow> bool" where
  "good_answer status decode rspbody v code \<longleftrightarrow>
     code = status \<and> (\<exists>b. decode b = Decoded v) \<or> code = StatusUnauthorized \<and> v = rspbody"

lemma rest_op_then:
  assumes "rest_op m" "\<And>x. triple True tokens_settled (f x) Q"
  shows "triple True tokens_settled (bindG m f) Q"
  using assms unfolding rest_op_def by (meson triple_bindG)

lemma triple_result:
  "(\<And>e. triple p P (f e) Q) \<Longrightarrow> (\<And>c b x n. triple p P (g c b x n) Q) \<Longrightarrow>
     triple p P (case r of DoError e \<Rightarrow> f e | Response c b x n \<Rightarrow> g c b x n) Q"
  by (cases r) simp_all

lemma triple_decoded:
  "(\<And>v. r = Decoded v \<Longrightarrow> triple p P (f v) Q) \<Longrightarrow> triple p P m Q \<Longrightarrow> (\<And>e. triple p P (g e) Q) \<Longrightarrow>
     triple p P (case r of Decoded v \<Rightarrow> f v | DecodeError \<Rightarrow> m | DecodePanic e \<Rightarrow> g e) Q"
  by (cases r) simp_all

lemma makeRequest_answer:
  "triple True tokens_settled (makeRequest env t httpMethod url reqbody status decode rspbody)
     (\<lambda>(v, code, err) s. tokens_settled s \<and> (err = None \<longrightarrow> good_answer status decode rspbody v code))"
  unfolding makeRequest_def seqG_def
  by (intro rest_op_then rest_ops triple_if triple_option triple_sum triple_result triple_decoded
      triple_panicG triple_retG_weak) (auto simp: good_answer_def)

lemma MakeRequest_answer:
  "triple True tokens_settled (MakeRequest env t httpMethod url reqbody status decode rspbody)
     (\<lambda>(v, code, err) s. tokens_settled s \<and> (err = None \<longrightarrow> good_answer status decode rspbody v code))"
  unfolding MakeRequest_def
  by (rule triple_bindG [OF makeRequest_answer], intro triple_prod triple_if triple_retG_weak)
    (auto intro: triple_weaken_pre [OF makeRequest_answer])

section \<open>The number of requests\<close>

text \<open>
  \<open>counts env f a b\<close>: \<open>f\<close> is a meter in the world, which every API request advances by
  \<open>a\<close> and every session request by \<open>b\<close>.  \<open>costs f n m\<close>: \<open>m\<close> advances it by at most \<open>n\<close>.
\<close>

fun is_api :: "http_request \<Rightarrow> bool" where
  "is_api (ApiRequest _ _ _ _) = True"
| "is_api (SessionRequest _ _ _) = False"

definition counts :: "'w env \<Rightarrow> ('w \<Rightarrow> nat) \<Rightarrow> nat \<Rightarrow> nat \<Rightarrow> bool" where
  "counts env f a b \<longleftrightarrow>
     (\<forall>rq w. f (snd (envHttp env rq w)) = f w + (if is_api rq then a else b))"

definition costs :: "('w \<Rightarrow> nat) \<Rightarrow> nat \<Rightarrow> (('w, 'b) rest_scheme, 'a) go \<Rightarrow> bool" where
  "costs f n m \<longleftrightarrow> (\<forall>s. f (world (snd (m s))) \<le> f (world s) + n)"

lemma costs_mono: "costs f n m \<Longrightarrow> n \<le> k \<Longrightarrow> costs f k m"
  by (fastforce simp: costs_def intro: le_trans)

lemma costs_const: "costs f n (retG x)" "costs f n (panicG p)" "costs f n deadlockG"
    "costs f n (getG g)" "costs f n (derefG h)"
    "costs f n (modToken t u)"
  by (simp_all add: costs_def derefG_def bindG_def getG_def split: option.split)

lemma costs_bindG:
  assumes "costs f i m" "\<And>x. costs f j (k x)"
  shows "costs f (i + j) (bindG m k)"
  unfolding costs_def
proof
  fix s
  obtain r s' where m: "m s = (r, s')" by (cases "m s")
  then have 1: "f (world s') \<le> f (world s) + i"
    using assms(1) by (metis costs_def snd_conv)
  show "f (world (snd (bindG m k s))) \<le> f (world s) + (i + j)"
  proof (cases r)
    case (Done x)
    have "f (world (snd (k x s'))) \<le> f (world s') + j"
      using assms(2) by (simp add: costs_def)
    with 1 m Done show ?thesis by simp
  qed (use 1 m in simp_all)
qed

lemma costs_first:
  "costs f 0 m \<Longrightarrow> (\<And>x. costs f n (k x)) \<Longrightarrow> costs f n (bindG m k)"
  "costs f 0 m \<Longrightarrow> costs f n k' \<Longrightarrow> costs f n (seqG m k')"
  unfolding seqG_def using costs_bindG [of f 0 m n] by fastforce+

lemma costs_last: "costs f n m \<Longrightarrow> (\<And>x. costs f 0 (k x)) \<Longrightarrow> costs f n (bindG m k)"
  using costs_bindG [of f n m 0 k] by simp

lemma costs_cases:
  "costs f n m \<Longrightarrow> costs f n k \<Longrightarrow> costs f n (if c then m else k)"
  "costs f n m \<Longrightarrow> (\<And>x. costs f n (g x)) \<Longrightarrow> costs f n (case q of None \<Rightarrow> m | Some x \<Rightarrow> g x)"
  "(\<And>e. costs f n (h e)) \<Longrightarrow> (\<And>x. costs f n (g' x)) \<Longrightarrow>
     costs f n (case r of Inl e \<Rightarrow> h e | Inr x \<Rightarrow> g' x)"
  "(\<And>x y. costs f n (l x y)) \<Longrightarrow> costs f n (case z of (x, y) \<Rightarrow> l x y)"
  by (simp_all split: option.split sum.split prod.split)

lemma costs_response_cases:
  "(\<And>e. costs f n (g e)) \<Longrightarrow> (\<And>c b x m. costs f n (h c b x m)) \<Longrightarrow>
     costs f n (case r of DoError e \<Rightarrow> g e | Response c b x m \<Rightarrow> h c b x m)"
  "(\<And>v. costs f n (l v)) \<Longrightarrow> costs f n m \<Longrightarrow> (\<And>p. costs f n (q p)) \<Longrightarrow>
     costs f n (case d of Decoded v \<Rightarrow> l v | DecodeError \<Rightarrow> m | DecodePanic p \<Rightarrow> q p)"
  "costs f n m1 \<Longrightarrow> costs f n m2 \<Longrightarrow> costs f n m3 \<Longrightarrow>
     costs f n (case ts of zfssaTokenInvalid \<Rightarrow> m1 | zfssaTokenCreating \<Rightarrow> m2 | zfssaTokenValid \<Rightarrow> m3)"
  by (simp_all split: http_result.split decoded.split token_state.split)

lemma costs_reset: "costs f n (resetHttpTlsClient env)"
  by (simp add: costs_def resetHttpTlsClient_def go_defs split: option.split)

lemmas costs_rules = costs_const costs_cases costs_response_cases costs_reset

lemma costs_httpDo:
  "counts env f a b \<Longrightarrow> costs f (if is_api rq then a else b) (httpDo env rq)"
  by (auto simp: counts_def costs_def httpDo_def split: prod.split) (metis eq_imp_le snd_conv)+

lemma costs_session: "counts env f a b \<Longrightarrow> costs f b (httpDo env (SessionRequest u n p))"
  using costs_httpDo [of env f a b "SessionRequest u n p"] by simp

lemma costs_api: "counts env f a b \<Longrightarrow> costs f a (httpDo env (ApiRequest m u x r))"
  using costs_httpDo [of env f a b "ApiRequest m u x r"] by simp

lemma costs_createZfssaSession: "counts env f a b \<Longrightarrow> costs f b (createZfssaSession env t)"
  unfolding createZfssaSession_def
  by (rule costs_first, rule costs_rules, intro costs_rules, rule costs_first, rule costs_rules,
      rule costs_last, erule costs_session)
    (intro costs_rules costs_first)

lemma costs_getToken:
  assumes "counts env f a b"
  shows "costs f b (getToken env t previous)"
proof -
  have "costs f b (getToken_loop env n t previous)" for n
  proof (induction n)
    case 0
    show ?case unfolding getToken_loop.simps by (rule costs_rules)
  next
    case (Suc n)
    have create: "costs f b (seqG (modToken t g) (bindG (createZfssaSession env t) (\<lambda>r. case r of
        Inl e \<Rightarrow> seqG (modToken t (h e)) (retG (Inl e))
      | Inr (x, y) \<Rightarrow> seqG (modToken t (l x y)) (retG (Inr x)))))" for g h l
      by (rule costs_first, rule costs_const, rule costs_last [OF costs_createZfssaSession [OF assms]],
          intro costs_rules costs_first)
    show ?case
      unfolding getToken_loop.simps
      by (rule costs_first, rule costs_rules, intro costs_rules create costs_first(2) Suc)
  qed
  then show ?thesis by (simp only: getToken_def)
qed

lemma costs_makeRequest:
  assumes "counts env f a b"
  shows "costs f (b + (a + b)) (makeRequest env t httpMethod url reqbody status decode rspbody)"
proof -
  have renew: "costs f b (bindG (getToken env t previous) (\<lambda>r. case r of
      Inl err \<Rightarrow> retG (g err) | Inr x \<Rightarrow> retG (h x)))" for previous g h
    by (rule costs_last [OF costs_getToken [OF assms]], intro costs_rules)
  have reset: "costs f b (seqG (modToken t g) (bindG (resetHttpTlsClient env) (\<lambda>_. retG z)))" for g z
    by (intro costs_rules costs_first)
  show ?thesis
    unfolding makeRequest_def
    by (rule costs_bindG [OF costs_getToken [OF assms]], intro costs_rules,
        rule costs_bindG [OF costs_api [OF assms]], intro costs_rules renew reset)
qed

lemma costs_MakeRequest:
  assumes "counts env f a b"
  shows "costs f (2 * a + 4 * b) (MakeRequest env t httpMethod url reqbody status decode rspbody)"
proof -
  have "costs f ((b + (a + b)) + (b + (a + b)))
      (MakeRequest env t httpMethod url reqbody status decode rspbody)"
    unfolding MakeRequest_def
    by (rule costs_bindG [OF costs_makeRequest [OF assms]],
        intro costs_rules costs_makeRequest [OF assms])
  then show ?thesis by (rule costs_mono) simp
qed

end
