(* ===== verification/RestApi.thy ===== *)
theory RestApi
  imports Rest
begin

text \<open>
  The calls of \<open>pkg/zfssarest\<close>, one definition per function: filesystems
  (\<open>zfssa_fs.go\<close>), LUNs (\<open>zfssa_lun.go\<close>), pools, projects, target groups and snapshots.
  A result \<open>(T, int, error)\<close> is a pair of the HTTP status and a sum.  The lemmas show that
  each call is a \<open>rest_op\<close>, that the properties sent for a new filesystem do not depend on
  the order in which Go visits the parameters, and that the URLs of two shares with valid
  names differ.
\<close>

section \<open>Requests with one decoded answer\<close>

text \<open>
  Parameters of a request: an association list in the order in which a range loop visits
  the map.  A missing key reads as the empty string.
\<close>

type_synonym params = "(string \<times> string) list"

definition param :: "params \<Rightarrow> string \<Rightarrow> string" where
  "param ps k = (case map_of ps k of None \<Rightarrow> [] | Some v \<Rightarrow> v)"

text \<open>\<open>if err != nil { return nil, code, err }; return &rsp, code, nil\<close>\<close>

definition answer :: "'a \<times> int \<times> gerror option \<Rightarrow> int \<times> (gerror + 'a)" where
  "answer = (\<lambda>(v, code, err). (code, case err of Some e \<Rightarrow> Inl e | None \<Rightarrow> Inr v))"

text \<open>The answer of a DELETE: \<open>false\<close> for a success status other than 204.\<close>

definition deleted :: "unit \<times> int \<times> gerror option \<Rightarrow> int \<times> (gerror + bool)" where
  "deleted = (\<lambda>(_, code, err). (code, case err of
      Some e \<Rightarrow> Inl e
    | None \<Rightarrow> Inr (\<not> (code \<noteq> StatusNoContent \<and> 200 \<le> code \<and> code < 300))))"

text \<open>A request whose URL is a format applied to the appliance of the token and more.\<close>

definition request ::
  "'w env \<Rightarrow> nat \<Rightarrow> string \<Rightarrow> string \<Rightarrow> string list \<Rightarrow> body \<Rightarrow> int \<Rightarrow> (string \<Rightarrow> 'a decoded) \<Rightarrow> 'a \<Rightarrow>
     (('w, 'b) rest_scheme, 'a \<times> int \<times> gerror option) go" where
  "request env t httpMethod fmt args reqbody status decode rspbody =
     bindG (derefG (\<lambda>s. restHeap s t)) (\<lambda>token.
     MakeRequest env t httpMethod (Sprintf fmt (tokName token # args)) reqbody status decode rspbody)"

lemma rest_op_request [rest_ops]:
  "rest_op (request env t httpMethod fmt args reqbody status decode rspbody)"
  unfolding request_def by (intro rest_ops)

section \<open>Filesystems\<close>

definition yml2fsProperty :: "string \<Rightarrow> string option" where
  "yml2fsProperty = map_of [
     (''rootUser'', ''root_user''),
     (''rootGroup'', ''root_group''),
     (''rootPermissions'', ''root_permissions''),
     (''shareNFS'', ''sharenfs''),
     (''restrictChown'', ''rstchown'')]"

definition fs_property :: "string \<times> string \<Rightarrow> (string \<Rightarrow> jval option) \<Rightarrow> (string \<Rightarrow> jval option)" where
  "fs_property = (\<lambda>(key, param) fsReq. case yml2fsProperty key of
      None \<Rightarrow> fsReq
    | Some fsProp \<Rightarrow>
        if fsProp = ''rstchown''
        then fsReq(fsProp \<mapsto> JBool (case ParseBool param of None \<Rightarrow> True | Some val \<Rightarrow> val))
        else fsReq(fsProp \<mapsto> JStr param))"

definition buildFilesystemReq :: "string \<Rightarrow> int \<Rightarrow> params \<Rightarrow> (string \<Rightarrow> jval option)" where
  "buildFilesystemReq name volSize parameters =
     fold fs_property parameters
       [''name'' \<mapsto> JStr name, ''quota'' \<mapsto> JInt volSize, ''reservation'' \<mapsto> JInt volSize]"

definition CreateFilesystem ::
  "'w env \<Rightarrow> nat \<Rightarrow> string \<Rightarrow> int \<Rightarrow> params \<Rightarrow> (('w, 'b) rest_scheme, int \<times> (gerror + Filesystem)) go" where
  "CreateFilesystem env t fsname volSize parameters =
     bindG (request env t ''POST'' zFilesystems [param parameters ''pool'', param parameters ''project'']
       (Body (buildFilesystemReq fsname volSize parameters)) StatusCreated
       (unmarshal (decFilesystem env)) zero_Filesystem) (\<lambda>r. retG (answer r))"

definition GetFilesystem ::
  "'w env \<Rightarrow> nat \<Rightarrow> string \<Rightarrow> string \<Rightarrow> string \<Rightarrow>
     (('w, 'b) rest_scheme, int \<times> (gerror + Filesystem)) go" where
  "GetFilesystem env t pool project filesystem =
     bindG (request env t ''GET'' zFilesystem [pool, project, filesystem] NoBody StatusOK
       (unmarshal (decFilesystem env)) zero_Filesystem) (\<lambda>r. retG (answer r))"

definition ModifyFilesystem ::
  "'w env \<Rightarrow> nat \<Rightarrow> string \<Rightarrow> (string \<Rightarrow> jval option) \<Rightarrow>
     (('w, 'b) rest_scheme, int \<times> (gerror + Filesystem)) go" where
  "ModifyFilesystem env t href parameters =
     bindG (request env t ''PUT'' (zAppliance @ href) [] (Body parameters) StatusAccepted
       (unmarshal (decFilesystem env)) zero_Filesystem) (\<lambda>r. retG (answer r))"

definition DeleteFilesystem ::
  "'w env \<Rightarrow> nat \<Rightarrow> string \<Rightarrow> (('w, 'b) rest_scheme, int \<times> (gerror + bool)) go" where
  "DeleteFilesystem env t hRef =
     bindG (request env t ''DELETE'' (zAppliance @ hRef) [] NoBody StatusNoContent noBody ())
       (\<lambda>r. retG (deleted r))"

definition list_request ::
  "'w env \<Rightarrow> nat \<Rightarrow> string \<Rightarrow> string list \<Rightarrow> (string \<Rightarrow> 'a list option) \<Rightarrow>
     (('w, 'b) rest_scheme, gerror + 'a list) go" where
  "list_request env t fmt args decode =
     bindG (request env t ''GET'' fmt args NoBody StatusOK (unmarshalListType env decode) [])
       (\<lambda>r. retG (snd (answer r)))"

definition GetFilesystems ::
  "'w env \<Rightarrow> nat \<Rightarrow> string \<Rightarrow> string \<Rightarrow> (('w, 'b) rest_scheme, gerror + Filesystem list) go" where
  "GetFilesystems env t pool project =
     (if pool \<noteq> [] \<and> project \<noteq> []
      then list_request env t zFilesystems [pool, project] (decFilesystemList env)
      else if pool = [] \<and> project = []
      then list_request env t zAllFilesystems [] (decFilesystemList env)
      else failG InvalidArgument ''pool and project must be both nil or both not nil'')"

definition CloneFileSystemSnapshot ::
  "'w env \<Rightarrow> nat \<Rightarrow> string \<Rightarrow> (string \<Rightarrow> jval option) \<Rightarrow>
     (('w, 'b) rest_scheme, int \<times> (gerror + Filesystem)) go" where
  "CloneFileSystemSnapshot env t hRef parameters =
     bindG (request env t ''PUT'' (zAppliance @ hRef @ ''/clone'') [] (Body parameters) StatusCreated
       (unmarshal (decFilesystem env)) zero_Filesystem) (\<lambda>r. retG (answer r))"

section \<open>LUNs\<close>

definition DefaultBlockSize :: int where "DefaultBlockSize = 8192"
definition MaskAll :: string where "MaskAll = ''com.sun.ms.vss.hg.maskAll''"

definition CreateLUN ::
  "'w env \<Rightarrow> nat \<Rightarrow> string \<Rightarrow> int \<Rightarrow> params \<Rightarrow> (('w, 'b) rest_scheme, int \<times> (gerror + VolumeId \<times> Lun)) go" where
  "CreateLUN env t name volSize parameters =
     (let pool = param parameters ''pool''; project = param parameters ''project'';
          blockSize = (case Atoi (param parameters ''blockSize'') of
             None \<Rightarrow> DefaultBlockSize | Some b \<Rightarrow> b);
          reqBody = [''name'' \<mapsto> JStr name, ''volsize'' \<mapsto> JInt volSize,
             ''volblocksize'' \<mapsto> JInt blockSize,
             ''targetgroup'' \<mapsto> JStr (param parameters ''targetGroup''),
             ''sparse'' \<mapsto> JBool (param parameters ''volumeType'' = ''thin''),
             ''initiatorgroup'' \<mapsto> JStrs [MaskAll]] in
     bindG (derefG (\<lambda>s. restHeap s t)) (\<lambda>token.
     bindG (request env t ''POST'' zLUNs [pool, project] (Body reqBody) StatusCreated
       (unmarshal (decLun env)) zero_Lun) (\<lambda>r.
     retG (map_prod id (map_sum id
       (Pair (NewVolumeId BlockVolume (tokName token) pool project name))) (answer r)))))"

definition GetLun ::
  "'w env \<Rightarrow> nat \<Rightarrow> string \<Rightarrow> string \<Rightarrow> string \<Rightarrow> (('w, 'b) rest_scheme, int \<times> (gerror + Lun)) go" where
  "GetLun env t pool project lun =
     bindG (request env t ''GET'' zLUN [pool, project, lun] NoBody StatusOK
       (unmarshal (decLun env)) zero_Lun) (\<lambda>r. retG (answer r))"

definition GetLuns ::
  "'w env \<Rightarrow> nat \<Rightarrow> string \<Rightarrow> string \<Rightarrow> (('w, 'b) rest_scheme, gerror + Lun list) go" where
  "GetLuns env t pool project =
     (if pool \<noteq> [] \<and> project \<noteq> []
      then list_request env t zLUNs [pool, project] (decLunList env)
      else if pool = [] \<and> project = []
      then list_request env t zAllLUNs [] (decLunList env)
      else failG InvalidArgument ''pool and project must be both nil or both not nil'')"

definition DeleteLun ::
  "'w env \<Rightarrow> nat \<Rightarrow> string \<Rightarrow> string \<Rightarrow> string \<Rightarrow> (('w, 'b) rest_scheme, int \<times> (gerror + bool)) go" where
  "DeleteLun env t pool project lun =
     bindG (request env t ''DELETE'' zLUN [pool, project, lun] NoBody StatusNoContent noBody ())
       (\<lambda>r. retG (deleted r))"

definition GetInitiatorGroupList ::
  "'w env \<Rightarrow> nat \<Rightarrow> string \<Rightarrow> string \<Rightarrow> string \<Rightarrow> (('w, 'b) rest_scheme, gerror + string list) go" where
  "GetInitiatorGroupList env t pool project lun =
     bindG (request env t ''GET'' zLUN [pool, project, lun] NoBody StatusOK
       (unmarshal (decLun env)) zero_Lun) (\<lambda>r. retG (map_sum id lunInitiatorGroup (snd (answer r))))"

definition SetInitiatorGroupList ::
  "'w env \<Rightarrow> nat \<Rightarrow> string \<Rightarrow> string \<Rightarrow> string \<Rightarrow> string \<Rightarrow>
     (('w, 'b) rest_scheme, int \<times> gerror option) go" where
  "SetInitiatorGroupList env t pool project lun grp =
     bindG (request env t ''PUT'' zLUN [pool, project, lun]
       (Body [''initiatorgroup'' \<mapsto> JStrs [grp]]) StatusAccepted noBody ())
       (\<lambda>(_, code, err). retG (code, err))"

definition CloneLunSnapshot ::
  "'w env \<Rightarrow> nat \<Rightarrow> string \<Rightarrow> (string \<Rightarrow> jval option) \<Rightarrow>
     (('w, 'b) rest_scheme, int \<times> (gerror + Lun)) go" where
  "CloneLunSnapshot env t hRef parameters =
     bindG (request env t ''PUT'' (zAppliance @ hRef @ ''/clone'') [] (Body parameters) StatusCreated
       (unmarshal (decLun env)) zero_Lun) (\<lambda>r. retG (answer r))"

section \<open>Pools, projects and target groups\<close>

definition GetPool :: "'w env \<Rightarrow> nat \<Rightarrow> string \<Rightarrow> (('w, 'b) rest_scheme, gerror + Pool) go" where
  "GetPool env t name =
     bindG (request env t ''GET'' zPool [name] NoBody StatusOK (unmarshal (decPool env)) zero_Pool)
     (\<lambda>(json, httpstatus, err).
       if err = None \<and> httpstatus = StatusOK then retG (Inr json)
       else failG NotFound ''Pool not found'')"

definition GetPools :: "'w env \<Rightarrow> nat \<Rightarrow> (('w, 'b) rest_scheme, gerror + Pool list) go" where
  "GetPools env t = list_request env t zPools [] (decPoolList env)"

definition GetProject ::
  "'w env \<Rightarrow> nat \<Rightarrow> string \<Rightarrow> string \<Rightarrow> (('w, 'b) rest_scheme, gerror + Project) go" where
  "GetProject env t pool project =
     bindG (request env t ''GET'' zProject [pool, project] NoBody StatusOK
       (unmarshal (decProject env)) zero_Project) (\<lambda>r. retG (snd (answer r)))"

definition GetProjects ::
  "'w env \<Rightarrow> nat \<Rightarrow> string \<Rightarrow> (('w, 'b) rest_scheme, gerror + Project list) go" where
  "GetProjects env t pool =
     (if pool \<noteq> [] then list_request env t zProjects [pool] (decProjectList env)
      else list_request env t zAllProjects [] (decProjectList env))"

definition GetTargetGroup ::
  "'w env \<Rightarrow> nat \<Rightarrow> string \<Rightarrow> string \<Rightarrow> (('w, 'b) rest_scheme, gerror + TargetGroup) go" where
  "GetTargetGroup env t protocol groupName =
     bindG (request env t ''GET'' zTargetGroup [protocol, groupName] NoBody StatusOK
       (unmarshal (decTargetGroup env)) zero_TargetGroup) (\<lambda>r. retG (snd (answer r)))"

section \<open>Snapshots\<close>

definition rest_CreateSnapshot ::
  "'w env \<Rightarrow> nat \<Rightarrow> string \<Rightarrow> string \<Rightarrow> (('w, 'b) rest_scheme, int \<times> (gerror + Snapshot)) go" where
  "rest_CreateSnapshot env t href name =
     bindG (request env t ''POST'' (zAppliance @ href @ ''/snapshots'') []
       (Body [''name'' \<mapsto> JStr name]) StatusCreated
       (unmarshal (decSnapshot env)) zero_Snapshot) (\<lambda>r. retG (answer r))"

definition rest_DeleteSnapshot ::
  "'w env \<Rightarrow> nat \<Rightarrow> string \<Rightarrow> (('w, 'b) rest_scheme, int \<times> (gerror + bool)) go" where
  "rest_DeleteSnapshot env t href =
     bindG (request env t ''DELETE'' (zAppliance @ href) [] NoBody StatusNoContent noBody ())
       (\<lambda>r. retG (deleted r))"

definition GetSnapshot ::
  "'w env \<Rightarrow> nat \<Rightarrow> string \<Rightarrow> string \<Rightarrow> (('w, 'b) rest_scheme, int \<times> (gerror + Snapshot)) go" where
  "GetSnapshot env t href name =
     bindG (request env t ''GET'' (zAppliance @ href @ ''/snapshots/%s'') [name] NoBody StatusOK
       (unmarshal (decSnapshot env)) zero_Snapshot) (\<lambda>r. retG (answer r))"

definition GetSnapshots ::
  "'w env \<Rightarrow> nat \<Rightarrow> string \<Rightarrow> (('w, 'b) rest_scheme, gerror + Snapshot list) go" where
  "GetSnapshots env t href =
     (if href \<noteq> [] then list_request env t (zAppliance @ href @ ''/snapshots'') [] (decSnapshotList env)
      else list_request env t zAllSnapshots [] (decSnapshotList env))"

definition GetSnapshotDependents ::
  "'w env \<Rightarrow> nat \<Rightarrow> string \<Rightarrow> (('w, 'b) rest_scheme, gerror + Dependent list) go" where
  "GetSnapshotDependents env t href =
     list_request env t (zAppliance @ href @ ''/dependents'') [] (decDependentList env)"

section \<open>The frame of the calls\<close>

lemma rest_op_list_request [rest_ops]: "rest_op (list_request env t fmt args decode)"
  unfolding list_request_def by (intro rest_ops)

lemmas api_defs = CreateFilesystem_def GetFilesystem_def ModifyFilesystem_def DeleteFilesystem_def
  GetFilesystems_def CloneFileSystemSnapshot_def CreateLUN_def GetLun_def GetLuns_def DeleteLun_def
  GetInitiatorGroupList_def SetInitiatorGroupList_def CloneLunSnapshot_def GetPool_def GetPools_def
  GetProject_def GetProjects_def GetTargetGroup_def rest_CreateSnapshot_def rest_DeleteSnapshot_def
  GetSnapshot_def GetSnapshots_def GetSnapshotDependents_def Let_def

lemma rest_op_api [rest_ops]:
  "rest_op (CreateFilesystem env t n sz ps)" "rest_op (GetFilesystem env t p q n)"
  "rest_op (ModifyFilesystem env t h b)" "rest_op (DeleteFilesystem env t h)"
  "rest_op (GetFilesystems env t p q)" "rest_op (CloneFileSystemSnapshot env t h b)"
  "rest_op (CreateLUN env t n sz ps)" "rest_op (GetLun env t p q n)" "rest_op (GetLuns env t p q)"
  "rest_op (DeleteLun env t p q n)" "rest_op (GetInitiatorGroupList env t p q n)"
  "rest_op (SetInitiatorGroupList env t p q n g)" "rest_op (CloneLunSnapshot env t h b)"
  "rest_op (GetPool env t n)" "rest_op (GetPools env t)" "rest_op (GetProject env t p q)"
  "rest_op (GetProjects env t p)" "rest_op (GetTargetGroup env t p g)"
  "rest_op (rest_CreateSnapshot env t h n)" "rest_op (rest_DeleteSnapshot env t h)"
  "rest_op (GetSnapshot env t h n)" "rest_op (GetSnapshots env t h)"
  "rest_op (GetSnapshotDependents env t h)"
  unfolding api_defs by (intro rest_ops)+

section \<open>The properties of a new filesystem\<close>

text \<open>Which parameter a property of the filesystem comes from, and how it is sent.\<close>

definition fsProperty2yml :: "string \<Rightarrow> string option" where
  "fsProperty2yml = map_of [
     (''root_user'', ''rootUser''),
     (''root_group'', ''rootGroup''),
     (''root_permissions'', ''rootPermissions''),
     (''sharenfs'', ''shareNFS''),
     (''rstchown'', ''restrictChown'')]"

definition property_value :: "string \<Rightarrow> string \<Rightarrow> jval" where
  "property_value fsProp v =
     (if fsProp = ''rstchown'' then JBool (ParseBool v \<noteq> Some False) else JStr v)"

lemma yml2fsProperty_inverse: "yml2fsProperty key = Some fsProp \<longleftrightarrow> fsProperty2yml fsProp = Some key"
  by (auto simp: yml2fsProperty_def fsProperty2yml_def)

lemma fs_property_eq:
  "fs_property (key, v) m = (case yml2fsProperty key of None \<Rightarrow> m
     | Some fsProp \<Rightarrow> m(fsProp \<mapsto> property_value fsProp v))"
  by (auto simp: fs_property_def property_value_def split: option.split)

lemma fold_fs_property:
  "distinct (map fst ps) \<Longrightarrow> fold fs_property ps m fsProp = (case fsProperty2yml fsProp of
       None \<Rightarrow> m fsProp
     | Some key \<Rightarrow> (case map_of ps key of None \<Rightarrow> m fsProp | Some v \<Rightarrow> Some (property_value fsProp v)))"
proof (induction ps arbitrary: m)
  case (Cons kv ps)
  obtain k v where kv: "kv = (k, v)" by (cases kv)
  from Cons.prems kv have new: "map_of ps k = None"
    by (simp add: map_of_eq_None_iff)
  show ?case
    using Cons.IH [of "fs_property kv m"] Cons.prems new yml2fsProperty_inverse [of k fsProp]
    by (auto simp: kv fs_property_eq split: option.splits)
qed (simp split: option.split)

section \<open>The URL of a share\<close>

text \<open>\<open>kind\<close> is the collection: the two formats differ in it only.\<close>

definition share_url :: "string \<Rightarrow> string \<Rightarrow> string \<Rightarrow> string \<Rightarrow> string \<Rightarrow> string" where
  "share_url kind zfssa pool project name = ''https://'' @ zfssa @ '':215/api/storage/v2/pools/'' @
     pool @ ''/projects/'' @ project @ ''/'' @ kind @ ''/'' @ name"

lemma Sprintf_share:
  "Sprintf zFilesystem [z, p, q, n] = share_url ''filesystems'' z p q n"
  "Sprintf zLUN [z, p, q, n] = share_url ''luns'' z p q n"
  by (simp_all add: url_defs Sprintf.simps skip_flags_def is_digit_def share_url_def)

lemma share_url_inject:
  assumes "IsResourceNameValid p" "IsResourceNameValid p'" "IsResourceNameValid q"
    "IsResourceNameValid q'" "CHR ''/'' \<notin> set k" "CHR ''/'' \<notin> set k'"
  shows "share_url k z p q n = share_url k' z p' q' n' \<longleftrightarrow> p = p' \<and> q = q' \<and> k = k' \<and> n = n'"
  using assms(1,2,3,4) [THEN valid_name_no_sep] assms(5,6)
  by (simp add: share_url_def append_sep_eq [of "CHR ''/''"])

end
