(* ===== verification/Bolt.thy ===== *)
theory Bolt
  imports Prelude
begin

text \<open>
  \<open>pkg/utils/sync.go\<close>: the Bolt, a lock owned by a request context, built from a mutex and a
  condition variable.  First its effect on one request running alone (\<open>bolt_lock\<close>,
  \<open>bolt_unlock\<close>, used by the volume and snapshot objects), then the monitor itself as a
  step relation over any number of goroutines, one step per access to the mutex, the
  condition variable or the owner field.  The lemmas show mutual exclusion, that no wake-up
  is lost, that the wrong-owner panic is unreachable, and that the monitor refines an
  abstract lock; they hold for requests with a context, and mutual exclusion fails with the
  nil context.
\<close>

text \<open>A request context; \<open>None\<close> is the nil context.\<close>

type_synonym ctx = "nat option"

section \<open>One request running alone\<close>

text \<open>\<open>None\<close>: the caller waits for another request to unlock.\<close>

definition bolt_lock :: "ctx \<Rightarrow> ctx \<Rightarrow> ctx option" where
  "bolt_lock b c = (if b \<noteq> None then None else Some c)"

text \<open>\<open>None\<close>: the panic \<open>wrong owner unlocking fs\<close>.\<close>

definition bolt_unlock :: "ctx \<Rightarrow> ctx \<Rightarrow> ctx option" where
  "bolt_unlock b c = (if b \<noteq> c then None else Some None)"

lemma bolt_lock_free [simp]: "bolt_lock None c = Some c"
  by (simp add: bolt_lock_def)

lemma bolt_lock_held [simp]: "bolt_lock (Some k) c = None"
  by (simp add: bolt_lock_def)

lemma bolt_unlock_own [simp]: "bolt_unlock c c = Some None"
  by (simp add: bolt_unlock_def)

section \<open>The monitor\<close>

text \<open>Where a goroutine is inside \<open>Lock\<close> and \<open>Unlock\<close>.\<close>

datatype bpc =
    Out         \<comment> \<open>not using the bolt\<close>
  | LkEnter     \<comment> \<open>called \<open>Lock\<close>, wants the mutex\<close>
  | LkLoop      \<comment> \<open>holds the mutex, at the test of the loop\<close>
  | LkWait      \<comment> \<open>inside \<open>cv.Wait()\<close>\<close>
  | LkWoken     \<comment> \<open>signalled, wants the mutex back\<close>
  | LkRel       \<comment> \<open>owner set, about to release the mutex\<close>
  | Owner       \<comment> \<open>\<open>Lock\<close> has returned\<close>
  | UnEnter     \<comment> \<open>called \<open>Unlock\<close>, wants the mutex\<close>
  | UnTest      \<comment> \<open>holds the mutex, at the owner test\<close>
  | UnSig       \<comment> \<open>owner cleared, about to signal\<close>
  | UnRel       \<comment> \<open>signalled, about to release the mutex\<close>
  | Crashed     \<comment> \<open>panicked: wrong owner\<close>

record monitor =
  mutex :: "nat option"
  bolt_context :: ctx
  pcs :: "nat \<Rightarrow> bpc"

definition NewBolt :: monitor where
  "NewBolt = \<lparr>mutex = None, bolt_context = None, pcs = (\<lambda>_. Out)\<rparr>"

abbreviation goto :: "monitor \<Rightarrow> nat \<Rightarrow> bpc \<Rightarrow> monitor" where
  "goto m i p \<equiv> m\<lparr>pcs := (pcs m)(i := p)\<rparr>"

text \<open>\<open>bolt_step cx i m m'\<close>: goroutine \<open>i\<close>, whose context is \<open>cx i\<close>, makes one step.\<close>

inductive bolt_step :: "(nat \<Rightarrow> ctx) \<Rightarrow> nat \<Rightarrow> monitor \<Rightarrow> monitor \<Rightarrow> bool" for cx where
  call_lock: "pcs m i = Out \<Longrightarrow> bolt_step cx i m (goto m i LkEnter)"
| lk_mutex: "pcs m i = LkEnter \<Longrightarrow> mutex m = None \<Longrightarrow>
    bolt_step cx i m (goto (m\<lparr>mutex := Some i\<rparr>) i LkLoop)"
| lk_wait: "pcs m i = LkLoop \<Longrightarrow> bolt_context m \<noteq> None \<Longrightarrow>
    bolt_step cx i m (goto (m\<lparr>mutex := None\<rparr>) i LkWait)"
| lk_wake: "pcs m i = LkWoken \<Longrightarrow> mutex m = None \<Longrightarrow>
    bolt_step cx i m (goto (m\<lparr>mutex := Some i\<rparr>) i LkLoop)"
| lk_take: "pcs m i = LkLoop \<Longrightarrow> bolt_context m = None \<Longrightarrow>
    bolt_step cx i m (goto (m\<lparr>bolt_context := cx i\<rparr>) i LkRel)"
| lk_exit: "pcs m i = LkRel \<Longrightarrow> bolt_step cx i m (goto (m\<lparr>mutex := None\<rparr>) i Owner)"
| call_unlock: "pcs m i = Owner \<Longrightarrow> bolt_step cx i m (goto m i UnEnter)"
| un_mutex: "pcs m i = UnEnter \<Longrightarrow> mutex m = None \<Longrightarrow>
    bolt_step cx i m (goto (m\<lparr>mutex := Some i\<rparr>) i UnTest)"
| un_panic: "pcs m i = UnTest \<Longrightarrow> bolt_context m \<noteq> cx i \<Longrightarrow> bolt_step cx i m (goto m i Crashed)"
| un_clear: "pcs m i = UnTest \<Longrightarrow> bolt_context m = cx i \<Longrightarrow>
    bolt_step cx i m (goto (m\<lparr>bolt_context := None\<rparr>) i UnSig)"
| un_signal: "pcs m i = UnSig \<Longrightarrow> pcs m j = LkWait \<Longrightarrow>
    bolt_step cx i m (goto (goto m j LkWoken) i UnRel)"
| un_nosignal: "pcs m i = UnSig \<Longrightarrow> \<forall>j. pcs m j \<noteq> LkWait \<Longrightarrow> bolt_step cx i m (goto m i UnRel)"
| un_exit: "pcs m i = UnRel \<Longrightarrow> bolt_step cx i m (goto (m\<lparr>mutex := None\<rparr>) i Out)"

inductive bolt_reachable :: "(nat \<Rightarrow> ctx) \<Rightarrow> monitor \<Rightarrow> bool" for cx where
  start: "bolt_reachable cx NewBolt"
| step: "bolt_reachable cx m \<Longrightarrow> bolt_step cx i m m' \<Longrightarrow> bolt_reachable cx m'"

text \<open>Inside a critical section; a panic there leaves the mutex held.\<close>

fun in_mutex :: "bpc \<Rightarrow> bool" where
  "in_mutex LkLoop = True" | "in_mutex LkRel = True" | "in_mutex UnTest = True"
| "in_mutex UnSig = True" | "in_mutex UnRel = True" | "in_mutex Crashed = True"
| "in_mutex _ = False"

text \<open>Between the assignment of the owner in \<open>Lock\<close> and its removal in \<open>Unlock\<close>.\<close>

fun owning :: "bpc \<Rightarrow> bool" where
  "owning LkRel = True" | "owning Owner = True" | "owning UnEnter = True" | "owning UnTest = True"
| "owning _ = False"

text \<open>Will test the owner, or signal, before it waits again.\<close>

fun waking :: "bpc \<Rightarrow> bool" where
  "waking UnSig = True" | "waking LkWoken = True" | "waking LkLoop = True"
| "waking _ = False"

text \<open>
  The invariant: the mutex is held by exactly the goroutine inside a critical section; the
  owner field is the context of the one owning goroutine; when the bolt is free while
  somebody waits, a signal is on its way; nobody has crashed.
\<close>

definition mutex_inv :: "monitor \<Rightarrow> bool" where
  "mutex_inv m \<longleftrightarrow> (\<forall>i. mutex m = Some i \<longleftrightarrow> in_mutex (pcs m i))"

definition owner_inv :: "(nat \<Rightarrow> ctx) \<Rightarrow> monitor \<Rightarrow> bool" where
  "owner_inv cx m \<longleftrightarrow>
     (\<forall>i. owning (pcs m i) \<longrightarrow> bolt_context m = cx i) \<and>
     (\<forall>i j. owning (pcs m i) \<longrightarrow> owning (pcs m j) \<longrightarrow> i = j) \<and>
     (bolt_context m \<noteq> None \<longrightarrow> (\<exists>i. owning (pcs m i)))"

definition wake_inv :: "monitor \<Rightarrow> bool" where
  "wake_inv m \<longleftrightarrow> ((\<exists>i. pcs m i = LkWait) \<longrightarrow>
     bolt_context m \<noteq> None \<or> (\<exists>j. waking (pcs m j)))"

definition no_crash :: "monitor \<Rightarrow> bool" where
  "no_crash m \<longleftrightarrow> (\<forall>i. pcs m i \<noteq> Crashed)"

lemma mutex_excl: "mutex_inv m \<Longrightarrow> in_mutex (pcs m i) \<Longrightarrow> in_mutex (pcs m j) \<Longrightarrow> i = j"
  unfolding mutex_inv_def by (metis option.inject)

lemma mutex_inv_step:
  assumes st: "bolt_step cx i m m'" and inv: "mutex_inv m"
  shows "mutex_inv m'"
proof -
  have excl: "\<And>k. in_mutex (pcs m k) \<Longrightarrow> in_mutex (pcs m i) \<Longrightarrow> k = i"
    using mutex_excl [OF inv] by blast
  from st show ?thesis
    by cases (use inv in \<open>auto simp: mutex_inv_def dest: excl\<close>)
qed

text \<open>Taking the free bolt: nobody owned it before.\<close>

lemma owner_none: "owner_inv cx m \<Longrightarrow> \<forall>i. cx i \<noteq> None \<Longrightarrow> bolt_context m = None \<Longrightarrow> \<not> owning (pcs m j)"
  unfolding owner_inv_def by metis

lemma owner_unique: "owner_inv cx m \<Longrightarrow> owning (pcs m i) \<Longrightarrow> owning (pcs m j) \<Longrightarrow> i = j"
  unfolding owner_inv_def by blast

lemma owner_ctx: "owner_inv cx m \<Longrightarrow> owning (pcs m i) \<Longrightarrow> bolt_context m = cx i"
  unfolding owner_inv_def by blast

text \<open>A step that leaves the owner field and every goroutine's ownership alone.\<close>

lemma owner_inv_cong:
  "owner_inv cx m \<Longrightarrow> bolt_context m' = bolt_context m \<Longrightarrow>
     (\<And>k. owning (pcs m' k) = owning (pcs m k)) \<Longrightarrow> owner_inv cx m'"
  by (simp add: owner_inv_def)

lemma owner_inv_step:
  assumes st: "bolt_step cx i m m'" and inv: "owner_inv cx m" and cx: "\<forall>i. cx i \<noteq> None"
  shows "owner_inv cx m'"
  using st
proof cases
  case lk_take
  then have "\<And>j. \<not> owning (pcs m j)" using owner_none [OF inv cx] by blast
  with lk_take show ?thesis by (auto simp: owner_inv_def)
next
  case un_panic
  then have False using owner_ctx [OF inv, of i] by simp
  then show ?thesis ..
next
  case un_clear
  then have "\<And>j. j \<noteq> i \<Longrightarrow> \<not> owning (pcs m j)" using owner_unique [OF inv, of i] by auto
  with un_clear show ?thesis by (auto simp: owner_inv_def)
qed (rule owner_inv_cong [OF inv]; simp)+

lemma wake_inv_cong:
  assumes "wake_inv m" "bolt_context m' = bolt_context m"
    and "\<And>k. pcs m' k = LkWait \<Longrightarrow> pcs m k = LkWait" "\<And>k. waking (pcs m k) \<Longrightarrow> waking (pcs m' k)"
  shows "wake_inv m'"
  using assms unfolding wake_inv_def by metis

lemma wake_inv_step:
  assumes st: "bolt_step cx i m m'" and inv: "wake_inv m" and cx: "\<forall>i. cx i \<noteq> None"
    and own: "owner_inv cx m"
  shows "wake_inv m'"
  using st
proof cases
  case un_panic
  then have False using owner_ctx [OF own, of i] by simp
  then show ?thesis ..
next
  case lk_take
  then show ?thesis using cx by (auto simp: wake_inv_def)
next
  case un_nosignal
  then show ?thesis by (auto simp: wake_inv_def)
next
  case (un_signal j)
  then have "j \<noteq> i" by auto
  with un_signal have "waking (pcs m' j)" by simp
  then show ?thesis unfolding wake_inv_def by blast
next
  case un_clear
  then have "waking (pcs m' i)" by simp
  then show ?thesis unfolding wake_inv_def by blast
next
  case lk_mutex
  then have "waking (pcs m' i)" by simp
  then show ?thesis unfolding wake_inv_def by blast
next
  case lk_wake
  then have "waking (pcs m' i)" by simp
  then show ?thesis unfolding wake_inv_def by blast
next
  case lk_wait
  then show ?thesis by (simp add: wake_inv_def)
qed (rule wake_inv_cong [OF inv]; auto split: if_splits)+

lemma no_crash_step:
  assumes "bolt_step cx i m m'" "no_crash m" "owner_inv cx m"
  shows "no_crash m'"
  using assms(1)
proof cases
  case un_panic
  then have False using owner_ctx [OF assms(3), of i] by simp
  then show ?thesis ..
qed (use assms(2) in \<open>auto simp: no_crash_def\<close>)

lemma bolt_invariants:
  assumes "bolt_reachable cx m" "\<forall>i. cx i \<noteq> None"
  shows "mutex_inv m \<and> owner_inv cx m \<and> wake_inv m \<and> no_crash m"
  using assms(1)
proof induction
  case start
  show ?case
    by (simp add: NewBolt_def mutex_inv_def owner_inv_def wake_inv_def no_crash_def)
next
  case (step m i m')
  with assms(2) show ?case
    by (blast intro: mutex_inv_step owner_inv_step wake_inv_step no_crash_step)
qed

section \<open>Progress and refinement\<close>

text \<open>A goroutine that is neither outside nor waiting can step once the mutex is free.\<close>

definition can_step :: "(nat \<Rightarrow> ctx) \<Rightarrow> nat \<Rightarrow> monitor \<Rightarrow> bool" where
  "can_step cx i m \<longleftrightarrow> (\<exists>m'. bolt_step cx i m m')"

lemma in_mutex_can_step:
  assumes "in_mutex (pcs m i)" "pcs m i \<noteq> Crashed"
  shows "can_step cx i m"
proof (cases "pcs m i")
  case LkLoop
  then show ?thesis
    unfolding can_step_def
    by (cases "bolt_context m = None") (blast intro: bolt_step.lk_take bolt_step.lk_wait)+
next
  case LkRel
  then show ?thesis unfolding can_step_def by (blast intro: bolt_step.lk_exit)
next
  case UnTest
  then show ?thesis
    unfolding can_step_def
    by (cases "bolt_context m = cx i") (blast intro: bolt_step.un_clear bolt_step.un_panic)+
next
  case UnSig
  then show ?thesis
    unfolding can_step_def by (blast intro: bolt_step.un_signal bolt_step.un_nosignal)
next
  case UnRel
  then show ?thesis unfolding can_step_def by (blast intro: bolt_step.un_exit)
qed (use assms in auto)

lemma free_mutex_can_step:
  "mutex m = None \<Longrightarrow> owning (pcs m i) \<or> waking (pcs m i) \<or> pcs m i = LkEnter \<Longrightarrow>
     \<not> in_mutex (pcs m i) \<Longrightarrow> can_step cx i m"
  unfolding can_step_def by (cases "pcs m i") (auto intro: bolt_step.intros)

text \<open>
  Whenever a goroutine is inside \<open>Lock\<close> or \<open>Unlock\<close>, some goroutine using the bolt can make
  a step: the monitor never deadlocks by itself, and no wake-up is lost.
\<close>

lemma monitor_progress:
  assumes inv: "mutex_inv m" "owner_inv cx m" "wake_inv m" "no_crash m" and busy: "pcs m i \<noteq> Out"
  shows "\<exists>j. pcs m j \<noteq> Out \<and> pcs m j \<noteq> LkWait \<and> can_step cx j m"
proof (cases "mutex m")
  case (Some j)
  then have "in_mutex (pcs m j)" using inv(1) unfolding mutex_inv_def by blast
  moreover have "pcs m j \<noteq> Crashed" using inv(4) by (simp add: no_crash_def)
  ultimately show ?thesis using in_mutex_can_step [of m j cx] by (metis in_mutex.simps(7,9))
next
  case None
  then have out: "\<And>k. \<not> in_mutex (pcs m k)" using inv(1) by (auto simp: mutex_inv_def)
  have "\<exists>j. owning (pcs m j) \<or> waking (pcs m j) \<or> pcs m j = LkEnter"
  proof (cases "pcs m i = LkWait")
    case True
    then show ?thesis using inv(2,3) unfolding wake_inv_def owner_inv_def by blast
  next
    case False
    then have "owning (pcs m i) \<or> waking (pcs m i) \<or> pcs m i = LkEnter"
      using busy out [of i] by (cases "pcs m i") auto
    then show ?thesis by blast
  qed
  then obtain j where j: "owning (pcs m j) \<or> waking (pcs m j) \<or> pcs m j = LkEnter" by blast
  then have "pcs m j \<noteq> Out \<and> pcs m j \<noteq> LkWait" by auto
  with free_mutex_can_step [OF None j out] show ?thesis by blast
qed

text \<open>
  The abstract lock: nobody or one goroutine holds it, and a step acquires it when it is
  free, releases it by its holder, or leaves it alone.
\<close>

inductive lock_step :: "nat option \<Rightarrow> nat option \<Rightarrow> bool" where
  acquire: "lock_step None (Some i)"
| release: "lock_step (Some i) None"
| stutter: "lock_step h h"

definition holds :: "monitor \<Rightarrow> nat option \<Rightarrow> bool" where
  "holds m h \<longleftrightarrow> (\<forall>i. owning (pcs m i) \<longleftrightarrow> h = Some i)"

lemma holds_exists: "owner_inv cx m \<Longrightarrow> \<exists>h. holds m h"
proof (cases "\<exists>i. owning (pcs m i)")
  case True
  assume inv: "owner_inv cx m"
  from True obtain i where "owning (pcs m i)" ..
  then have "holds m (Some i)" using owner_unique [OF inv] by (auto simp: holds_def)
  then show ?thesis ..
next
  case False
  then have "holds m None" by (simp add: holds_def)
  then show "\<exists>h. holds m h" ..
qed

lemma holds_unique: "holds m h \<Longrightarrow> holds m h' \<Longrightarrow> h = h'"
  by (metis holds_def option.exhaust)

lemma holds_cong:
  "holds m h \<Longrightarrow> (\<And>k. owning (pcs m' k) = owning (pcs m k)) \<Longrightarrow> holds m' h"
  by (simp add: holds_def)

lemma bolt_step_refines:
  assumes st: "bolt_step cx i m m'" and h: "holds m h"
    and inv: "owner_inv cx m" and cx: "\<forall>i. cx i \<noteq> None"
  shows "\<exists>h'. holds m' h' \<and> lock_step h h'"
  using st
proof cases
  case lk_take
  then have none: "\<And>j. \<not> owning (pcs m j)" using owner_none [OF inv cx] by blast
  with h have "h = None" by (cases h) (auto simp: holds_def)
  moreover have "holds m' (Some i)" using lk_take none by (auto simp: holds_def)
  ultimately show ?thesis using lock_step.acquire by blast
next
  case un_panic
  then have False using owner_ctx [OF inv, of i] by simp
  then show ?thesis ..
next
  case un_clear
  have "owning (pcs m i)" using un_clear by simp
  then have "h = Some i" using h unfolding holds_def by blast
  moreover have "holds m' None"
    using un_clear owner_unique [OF inv \<open>owning (pcs m i)\<close>] by (auto simp: holds_def)
  ultimately show ?thesis using lock_step.release by blast
qed (rule exI [of _ h], rule conjI [OF holds_cong [OF h] lock_step.stutter], simp)+

end
