(* ===== verification/Driver.thy ===== *)
theory Driver
  imports RestApi Bolt
begin

text \<open>
  The state of the controller service of \<open>pkg/service\<close>: volumes and snapshots as the driver
  caches them, the two hash tables and their read-write locks (\<open>volumes.go\<close>), and the lock
  methods of volumes and snapshots (\<open>hold\<close>, \<open>lock\<close>, \<open>unlock\<close>, \<open>release\<close> of
  \<open>controller_fs.go\<close>, \<open>controller_block.go\<close> and \<open>snapshots.go\<close>).  Go pointers are
  references into two heaps, so that every request sees the object another one changed.
  Two locales state the contracts of a lock object and of a hash table, and are interpreted
  for volumes and for snapshots.
\<close>

section \<open>Volumes and snapshots\<close>

datatype volumeState = stateCreating | stateCreated | stateDeleted

text \<open>\<open>VolumeCapability_AccessMode_Mode\<close> of the CSI specification.\<close>

datatype access_mode =
    UNKNOWN | SINGLE_NODE_WRITER | SINGLE_NODE_READER_ONLY | MULTI_NODE_READER_ONLY
  | MULTI_NODE_SINGLE_WRITER | MULTI_NODE_MULTI_WRITER | SINGLE_NODE_SINGLE_WRITER
  | SINGLE_NODE_MULTI_WRITER

text \<open>
  The fields common to \<open>zFilesystem\<close> and \<open>zLUN\<close>, in the order of the structures.  The field
  \<open>source\<close> is never used and left out.
\<close>

record zVolume =
  vBolt :: ctx
  vRefcount :: int
  vState :: volumeState
  vHref :: string
  vId :: VolumeId
  vCapacity :: int
  vAccessModes :: "access_mode list"

record zFilesystem = zVolume +
  vMountpoint :: string

record zLUN = zVolume +
  vInitiatorgroup :: "string list"
  vTargetgroup :: string

datatype zVolumeInterface = FS zFilesystem | LUN zLUN

definition newFilesystem :: "VolumeId \<Rightarrow> zVolumeInterface" where
  "newFilesystem vid = FS \<lparr>vBolt = None, vRefcount = 0, vState = stateCreating, vHref = [],
     vId = vid, vCapacity = 0, vAccessModes = [], vMountpoint = []\<rparr>"

definition newLUN :: "VolumeId \<Rightarrow> zVolumeInterface" where
  "newLUN vid = LUN \<lparr>vBolt = None, vRefcount = 0, vState = stateCreating, vHref = [],
     vId = vid, vCapacity = 0, vAccessModes = [], vInitiatorgroup = [], vTargetgroup = []\<rparr>"

text \<open>The source volume of a snapshot is a pointer.\<close>

record zSnapshot =
  zBolt :: ctx
  zRefcount :: int
  zState :: volumeState
  zHref :: string
  zVol :: nat
  zId :: SnapshotId
  zNumClones :: int
  zSpaceUnique :: int
  zSpaceData :: int
  zTimeStamp :: "int option"

definition newSnapshot_struct :: "SnapshotId \<Rightarrow> nat \<Rightarrow> zSnapshot" where
  "newSnapshot_struct sid zvol = \<lparr>zBolt = None, zRefcount = 0, zState = stateCreating, zHref = [],
     zVol = zvol, zId = sid, zNumClones = 0, zSpaceUnique = 0, zSpaceData = 0, zTimeStamp = None\<rparr>"

text \<open>The getters of \<open>zVolumeInterface\<close>, and updates of the common fields.\<close>

fun getState :: "zVolumeInterface \<Rightarrow> volumeState" where
  "getState (FS v) = vState v" | "getState (LUN v) = vState v"
fun getVolumeID :: "zVolumeInterface \<Rightarrow> VolumeId" where
  "getVolumeID (FS v) = vId v" | "getVolumeID (LUN v) = vId v"
fun getHref :: "zVolumeInterface \<Rightarrow> string" where
  "getHref (FS v) = vHref v" | "getHref (LUN v) = vHref v"
fun getCapacity :: "zVolumeInterface \<Rightarrow> int" where
  "getCapacity (FS v) = vCapacity v" | "getCapacity (LUN v) = vCapacity v"
fun getBolt :: "zVolumeInterface \<Rightarrow> ctx" where
  "getBolt (FS v) = vBolt v" | "getBolt (LUN v) = vBolt v"
fun getRefcount :: "zVolumeInterface \<Rightarrow> int" where
  "getRefcount (FS v) = vRefcount v" | "getRefcount (LUN v) = vRefcount v"
fun isBlockVol :: "zVolumeInterface \<Rightarrow> bool" where
  "isBlockVol (FS v) = False" | "isBlockVol (LUN v) = True"
fun setBolt :: "ctx \<Rightarrow> zVolumeInterface \<Rightarrow> zVolumeInterface" where
  "setBolt b (FS v) = FS (v\<lparr>vBolt := b\<rparr>)" | "setBolt b (LUN v) = LUN (v\<lparr>vBolt := b\<rparr>)"
fun setRefcount :: "int \<Rightarrow> zVolumeInterface \<Rightarrow> zVolumeInterface" where
  "setRefcount n (FS v) = FS (v\<lparr>vRefcount := n\<rparr>)" | "setRefcount n (LUN v) = LUN (v\<lparr>vRefcount := n\<rparr>)"

definition getName :: "zVolumeInterface \<Rightarrow> string" where
  "getName v = vidName (getVolumeID v)"

definition zName_of :: "zSnapshot \<Rightarrow> string" where
  "zName_of z = sidName (zId z)"

definition getStringId :: "zSnapshot \<Rightarrow> string" where
  "getStringId z = SnapshotId_String (zId z)"

definition getStringSourceId :: "zSnapshot \<Rightarrow> string" where
  "getStringSourceId z = VolumeId_String (sidVolumeId (zId z))"

section \<open>The driver\<close>

text \<open>\<open>sync.RWMutex\<close>, as one request at a time sees it.\<close>

datatype rwlock = RWFree | RWRead nat | RWWrite

fun rw_lock :: "rwlock \<Rightarrow> rwlock option" where
  "rw_lock RWFree = Some RWWrite"
| "rw_lock _ = None"

fun rw_unlock :: "rwlock \<Rightarrow> rwlock option" where
  "rw_unlock RWWrite = Some RWFree"
| "rw_unlock _ = None"

fun rw_rlock :: "rwlock \<Rightarrow> rwlock option" where
  "rw_rlock RWFree = Some (RWRead 0)"
| "rw_rlock (RWRead n) = Some (RWRead (Suc n))"
| "rw_rlock RWWrite = None"

fun rw_runlock :: "rwlock \<Rightarrow> rwlock option" where
  "rw_runlock (RWRead 0) = Some RWFree"
| "rw_runlock (RWRead (Suc n)) = Some (RWRead n)"
| "rw_runlock _ = None"

text \<open>
  \<open>RWRead n\<close> stands for \<open>n + 1\<close> readers.  The driver extends the state of the REST package;
  \<open>cfgAppliance\<close> and \<open>cfgCredLocation\<close> are \<open>config.Appliance\<close> and \<open>config.CredLocation\<close>;
  \<open>clientset\<close> says whether the package variable of that name (\<open>cluster.go\<close>) is not nil.
\<close>

record 'w driver = "'w rest" +
  cfgAppliance :: string
  cfgCredLocation :: string
  clientset :: bool
  vMutex :: rwlock
  vHash :: "(string \<times> nat) list"
  sMutex :: rwlock
  sHash :: "(string \<times> nat) list"
  vols :: "nat \<Rightarrow> zVolumeInterface option"
  snaps :: "nat \<Rightarrow> zSnapshot option"
  nextRef :: nat

abbreviation putVol :: "nat \<Rightarrow> zVolumeInterface \<Rightarrow> ('w, 'b) driver_scheme \<Rightarrow> ('w, 'b) driver_scheme" where
  "putVol r v s \<equiv> s\<lparr>vols := (vols s)(r \<mapsto> v)\<rparr>"

abbreviation putSnap :: "nat \<Rightarrow> zSnapshot \<Rightarrow> ('w, 'b) driver_scheme \<Rightarrow> ('w, 'b) driver_scheme" where
  "putSnap r z s \<equiv> s\<lparr>snaps := (snaps s)(r \<mapsto> z)\<rparr>"

section \<open>The hash tables\<close>

definition vCache_mutex :: "(rwlock \<Rightarrow> rwlock option) \<Rightarrow> (('w, 'b) driver_scheme, unit) go \<Rightarrow>
    (('w, 'b) driver_scheme, unit) go" where
  "vCache_mutex op otherwise = bindG (getG vMutex) (\<lambda>m. case op m of
     None \<Rightarrow> otherwise | Some m' \<Rightarrow> modG (\<lambda>s. s\<lparr>vMutex := m'\<rparr>))"

definition vCache_Lock :: "(('w, 'b) driver_scheme, unit) go" where
  "vCache_Lock = vCache_mutex rw_lock deadlockG"
definition vCache_Unlock :: "(('w, 'b) driver_scheme, unit) go" where
  "vCache_Unlock = vCache_mutex rw_unlock (panicG ''sync: Unlock of unlocked RWMutex'')"
definition vCache_RLock :: "(('w, 'b) driver_scheme, unit) go" where
  "vCache_RLock = vCache_mutex rw_rlock deadlockG"
definition vCache_RUnlock :: "(('w, 'b) driver_scheme, unit) go" where
  "vCache_RUnlock = vCache_mutex rw_runlock (panicG ''sync: RUnlock of unlocked RWMutex'')"

definition vCache_add :: "string \<Rightarrow> nat \<Rightarrow> (('w, 'b) driver_scheme, unit) go" where
  "vCache_add key zvol = modG (\<lambda>s. s\<lparr>vHash := AList.update key zvol (vHash s)\<rparr>)"
definition vCache_delete :: "string \<Rightarrow> (('w, 'b) driver_scheme, unit) go" where
  "vCache_delete key = modG (\<lambda>s. s\<lparr>vHash := AList.delete key (vHash s)\<rparr>)"
definition vCache_lookup :: "string \<Rightarrow> (('w, 'b) driver_scheme, nat option) go" where
  "vCache_lookup key = getG (\<lambda>s. map_of (vHash s) key)"

definition sCache_mutex :: "(rwlock \<Rightarrow> rwlock option) \<Rightarrow> (('w, 'b) driver_scheme, unit) go \<Rightarrow>
    (('w, 'b) driver_scheme, unit) go" where
  "sCache_mutex op otherwise = bindG (getG sMutex) (\<lambda>m. case op m of
     None \<Rightarrow> otherwise | Some m' \<Rightarrow> modG (\<lambda>s. s\<lparr>sMutex := m'\<rparr>))"

definition sCache_Lock :: "(('w, 'b) driver_scheme, unit) go" where
  "sCache_Lock = sCache_mutex rw_lock deadlockG"
definition sCache_Unlock :: "(('w, 'b) driver_scheme, unit) go" where
  "sCache_Unlock = sCache_mutex rw_unlock (panicG ''sync: Unlock of unlocked RWMutex'')"
definition sCache_RLock :: "(('w, 'b) driver_scheme, unit) go" where
  "sCache_RLock = sCache_mutex rw_rlock deadlockG"
definition sCache_RUnlock :: "(('w, 'b) driver_scheme, unit) go" where
  "sCache_RUnlock = sCache_mutex rw_runlock (panicG ''sync: RUnlock of unlocked RWMutex'')"

definition sCache_add :: "string \<Rightarrow> nat \<Rightarrow> (('w, 'b) driver_scheme, unit) go" where
  "sCache_add key zsnap = modG (\<lambda>s. s\<lparr>sHash := AList.update key zsnap (sHash s)\<rparr>)"
definition sCache_delete :: "string \<Rightarrow> (('w, 'b) driver_scheme, unit) go" where
  "sCache_delete key = modG (\<lambda>s. s\<lparr>sHash := AList.delete key (sHash s)\<rparr>)"
definition sCache_lookup :: "string \<Rightarrow> (('w, 'b) driver_scheme, nat option) go" where
  "sCache_lookup key = getG (\<lambda>s. map_of (sHash s) key)"

section \<open>The lock methods\<close>

text \<open>
  The four methods are the same for filesystems and LUNs.  \<open>refcount\<close> is an \<open>int32\<close>.
\<close>

definition vol_hold :: "nat \<Rightarrow> (('w, 'b) driver_scheme, volumeState) go" where
  "vol_hold r = bindG (derefG (\<lambda>s. vols s r)) (\<lambda>v.
     seqG (modG (putVol r (setRefcount (wrap32 (getRefcount v + 1)) v))) (retG (getState v)))"

definition vol_lock :: "ctx \<Rightarrow> nat \<Rightarrow> (('w, 'b) driver_scheme, volumeState) go" where
  "vol_lock c r = bindG (derefG (\<lambda>s. vols s r)) (\<lambda>v. case bolt_lock (getBolt v) c of
     None \<Rightarrow> deadlockG
   | Some b \<Rightarrow> seqG (modG (putVol r (setBolt b v))) (retG (getState v)))"

definition vol_unlock :: "ctx \<Rightarrow> nat \<Rightarrow> (('w, 'b) driver_scheme, int \<times> volumeState) go" where
  "vol_unlock c r = bindG (derefG (\<lambda>s. vols s r)) (\<lambda>v. case bolt_unlock (getBolt v) c of
     None \<Rightarrow> panicG ''wrong owner unlocking fs''
   | Some b \<Rightarrow> seqG (modG (putVol r (setBolt b v))) (retG (getRefcount v, getState v)))"

definition vol_release :: "nat \<Rightarrow> (('w, 'b) driver_scheme, int \<times> volumeState) go" where
  "vol_release r = bindG (derefG (\<lambda>s. vols s r)) (\<lambda>v. let n = wrap32 (getRefcount v - 1) in
     seqG (modG (putVol r (setRefcount n v))) (retG (n, getState v)))"

definition snap_hold :: "nat \<Rightarrow> (('w, 'b) driver_scheme, volumeState) go" where
  "snap_hold r = bindG (derefG (\<lambda>s. snaps s r)) (\<lambda>z.
     seqG (modG (putSnap r (z\<lparr>zRefcount := wrap32 (zRefcount z + 1)\<rparr>))) (retG (zState z)))"

definition snap_lock :: "ctx \<Rightarrow> nat \<Rightarrow> (('w, 'b) driver_scheme, volumeState) go" where
  "snap_lock c r = bindG (derefG (\<lambda>s. snaps s r)) (\<lambda>z. case bolt_lock (zBolt z) c of
     None \<Rightarrow> deadlockG
   | Some b \<Rightarrow> seqG (modG (putSnap r (z\<lparr>zBolt := b\<rparr>))) (retG (zState z)))"

definition snap_unlock :: "ctx \<Rightarrow> nat \<Rightarrow> (('w, 'b) driver_scheme, int \<times> volumeState) go" where
  "snap_unlock c r = bindG (derefG (\<lambda>s. snaps s r)) (\<lambda>z. case bolt_unlock (zBolt z) c of
     None \<Rightarrow> panicG ''wrong owner unlocking fs''
   | Some b \<Rightarrow> seqG (modG (putSnap r (z\<lparr>zBolt := b\<rparr>))) (retG (zRefcount z, zState z)))"

definition snap_release :: "nat \<Rightarrow> (('w, 'b) driver_scheme, int \<times> volumeState) go" where
  "snap_release r = bindG (derefG (\<lambda>s. snaps s r)) (\<lambda>z. let n = wrap32 (zRefcount z - 1) in
     seqG (modG (putSnap r (z\<lparr>zRefcount := n\<rparr>))) (retG (n, zState z)))"

section \<open>The contract of a lock object\<close>

text \<open>
  An object in a heap with a bolt, a reference count and a state, and the four methods.
  The client's view: taking a reference and the lock, and giving both back.
\<close>

locale lock_object =
  fixes obj :: "'s \<Rightarrow> nat \<Rightarrow> 'o option" and put :: "nat \<Rightarrow> 'o \<Rightarrow> 's \<Rightarrow> 's"
    and bolt_of :: "'o \<Rightarrow> ctx" and set_bolt :: "ctx \<Rightarrow> 'o \<Rightarrow> 'o"
    and ref_of :: "'o \<Rightarrow> int" and set_ref :: "int \<Rightarrow> 'o \<Rightarrow> 'o" and state_of :: "'o \<Rightarrow> volumeState"
    and hold :: "nat \<Rightarrow> ('s, volumeState) go" and lock :: "ctx \<Rightarrow> nat \<Rightarrow> ('s, volumeState) go"
    and unlock :: "ctx \<Rightarrow> nat \<Rightarrow> ('s, int \<times> volumeState) go"
    and release :: "nat \<Rightarrow> ('s, int \<times> volumeState) go"
  assumes obj_put: "obj (put r o1 s) = (obj s)(r \<mapsto> o1)"
    and put_put: "put r o1 (put r o2 s) = put r o1 s"
    and put_obj: "obj s r = Some o1 \<Longrightarrow> put r o1 s = s"
    and bolt_laws: "bolt_of (set_bolt b o1) = b" "ref_of (set_bolt b o1) = ref_of o1"
      "state_of (set_bolt b o1) = state_of o1" "set_bolt b (set_bolt b' o1) = set_bolt b o1"
      "set_bolt (bolt_of o1) o1 = o1"
    and ref_laws: "ref_of (set_ref n o1) = n" "bolt_of (set_ref n o1) = bolt_of o1"
      "state_of (set_ref n o1) = state_of o1" "set_ref n (set_ref n' o1) = set_ref n o1"
      "set_ref (ref_of o1) o1 = o1" "set_ref n (set_bolt b o1) = set_bolt b (set_ref n o1)"
    and hold_law: "obj s r = Some o1 \<Longrightarrow>
      hold r s = (Done (state_of o1), put r (set_ref (wrap32 (ref_of o1 + 1)) o1) s)"
    and lock_law: "obj s r = Some o1 \<Longrightarrow> lock c r s = (case bolt_lock (bolt_of o1) c of
      None \<Rightarrow> (Deadlock, s) | Some b \<Rightarrow> (Done (state_of o1), put r (set_bolt b o1) s))"
    and unlock_law: "obj s r = Some o1 \<Longrightarrow> unlock c r s = (case bolt_unlock (bolt_of o1) c of
      None \<Rightarrow> (Panic ''wrong owner unlocking fs'', s)
    | Some b \<Rightarrow> (Done (ref_of o1, state_of o1), put r (set_bolt b o1) s))"
    and release_law: "obj s r = Some o1 \<Longrightarrow> release r s =
      (Done (wrap32 (ref_of o1 - 1), state_of o1), put r (set_ref (wrap32 (ref_of o1 - 1)) o1) s)"
begin

definition acquired :: "ctx \<Rightarrow> 'o \<Rightarrow> 'o" where
  "acquired c o1 = set_bolt c (set_ref 1 o1)"

definition dropped :: "'o \<Rightarrow> 'o" where
  "dropped o1 = set_bolt None (set_ref 0 o1)"

lemma acquire:
  assumes "obj s r = Some o1" "bolt_of o1 = None" "ref_of o1 = 0"
  shows "seqG (hold r) (lock c r) s = (Done (state_of o1), put r (acquired c o1) s)"
  using assms by (simp add: hold_law lock_law obj_put put_put ref_laws acquired_def)

lemma acquire_held:
  assumes "obj s r = Some o1" "bolt_of o1 = Some k"
  shows "fst (seqG (hold r) (lock c r) s) = Deadlock"
  using assms by (simp add: hold_law lock_law obj_put ref_laws)

lemma drop:
  assumes "obj s r = Some o1" "bolt_of o1 = c" "ref_of o1 = 1"
  shows "release r s = (Done (0, state_of o1), put r (set_ref 0 o1) s)"
    "unlock c r (put r (set_ref 0 o1) s) = (Done (0, state_of o1), put r (dropped o1) s)"
  using assms by (simp_all add: release_law unlock_law obj_put put_put ref_laws dropped_def)

lemma acquire_drop:
  assumes "obj s r = Some o1" "bolt_of o1 = None" "ref_of o1 = 0"
  shows "seqG (seqG (hold r) (lock c r)) (seqG (release r) (unlock c r)) s = (Done (0, state_of o1), s)"
proof -
  let ?s = "put r (acquired c o1) s"
  have o: "obj ?s r = Some (acquired c o1)" "bolt_of (acquired c o1) = c" "ref_of (acquired c o1) = 1"
    "state_of (acquired c o1) = state_of o1" "dropped (acquired c o1) = o1"
    using assms(2,3) bolt_laws(5) [of o1] ref_laws(5) [of o1]
    by (simp_all add: obj_put acquired_def dropped_def bolt_laws ref_laws)
  from drop [OF o(1-3)] acquire [OF assms, of c] show ?thesis
    by (simp add: o put_put put_obj [OF assms(1)])
qed

end

text \<open>The symbolic execution of the methods, and the two providers of the contract.\<close>

lemma setBolt_laws [simp]:
  "getBolt (setBolt b v) = b" "getRefcount (setBolt b v) = getRefcount v"
  "getState (setBolt b v) = getState v" "getVolumeID (setBolt b v) = getVolumeID v"
  "setBolt b (setBolt b' v) = setBolt b v" "setBolt (getBolt v) v = v"
  by (cases v; simp)+

lemma setRefcount_laws [simp]:
  "getRefcount (setRefcount n v) = n" "getBolt (setRefcount n v) = getBolt v"
  "getState (setRefcount n v) = getState v" "getVolumeID (setRefcount n v) = getVolumeID v"
  "setRefcount n (setRefcount n' v) = setRefcount n v" "setRefcount (getRefcount v) v = v"
  "setRefcount n (setBolt b v) = setBolt b (setRefcount n v)"
  by (cases v; simp)+

lemma putVol_id: "vols s r = Some v \<Longrightarrow> putVol r v s = s"
  by (cases s) (simp add: fun_upd_idem)

lemma putSnap_id: "snaps s r = Some z \<Longrightarrow> putSnap r z s = s"
  by (cases s) (simp add: fun_upd_idem)

interpretation vlock: lock_object vols putVol getBolt setBolt getRefcount setRefcount getState
  vol_hold vol_lock vol_unlock vol_release
  by unfold_locales
    (auto simp: vol_hold_def vol_lock_def vol_unlock_def vol_release_def Let_def
      putVol_id split: option.split)

interpretation slock: lock_object snaps putSnap zBolt "\<lambda>b z. z\<lparr>zBolt := b\<rparr>" zRefcount
  "\<lambda>n z. z\<lparr>zRefcount := n\<rparr>" zState snap_hold snap_lock snap_unlock snap_release
  by unfold_locales
    (auto simp: snap_hold_def snap_lock_def snap_unlock_def snap_release_def Let_def
      putSnap_id split: option.split)

section \<open>The contract of a hash table\<close>

text \<open>
  A table behind a read-write lock.  The client's view is one critical section each:
  looking up under the read lock, adding and deleting under the write lock.
\<close>

locale hash_table =
  fixes mtx :: "'s \<Rightarrow> rwlock" and set_mtx :: "rwlock \<Rightarrow> 's \<Rightarrow> 's"
    and tbl :: "'s \<Rightarrow> (string \<times> nat) list" and set_tbl :: "(string \<times> nat) list \<Rightarrow> 's \<Rightarrow> 's"
    and wlock :: "('s, unit) go" and wunlock :: "('s, unit) go"
    and rlock :: "('s, unit) go" and runlock :: "('s, unit) go"
    and add :: "string \<Rightarrow> nat \<Rightarrow> ('s, unit) go" and delete :: "string \<Rightarrow> ('s, unit) go"
    and lookup :: "string \<Rightarrow> ('s, nat option) go"
  assumes mtx_laws: "mtx (set_mtx m s) = m" "tbl (set_mtx m s) = tbl s"
      "set_mtx m (set_mtx m' s) = set_mtx m s" "set_mtx (mtx s) s = s"
    and tbl_laws: "tbl (set_tbl t s) = t" "mtx (set_tbl t s) = mtx s"
      "set_mtx m (set_tbl t s) = set_tbl t (set_mtx m s)"
    and wlock_law: "mtx s = RWFree \<Longrightarrow> wlock s = (Done (), set_mtx RWWrite s)"
    and wunlock_law: "mtx s = RWWrite \<Longrightarrow> wunlock s = (Done (), set_mtx RWFree s)"
    and rlock_law: "mtx s = RWFree \<Longrightarrow> rlock s = (Done (), set_mtx (RWRead 0) s)"
    and runlock_law: "mtx s = RWRead 0 \<Longrightarrow> runlock s = (Done (), set_mtx RWFree s)"
    and add_law: "add k r s = (Done (), set_tbl (AList.update k r (tbl s)) s)"
    and delete_law: "delete k s = (Done (), set_tbl (AList.delete k (tbl s)) s)"
    and lookup_law: "lookup k s = (Done (map_of (tbl s) k), s)"
begin

lemma set_mtx_id: "mtx s = m \<Longrightarrow> set_mtx m s = s"
  using mtx_laws(4) by metis

lemma read:
  assumes "mtx s = RWFree"
  shows "seqG rlock (bindG (lookup k) (\<lambda>x. seqG runlock (retG x))) s = (Done (map_of (tbl s) k), s)"
  using assms by (simp add: rlock_law lookup_law runlock_law mtx_laws set_mtx_id)

lemma insert:
  assumes "mtx s = RWFree"
  shows "seqG wlock (seqG (add k r) wunlock) s = (Done (), set_tbl (AList.update k r (tbl s)) s)"
  using assms by (simp add: wlock_law add_law wunlock_law mtx_laws tbl_laws set_mtx_id)

lemma remove:
  assumes "mtx s = RWFree"
  shows "seqG wlock (seqG (delete k) wunlock) s = (Done (), set_tbl (AList.delete k (tbl s)) s)"
  using assms by (simp add: wlock_law delete_law wunlock_law mtx_laws tbl_laws set_mtx_id)

lemma read_insert:
  assumes "mtx s = RWFree" "seqG wlock (seqG (add k r) wunlock) s = (Done u, s')"
  shows "seqG rlock (bindG (lookup k') (\<lambda>x. seqG runlock (retG x))) s' =
     (Done (if k' = k then Some r else map_of (tbl s) k'), s')"
proof -
  have s': "s' = set_tbl (AList.update k r (tbl s)) s"
    using assms(2) insert [OF assms(1), of k r] by simp
  show ?thesis
    using read [of s' k'] assms(1) by (simp add: s' tbl_laws update_conv')
qed

end

interpretation vtable: hash_table vMutex "\<lambda>m s. s\<lparr>vMutex := m\<rparr>" vHash "\<lambda>t s. s\<lparr>vHash := t\<rparr>"
  vCache_Lock vCache_Unlock vCache_RLock vCache_RUnlock vCache_add vCache_delete vCache_lookup
  by unfold_locales
    (simp_all add: vCache_Lock_def vCache_Unlock_def vCache_RLock_def vCache_RUnlock_def
      vCache_mutex_def vCache_add_def vCache_delete_def vCache_lookup_def)

interpretation stable: hash_table sMutex "\<lambda>m s. s\<lparr>sMutex := m\<rparr>" sHash "\<lambda>t s. s\<lparr>sHash := t\<rparr>"
  sCache_Lock sCache_Unlock sCache_RLock sCache_RUnlock sCache_add sCache_delete sCache_lookup
  by unfold_locales
    (simp_all add: sCache_Lock_def sCache_Unlock_def sCache_RLock_def sCache_RUnlock_def
      sCache_mutex_def sCache_add_def sCache_delete_def sCache_lookup_def)

end
