(* ===== verification/Login.thy ===== *)
theory Login
  imports Driver
begin

text \<open>
  The account of a request: the credentials file (\<open>GetUsernameFromCred\<close>,
  \<open>GetPasswordFromCred\<close>, \<open>isUsernameValid\<close> of \<open>service.go\<close>) and \<open>getUserLogin\<close> of
  \<open>controller.go\<close>.  Nothing here changes the state.
\<close>

definition UsernameLength :: nat where "UsernameLength = 255"

text \<open>\<open>^[a-zA-Z][a-zA-Z0-9_\-\.]*$\<close>\<close>

definition letter :: "char \<Rightarrow> bool" where
  "letter c \<longleftrightarrow> c \<in> set ''abcdefghijklmnopqrstuvwxyzABCDEFGHIJKLMNOPQRSTUVWXYZ''"

definition isUsernameValid :: "string \<Rightarrow> bool" where
  "isUsernameValid username =
     (if length username = 0 \<or> length username > UsernameLength then False
      else letter (hd username) \<and>
        list_all (\<lambda>c. letter c \<or> c \<in> set ''0123456789_-.'') (tl username))"

text \<open>\<open>envYamlCredentials\<close> is \<open>yaml.Unmarshal\<close> into \<open>ZfssaCredentials\<close>.\<close>

definition read_credentials :: "'w env \<Rightarrow> ('w, 'b) driver_scheme \<Rightarrow> gerror + string \<times> string" where
  "read_credentials env s = (case envReadFile env (cfgCredLocation s) (world s) of
     None \<Rightarrow> Inl (GPlain ''the ZFSSA credentials file <%s> could not be read: <%s>'')
   | Some yamlData \<Rightarrow> (case envYamlCredentials env yamlData of
       None \<Rightarrow> Inl (GPlain ''the ZFSSA credentials file <%s> could not be parsed: <%s>'')
     | Some yamlConfig \<Rightarrow> Inr yamlConfig))"

definition GetUsernameFromCred :: "'w env \<Rightarrow> (('w, 'b) driver_scheme, gerror + string) go" where
  "GetUsernameFromCred env = tryG (getG (read_credentials env)) (\<lambda>(username, password).
     if \<not> isUsernameValid username then retG (Inl (GPlain ''ZFSSA username is invalid: <%s>''))
     else retG (Inr username))"

definition GetPasswordFromCred :: "'w env \<Rightarrow> (('w, 'b) driver_scheme, gerror + string) go" where
  "GetPasswordFromCred env = tryG (getG (read_credentials env)) (\<lambda>(username, password).
     retG (Inr password))"

text \<open>The account of the secrets is used as it is; that of the file has a valid name.\<close>

definition getUserLogin ::
  "'w env \<Rightarrow> params option \<Rightarrow> (('w, 'b) driver_scheme, gerror + string \<times> string) go" where
  "getUserLogin env secrets =
     (case (case secrets of None \<Rightarrow> None | Some m \<Rightarrow> map_of m ''username'') of
        Some user \<Rightarrow> retG (Inr (user, param (the secrets) ''password''))
      | None \<Rightarrow>
          tryG (GetUsernameFromCred env) (\<lambda>username.
          tryG (GetPasswordFromCred env) (\<lambda>password.
          retG (Inr (username, password)))))"

lemmas login_defs = getUserLogin_def GetUsernameFromCred_def GetPasswordFromCred_def

lemma getUserLogin_pure: "\<exists>r. \<forall>s'. getUserLogin env secrets s = (Done r, s)"
  by (auto simp: login_defs go_defs split: option.split sum.split prod.split)

lemma rest_op_getUserLogin [rest_ops]: "rest_op (getUserLogin env secrets)"
  unfolding login_defs by (intro rest_ops)

text \<open>With no account in the secrets, the account of the file, if its name is valid.\<close>

lemma getUserLogin_file:
  assumes "getUserLogin env None s = (Done (Inr (user, password)), s')"
  shows "isUsernameValid user \<and> read_credentials env s = Inr (user, password) \<and> s' = s"
  using assms by (auto simp: login_defs go_defs split: sum.splits prod.splits if_splits)

end
