(* ===== verification/Volumes.thy ===== *)
theory Volumes
  imports Driver
begin

text \<open>
  The methods of the two kinds of volume: \<open>controller_fs.go\<close> and \<open>controller_block.go\<close>,
  with the checks of capacity ranges and capabilities of \<open>volumes.go\<close> and \<open>controller.go\<close>
  they use, and the dispatch of \<open>zVolumeInterface\<close>.  A method takes the reference of its
  receiver.  The messages printed to the log are left out, except where evaluating their
  arguments can panic.
\<close>

section \<open>Requests\<close>

record capability =
  capBlock :: bool                          \<comment> \<open>\<open>GetBlock() != nil\<close>\<close>
  capAccessMode :: "access_mode option"     \<comment> \<open>the pointer \<open>AccessMode\<close>\<close>

record capacity_range =
  RequiredBytes :: int
  LimitBytes :: int

datatype content_source =
    SnapshotSource string
  | VolumeSource string
  | NoSourceType

record CreateVolumeRequest =
  cvName :: string
  cvCapacityRange :: "capacity_range option"
  cvVolumeCapabilities :: "capability list"
  cvParameters :: params
  cvSecrets :: "params option"
  cvVolumeContentSource :: "content_source option"

record CreateVolumeResponse =
  cvrVolumeId :: string
  cvrCapacityBytes :: int
  cvrVolumeContext :: params
  cvrContentSource :: "content_source option"

text \<open>\<open>Confirmed\<close> and \<open>Message\<close>\<close>

record ValidateResponse =
  vvrConfirmed :: "capability list option"
  vvrMessage :: string

text \<open>An entry of \<open>ListSnapshotsResponse\<close>, and the snapshot of \<open>CreateSnapshotResponse\<close>.\<close>

record csi_snapshot =
  csSizeBytes :: int
  csSnapshotId :: string
  csSourceVolumeId :: string
  csCreationTime :: "int option"
  csReadyToUse :: bool

section \<open>Sizes and capabilities\<close>

definition DefaultVolumeSizeBytes :: int where
  "DefaultVolumeSizeBytes = 50 * 1024 * 1024 * 1024"

definition getVolumeSize :: "capacity_range option \<Rightarrow> int" where
  "getVolumeSize capRange = (case capRange of
     None \<Rightarrow> DefaultVolumeSizeBytes
   | Some r \<Rightarrow>
       if RequiredBytes r > 0 then RequiredBytes r
       else if LimitBytes r > 0 \<and> LimitBytes r < DefaultVolumeSizeBytes then LimitBytes r
       else DefaultVolumeSizeBytes)"

definition compareCapacityRange :: "capacity_range option \<Rightarrow> int \<Rightarrow> bool" where
  "compareCapacityRange req capacity = (case req of
     None \<Rightarrow> True
   | Some r \<Rightarrow>
       if LimitBytes r \<noteq> 0 \<and> LimitBytes r < capacity then False
       else if RequiredBytes r \<noteq> 0 \<and> RequiredBytes r > capacity then False
       else True)"

fun isBlock :: "capability list \<Rightarrow> bool" where
  "isBlock [] = True"
| "isBlock (c # cs) = (if \<not> capBlock c then False else isBlock cs)"

text \<open>\<open>GetMode\<close> of a nil \<open>AccessMode\<close> is UNKNOWN; \<open>GetAccessMode().Mode\<close> of it panics.\<close>

definition GetMode :: "access_mode option \<Rightarrow> access_mode" where
  "GetMode m = (case m of None \<Rightarrow> UNKNOWN | Some m' \<Rightarrow> m')"

definition filesystemAccessModes :: "access_mode list" where
  "filesystemAccessModes = [SINGLE_NODE_WRITER, MULTI_NODE_MULTI_WRITER, SINGLE_NODE_READER_ONLY,
     MULTI_NODE_READER_ONLY, SINGLE_NODE_READER_ONLY]"

definition blockVolumeCaps :: "access_mode list" where
  "blockVolumeCaps = [SINGLE_NODE_WRITER]"

definition areFilesystemVolumeCapsValid :: "capability list \<Rightarrow> bool" where
  "areFilesystemVolumeCapsValid volCaps \<longleftrightarrow>
     list_all (\<lambda>c. GetMode (capAccessMode c) \<in> set filesystemAccessModes) volCaps"

definition areBlockVolumeCapsValid :: "capability list \<Rightarrow> bool" where
  "areBlockVolumeCapsValid volCaps \<longleftrightarrow>
     list_all (\<lambda>c. GetMode (capAccessMode c) \<in> set blockVolumeCaps) volCaps"

fun hasSupport :: "capability \<Rightarrow> access_mode list \<Rightarrow> bool \<Rightarrow> ('s, bool) go" where
  "hasSupport cap [] block = retG False"
| "hasSupport cap (c # cs) block =
     (if (block \<and> capBlock cap) \<or> (\<not> block \<and> \<not> capBlock cap)
      then (case capAccessMode cap of
          None \<Rightarrow> panicG ''nil pointer dereference''
        | Some m \<Rightarrow> if m = c then retG True else hasSupport cap cs block)
      else hasSupport cap cs block)"

fun compareCapabilities :: "capability list \<Rightarrow> access_mode list \<Rightarrow> bool \<Rightarrow> ('s, bool) go" where
  "compareCapabilities [] cur block = retG True"
| "compareCapabilities (c # cs) cur block =
     bindG (hasSupport c cur block) (\<lambda>ok.
     if \<not> ok then retG False else compareCapabilities cs cur block)"

section \<open>Filesystems\<close>

datatype volInfo = FilesystemInfo Filesystem | LunInfo Lun

definition getFS :: "nat \<Rightarrow> (('w, 'b) driver_scheme, zFilesystem) go" where
  "getFS r = derefG (\<lambda>s. case vols s r of Some (FS f) \<Rightarrow> Some f | _ \<Rightarrow> None)"

fun onFS :: "(zFilesystem \<Rightarrow> zFilesystem) \<Rightarrow> zVolumeInterface \<Rightarrow> zVolumeInterface" where
  "onFS f (FS v) = FS (f v)"
| "onFS f (LUN v) = LUN v"

definition modFS :: "nat \<Rightarrow> (zFilesystem \<Rightarrow> zFilesystem) \<Rightarrow> (('w, 'b) driver_scheme, unit) go" where
  "modFS r f = modG (\<lambda>s. s\<lparr>vols := (vols s)(r := map_option (onFS f) (vols s r))\<rparr>)"

definition fs_setInfo :: "nat \<Rightarrow> volInfo \<Rightarrow> (('w, 'b) driver_scheme, unit) go" where
  "fs_setInfo r info = (case info of
     FilesystemInfo fsinfo \<Rightarrow> modFS r (\<lambda>fs. fs\<lparr>vCapacity := fsQuota fsinfo,
       vMountpoint := fsMountPoint fsinfo, vHref := fsHref fsinfo,
       vAccessModes := (if fsReadOnly fsinfo then drop 2 filesystemAccessModes
                        else filesystemAccessModes),
       vState := stateCreated\<rparr>)
   | LunInfo _ \<Rightarrow> panicG ''fs.setInfo called with wrong type'')"

definition params_default :: "string \<Rightarrow> string \<Rightarrow> params \<Rightarrow> params" where
  "params_default k v ps = (if map_of ps k = None then AList.update k v ps else ps)"

definition fs_created ::
  "nat \<Rightarrow> params \<Rightarrow> content_source option \<Rightarrow>
     (('w, 'b) driver_scheme, gerror + CreateVolumeResponse) go" where
  "fs_created r ps src = bindG (getFS r) (\<lambda>fs.
     retG (Inr \<lparr>cvrVolumeId = VolumeId_String (vId fs), cvrCapacityBytes = vCapacity fs,
       cvrVolumeContext = ps, cvrContentSource = src\<rparr>))"

text \<open>Update the structure and pass the mount point on in the volume context.\<close>

definition fs_refresh ::
  "nat \<Rightarrow> Filesystem \<Rightarrow> params \<Rightarrow> (('w, 'b) driver_scheme, params) go" where
  "fs_refresh r fsinfo ps = seqG (fs_setInfo r (FilesystemInfo fsinfo))
     (bindG (getFS r) (\<lambda>fs. retG (AList.update ''mountpoint'' (vMountpoint fs) ps)))"

definition fs_create ::
  "'w env \<Rightarrow> nat \<Rightarrow> nat \<Rightarrow> CreateVolumeRequest \<Rightarrow>
     (('w, 'b) driver_scheme, gerror + CreateVolumeResponse) go" where
  "fs_create env t r req =
     (let ps = params_default ''shareNFS'' ''on''
                 (params_default ''restrictChown'' ''false'' (cvParameters req)) in
     bindG (CreateFilesystem env t (cvName req) (getVolumeSize (cvCapacityRange req)) ps)
     (\<lambda>(httpStatus, res). case res of
       Inr fsinfo \<Rightarrow> bindG (fs_refresh r fsinfo ps) (\<lambda>ps'. fs_created r ps' None)
     | Inl err \<Rightarrow>
         if httpStatus \<noteq> StatusConflict
         then seqG (modFS r (\<lambda>fs. fs\<lparr>vState := stateDeleted\<rparr>)) (retG (Inl err))
         else
         bindG (getFS r) (\<lambda>fs.
         tryG (if vState fs = stateCreated
               then bindG (GetFilesystem env t (param ps ''pool'') (param ps ''project'') (cvName req))
                 (\<lambda>(_, res'). case res' of
                    Inl err' \<Rightarrow> retG (Inl err')
                  | Inr fsinfo \<Rightarrow> bindG (fs_refresh r fsinfo ps) (\<lambda>ps'. retG (Inr ps')))
               else retG (Inr ps))
         (\<lambda>ps'.
         bindG (getFS r) (\<lambda>fs.
         if \<not> compareCapacityRange (cvCapacityRange req) (vCapacity fs)
         then failG AlreadyExists ''Volume (%s) is already on target (%s), capacity range incompatible (%v), requested (%v/%v)''
         else
         bindG (compareCapabilities (cvVolumeCapabilities req) (vAccessModes fs) False) (\<lambda>ok.
         if \<not> ok
         then failG AlreadyExists ''Volume (%s) is already on target (%s), accessModes are incompatible''
         else fs_created r ps' None))))))"

definition fs_cloneSnapshot ::
  "'w env \<Rightarrow> nat \<Rightarrow> nat \<Rightarrow> CreateVolumeRequest \<Rightarrow> zSnapshot \<Rightarrow>
     (('w, 'b) driver_scheme, gerror + CreateVolumeResponse) go" where
  "fs_cloneSnapshot env t r req zsnap =
     bindG (CloneFileSystemSnapshot env t (zHref zsnap)
       [''project'' \<mapsto> JStr (param (cvParameters req) ''project''), ''share'' \<mapsto> JStr (cvName req)])
     (\<lambda>(_, res). case res of
       Inl err \<Rightarrow> retG (Inl err)
     | Inr fsinfo \<Rightarrow> bindG (fs_refresh r fsinfo (cvParameters req)) (\<lambda>ps.
         fs_created r ps (cvVolumeContentSource req)))"

definition fs_delete :: "'w env \<Rightarrow> nat \<Rightarrow> nat \<Rightarrow> (('w, 'b) driver_scheme, gerror + unit) go" where
  "fs_delete env t r =
     bindG (getFS r) (\<lambda>fs.
     tryG (GetSnapshots env t (vHref fs)) (\<lambda>snaplist.
     if length snaplist > 0
     then failG FailedPrecondition ''filesysytem (%s) has snapshots''
     else
     bindG (DeleteFilesystem env t (vHref fs)) (\<lambda>(httpStatus, res).
     case res of
       Inl err \<Rightarrow>
         if httpStatus \<noteq> StatusNotFound then retG (Inl err)
         else seqG (modFS r (\<lambda>fs. fs\<lparr>vState := stateDeleted\<rparr>)) (retG (Inr ()))
     | Inr _ \<Rightarrow> seqG (modFS r (\<lambda>fs. fs\<lparr>vState := stateDeleted\<rparr>)) (retG (Inr ())))))"

definition fs_cloneVolume :: "(('w, 'b) driver_scheme, gerror + CreateVolumeResponse) go" where
  "fs_cloneVolume = failG Unimplemented ''Filesystem cloneVolume not implemented yet''"

definition fs_controllerPublishVolume :: "(('w, 'b) driver_scheme, gerror + unit) go" where
  "fs_controllerPublishVolume = retG (Inr ())"

definition fs_controllerUnpublishVolume :: "(('w, 'b) driver_scheme, gerror + unit) go" where
  "fs_controllerUnpublishVolume = retG (Inr ())"

definition validated :: "bool \<Rightarrow> capability list \<Rightarrow> ValidateResponse" where
  "validated ok caps =
     (if ok then \<lparr>vvrConfirmed = Some caps, vvrMessage = []\<rparr>
      else \<lparr>vvrConfirmed = None, vvrMessage = ''One or more volume accessModes failed''\<rparr>)"

definition fs_validateVolumeCapabilities ::
  "capability list \<Rightarrow> (('w, 'b) driver_scheme, gerror + ValidateResponse) go" where
  "fs_validateVolumeCapabilities caps = retG (Inr (validated (areFilesystemVolumeCapsValid caps) caps))"

definition fs_controllerExpandVolume ::
  "'w env \<Rightarrow> nat \<Rightarrow> nat \<Rightarrow> capacity_range option \<Rightarrow> (('w, 'b) driver_scheme, gerror + int) go" where
  "fs_controllerExpandVolume env t r capRange = (case capRange of
     None \<Rightarrow> panicG ''nil pointer dereference''
   | Some rng \<Rightarrow>
     bindG (getFS r) (\<lambda>fs.
     let reqCapacity = RequiredBytes rng in
     if vCapacity fs \<ge> reqCapacity then retG (Inr (vCapacity fs))
     else
     bindG (ModifyFilesystem env t (vHref fs)
       [''quota'' \<mapsto> JInt reqCapacity, ''reservation'' \<mapsto> JInt reqCapacity]) (\<lambda>(_, res). case res of
       Inl err \<Rightarrow> retG (Inl err)
     | Inr fsinfo \<Rightarrow>
         seqG (modFS r (\<lambda>fs. fs\<lparr>vCapacity := fsQuota fsinfo\<rparr>)) (retG (Inr (fsQuota fsinfo))))))"

definition fs_getDetails :: "'w env \<Rightarrow> nat \<Rightarrow> nat \<Rightarrow> (('w, 'b) driver_scheme, int \<times> gerror option) go" where
  "fs_getDetails env t r =
     bindG (getFS r) (\<lambda>fs.
     bindG (GetFilesystem env t (vidPool (vId fs)) (vidProject (vId fs)) (vidName (vId fs)))
     (\<lambda>(httpStatus, res). case res of
       Inl err \<Rightarrow> retG (httpStatus, Some err)
     | Inr fsinfo \<Rightarrow> seqG (fs_setInfo r (FilesystemInfo fsinfo)) (retG (httpStatus, None))))"

definition validateCreateFilesystemVolumeReq :: "capability list \<Rightarrow> gerror option" where
  "validateCreateFilesystemVolumeReq reqCaps =
     (if \<not> areFilesystemVolumeCapsValid reqCaps
      then Some (GStatus InvalidArgument ''invalid volume accessModes'') else None)"

section \<open>LUNs\<close>

definition getLUN :: "nat \<Rightarrow> (('w, 'b) driver_scheme, zLUN) go" where
  "getLUN r = derefG (\<lambda>s. case vols s r of Some (LUN l) \<Rightarrow> Some l | _ \<Rightarrow> None)"

fun onLUN :: "(zLUN \<Rightarrow> zLUN) \<Rightarrow> zVolumeInterface \<Rightarrow> zVolumeInterface" where
  "onLUN f (LUN v) = LUN (f v)"
| "onLUN f (FS v) = FS v"

definition modLUN :: "nat \<Rightarrow> (zLUN \<Rightarrow> zLUN) \<Rightarrow> (('w, 'b) driver_scheme, unit) go" where
  "modLUN r f = modG (\<lambda>s. s\<lparr>vols := (vols s)(r := map_option (onLUN f) (vols s r))\<rparr>)"

definition lun_setInfo :: "nat \<Rightarrow> volInfo \<Rightarrow> (('w, 'b) driver_scheme, unit) go" where
  "lun_setInfo r info = (case info of
     LunInfo luninfo \<Rightarrow> modLUN r (\<lambda>lun. lun\<lparr>vCapacity := int64_of_float (lunVolumeSize luninfo),
       vHref := lunHref luninfo, vInitiatorgroup := lunInitiatorGroup luninfo,
       vTargetgroup := lunTargetGroup luninfo, vState := stateCreated\<rparr>)
   | FilesystemInfo _ \<Rightarrow> panicG ''lun.setInfo called with wrong type'')"

definition lun_created ::
  "nat \<Rightarrow> CreateVolumeRequest \<Rightarrow> content_source option \<Rightarrow>
     (('w, 'b) driver_scheme, gerror + CreateVolumeResponse) go" where
  "lun_created r req src = bindG (getLUN r) (\<lambda>lun.
     retG (Inr \<lparr>cvrVolumeId = VolumeId_String (vId lun), cvrCapacityBytes = vCapacity lun,
       cvrVolumeContext = cvParameters req, cvrContentSource = src\<rparr>))"

text \<open>
  The variable \<open>luninfo\<close> assigned inside the conflict branch is a new one: the outer one is
  still nil when its fields are printed after that branch.
\<close>

definition lun_create ::
  "'w env \<Rightarrow> nat \<Rightarrow> nat \<Rightarrow> CreateVolumeRequest \<Rightarrow>
     (('w, 'b) driver_scheme, gerror + CreateVolumeResponse) go" where
  "lun_create env t r req =
     bindG (CreateLUN env t (cvName req) (getVolumeSize (cvCapacityRange req)) (cvParameters req))
     (\<lambda>(httpStatus, res). case res of
       Inr (_, luninfo) \<Rightarrow>
         seqG (lun_setInfo r (LunInfo luninfo))
         (bindG (indexG (lunAssignedNumber luninfo) 0) (\<lambda>_. lun_created r req None))
     | Inl err \<Rightarrow>
         if httpStatus \<noteq> StatusConflict
         then seqG (modLUN r (\<lambda>lun. lun\<lparr>vState := stateDeleted\<rparr>)) (retG (Inl err))
         else
         bindG (getLUN r) (\<lambda>lun.
         tryG (if vState lun = stateCreated
               then bindG (GetLun env t (param (cvParameters req) ''pool'')
                             (param (cvParameters req) ''project'') (cvName req))
                 (\<lambda>(_, res'). case res' of
                    Inl err' \<Rightarrow> retG (Inl err')
                  | Inr luninfo \<Rightarrow> seqG (lun_setInfo r (LunInfo luninfo)) (retG (Inr ())))
               else retG (Inr ()))
         (\<lambda>_.
         bindG (getLUN r) (\<lambda>lun.
         if \<not> compareCapacityRange (cvCapacityRange req) (vCapacity lun)
         then failG AlreadyExists ''Volume (%s) is already on target (%s), capacity range incompatible (%v), requested (%v/%v)''
         else
         bindG (compareCapabilities (cvVolumeCapabilities req) (vAccessModes lun) True) (\<lambda>ok.
         if \<not> ok
         then failG AlreadyExists ''Volume (%s) is already on target (%s), accessModes are incompatible''
         else panicG ''nil pointer dereference'')))))"

definition lun_cloneSnapshot ::
  "'w env \<Rightarrow> nat \<Rightarrow> nat \<Rightarrow> CreateVolumeRequest \<Rightarrow> zSnapshot \<Rightarrow>
     (('w, 'b) driver_scheme, gerror + CreateVolumeResponse) go" where
  "lun_cloneSnapshot env t r req zsnap =
     bindG (CloneLunSnapshot env t (zHref zsnap)
       [''project'' \<mapsto> JStr (param (cvParameters req) ''project''), ''share'' \<mapsto> JStr (cvName req),
        ''initiatorgroup'' \<mapsto> JStrs [MaskAll]])
     (\<lambda>(_, res). case res of
       Inl err \<Rightarrow> retG (Inl err)
     | Inr luninfo \<Rightarrow>
         seqG (lun_setInfo r (LunInfo luninfo)) (lun_created r req (cvVolumeContentSource req)))"

definition lun_delete :: "'w env \<Rightarrow> nat \<Rightarrow> nat \<Rightarrow> (('w, 'b) driver_scheme, gerror + unit) go" where
  "lun_delete env t r =
     bindG (getLUN r) (\<lambda>lun.
     if vState lun = stateCreated
     then
     bindG (DeleteLun env t (vidPool (vId lun)) (vidProject (vId lun)) (vidName (vId lun)))
     (\<lambda>(httpStatus, res). case res of
       Inl err \<Rightarrow>
         if httpStatus \<noteq> StatusNotFound then retG (Inl err)
         else seqG (modLUN r (\<lambda>lun. lun\<lparr>vState := stateDeleted\<rparr>)) (retG (Inr ()))
     | Inr _ \<Rightarrow> seqG (modLUN r (\<lambda>lun. lun\<lparr>vState := stateDeleted\<rparr>)) (retG (Inr ())))
     else retG (Inr ()))"

definition lun_cloneVolume :: "(('w, 'b) driver_scheme, gerror + CreateVolumeResponse) go" where
  "lun_cloneVolume = failG Unimplemented ''LUN cloneVolume not implemented yet''"

text \<open>The log line before the length check indexes the list.\<close>

definition lun_controllerPublishVolume ::
  "'w env \<Rightarrow> nat \<Rightarrow> nat \<Rightarrow> string \<Rightarrow> (('w, 'b) driver_scheme, gerror + unit) go" where
  "lun_controllerPublishVolume env t r nodeName =
     bindG (getLUN r) (\<lambda>lun.
     let pool = vidPool (vId lun); project = vidProject (vId lun); name = vidName (vId lun) in
     tryG (GetInitiatorGroupList env t pool project name) (\<lambda>l.
     bindG (indexG l 0) (\<lambda>l0.
     if length l \<noteq> 1 \<or> l0 \<noteq> MaskAll
     then failG FailedPrecondition
       (if length l > 0 then ''Volume (%s:%s) may already be published''
        else ''Volume (%s) did not return an initiator group list'')
     else
     bindG (SetInitiatorGroupList env t pool project name nodeName) (\<lambda>(_, err). case err of
       Some e \<Rightarrow> retG (Inl e) | None \<Rightarrow> retG (Inr ())))))"

definition lun_controllerUnpublishVolume ::
  "'w env \<Rightarrow> nat \<Rightarrow> nat \<Rightarrow> (('w, 'b) driver_scheme, gerror + unit) go" where
  "lun_controllerUnpublishVolume env t r =
     bindG (getLUN r) (\<lambda>lun.
     bindG (SetInitiatorGroupList env t (vidPool (vId lun)) (vidProject (vId lun)) (vidName (vId lun)) MaskAll)
     (\<lambda>(code, err). case err of
       Some e \<Rightarrow> if code \<noteq> 404 then retG (Inl e) else retG (Inr ())
     | None \<Rightarrow> retG (Inr ())))"

definition lun_validateVolumeCapabilities ::
  "capability list \<Rightarrow> (('w, 'b) driver_scheme, gerror + ValidateResponse) go" where
  "lun_validateVolumeCapabilities caps = retG (Inr (validated (areBlockVolumeCapsValid caps) caps))"

definition lun_controllerExpandVolume :: "(('w, 'b) driver_scheme, gerror + int) go" where
  "lun_controllerExpandVolume = failG OutOfRange ''Not allowed for block devices''"

definition lun_getDetails :: "'w env \<Rightarrow> nat \<Rightarrow> nat \<Rightarrow> (('w, 'b) driver_scheme, int \<times> gerror option) go" where
  "lun_getDetails env t r =
     bindG (getLUN r) (\<lambda>lun.
     bindG (GetLun env t (vidPool (vId lun)) (vidProject (vId lun)) (vidName (vId lun)))
     (\<lambda>(httpStatus, res). case res of
       Inl err \<Rightarrow> retG (httpStatus, Some err)
     | Inr lunInfo \<Rightarrow> seqG (lun_setInfo r (LunInfo lunInfo)) (retG (httpStatus, None))))"

definition validateCreateBlockVolumeReq ::
  "'w env \<Rightarrow> nat \<Rightarrow> CreateVolumeRequest \<Rightarrow> (('w, 'b) driver_scheme, gerror option) go" where
  "validateCreateBlockVolumeReq env t req =
     (if \<not> areBlockVolumeCapsValid (cvVolumeCapabilities req)
      then retG (Some (GStatus InvalidArgument ''invalid volume accessModes''))
      else case map_of (cvParameters req) ''targetGroup'' of
        None \<Rightarrow> retG (Some (GStatus InvalidArgument ''a valid ZFSSA target group is required ''))
      | Some tg \<Rightarrow>
          if length tg < 1
          then retG (Some (GStatus InvalidArgument ''a valid ZFSSA target group is required ''))
          else bindG (GetTargetGroup env t ''iscsi'' tg) (\<lambda>res. case res of
            Inl err \<Rightarrow> retG (Some err) | Inr _ \<Rightarrow> retG None))"

end
