(* ===== verification/Snapshots.thy ===== *)
theory Snapshots
  imports Volumes
begin

text \<open>
  The methods of a snapshot (\<open>snapshots.go\<close>), the conversion of the appliance's snapshot
  list, and the dispatch of the methods of \<open>zVolumeInterface\<close> on the kind of volume.
\<close>

section \<open>Snapshots\<close>

definition getSnap :: "nat \<Rightarrow> (('w, 'b) driver_scheme, zSnapshot) go" where
  "getSnap z = derefG (\<lambda>s. snaps s z)"

definition modSnap :: "nat \<Rightarrow> (zSnapshot \<Rightarrow> zSnapshot) \<Rightarrow> (('w, 'b) driver_scheme, unit) go" where
  "modSnap z f = modG (\<lambda>s. s\<lparr>snaps := (snaps s)(z := map_option f (snaps s z))\<rparr>)"

text \<open>\<open>zsnap.zvol.getHref()\<close>\<close>

definition source_href :: "nat \<Rightarrow> (('w, 'b) driver_scheme, string) go" where
  "source_href z = bindG (getSnap z) (\<lambda>zsnap.
     bindG (derefG (\<lambda>s. vols s (zVol zsnap))) (\<lambda>v. retG (getHref v)))"

text \<open>The time stamp is assigned before the error is tested.\<close>

definition snap_setInfo :: "'w env \<Rightarrow> nat \<Rightarrow> Snapshot \<Rightarrow> (('w, 'b) driver_scheme, gerror option) go" where
  "snap_setInfo env z snapinfo =
     bindG (DateToUnix (envClock env) (snCreation snapinfo)) (\<lambda>(tm, err).
     seqG (modSnap z (\<lambda>zs. zs\<lparr>zTimeStamp := tm\<rparr>))
     (case err of
        Some e \<Rightarrow> retG (Some e)
      | None \<Rightarrow>
          seqG (modSnap z (\<lambda>zs. zs\<lparr>zNumClones := snNumClones snapinfo,
            zSpaceData := snSpaceData snapinfo, zSpaceUnique := snSpaceUnique snapinfo,
            zHref := snHref snapinfo, zState := stateCreated\<rparr>))
          (retG None)))"

definition snap_create :: "'w env \<Rightarrow> nat \<Rightarrow> nat \<Rightarrow> (('w, 'b) driver_scheme, gerror + csi_snapshot) go" where
  "snap_create env t z =
     bindG (source_href z) (\<lambda>href.
     bindG (getSnap z) (\<lambda>zsnap.
     bindG (rest_CreateSnapshot env t href (sidName (zId zsnap))) (\<lambda>(httpStatus, res).
     tryG
       (let setInfo = (\<lambda>snapinfo. bindG (snap_setInfo env z snapinfo) (\<lambda>e. case e of
               Some err \<Rightarrow> seqG (modSnap z (\<lambda>zs. zs\<lparr>zState := stateDeleted\<rparr>)) (retG (Inl err))
             | None \<Rightarrow> retG (Inr ())))
        in case res of
          Inr snapinfo \<Rightarrow> setInfo snapinfo
        | Inl err \<Rightarrow>
            if httpStatus \<noteq> StatusConflict
            then seqG (modSnap z (\<lambda>zs. zs\<lparr>zState := stateDeleted\<rparr>)) (retG (Inl err))
            else
            bindG (getSnap z) (\<lambda>zsnap.
            if zState zsnap = stateCreated
            then
              bindG (source_href z) (\<lambda>href.
              bindG (GetSnapshot env t href (sidName (zId zsnap))) (\<lambda>(_, res').
              case res' of Inl err' \<Rightarrow> retG (Inl err') | Inr snapinfo \<Rightarrow> setInfo snapinfo))
            else retG (Inr ())))
     (\<lambda>_.
     bindG (getSnap z) (\<lambda>zsnap.
     retG (Inr \<lparr>csSizeBytes = zSpaceData zsnap, csSnapshotId = SnapshotId_String (zId zsnap),
       csSourceVolumeId = VolumeId_String (sidVolumeId (zId zsnap)),
       csCreationTime = zTimeStamp zsnap, csReadyToUse = True\<rparr>))))))"

definition snap_refreshDetails ::
  "'w env \<Rightarrow> nat \<Rightarrow> nat \<Rightarrow> (('w, 'b) driver_scheme, int \<times> gerror option) go" where
  "snap_refreshDetails env t z =
     bindG (source_href z) (\<lambda>href.
     bindG (getSnap z) (\<lambda>zsnap.
     bindG (GetSnapshot env t href (sidName (zId zsnap))) (\<lambda>(httpStatus, res). case res of
       Inl err \<Rightarrow> retG (httpStatus, Some err)
     | Inr snapinfo \<Rightarrow>
         seqG (modSnap z (\<lambda>zs. zs\<lparr>zNumClones := snNumClones snapinfo,
           zSpaceData := snSpaceData snapinfo, zSpaceUnique := snSpaceUnique snapinfo\<rparr>))
         (retG (httpStatus, None)))))"

definition snap_delete :: "'w env \<Rightarrow> nat \<Rightarrow> nat \<Rightarrow> (('w, 'b) driver_scheme, gerror + unit) go" where
  "snap_delete env t z =
     bindG (snap_refreshDetails env t z) (\<lambda>(httpStatus, err). case err of
       Some e \<Rightarrow>
         if httpStatus \<noteq> StatusNotFound then retG (Inl e)
         else seqG (modSnap z (\<lambda>zs. zs\<lparr>zState := stateDeleted\<rparr>)) (retG (Inr ()))
     | None \<Rightarrow>
         bindG (getSnap z) (\<lambda>zsnap.
         if zNumClones zsnap > 0
         then failG FailedPrecondition ''Snapshot has (%d) dependents''
         else
         bindG (rest_DeleteSnapshot env t (zHref zsnap)) (\<lambda>(httpStatus, res). case res of
           Inl e \<Rightarrow>
             if httpStatus \<noteq> StatusNotFound then retG (Inl e)
             else seqG (modSnap z (\<lambda>zs. zs\<lparr>zState := stateDeleted\<rparr>)) (retG (Inr ()))
         | Inr _ \<Rightarrow> seqG (modSnap z (\<lambda>zs. zs\<lparr>zState := stateDeleted\<rparr>)) (retG (Inr ())))))"

definition snap_getDetails ::
  "'w env \<Rightarrow> nat \<Rightarrow> nat \<Rightarrow> (('w, 'b) driver_scheme, int \<times> gerror option) go" where
  "snap_getDetails env t z =
     bindG (source_href z) (\<lambda>href.
     bindG (getSnap z) (\<lambda>zsnap.
     bindG (GetSnapshot env t href (sidName (zId zsnap))) (\<lambda>(httpStatus, res). case res of
       Inl err \<Rightarrow> retG (httpStatus, Some err)
     | Inr snapinfo \<Rightarrow>
         bindG (DateToUnix (envClock env) (snCreation snapinfo)) (\<lambda>(tm, err).
         seqG (modSnap z (\<lambda>zs. zs\<lparr>zTimeStamp := tm\<rparr>))
         (case err of
            Some e \<Rightarrow> retG (httpStatus, Some e)
          | None \<Rightarrow>
              seqG (modSnap z (\<lambda>zs. zs\<lparr>zNumClones := snNumClones snapinfo,
                zSpaceData := snSpaceData snapinfo, zSpaceUnique := snSpaceUnique snapinfo,
                zHref := snHref snapinfo, zState := stateCreated\<rparr>))
              (retG (httpStatus, None)))))))"

text \<open>Snapshots that are not those of a share, or have no readable date, are left out.\<close>

fun zfssaSnapshotList2csiSnapshotList ::
  "'w env \<Rightarrow> string \<Rightarrow> Snapshot list \<Rightarrow> ('s, csi_snapshot list) go" where
  "zfssaSnapshotList2csiSnapshotList env zfssa [] = retG []"
| "zfssaSnapshotList2csiSnapshotList env zfssa (snapInfo # snapList) =
     (case SnapshotIdStringFromHref zfssa (snHref snapInfo) of
        Inl _ \<Rightarrow> zfssaSnapshotList2csiSnapshotList env zfssa snapList
      | Inr sid \<Rightarrow> (case VolumeIdStringFromHref zfssa (snHref snapInfo) of
          Inl _ \<Rightarrow> zfssaSnapshotList2csiSnapshotList env zfssa snapList
        | Inr vid \<Rightarrow>
            bindG (DateToUnix (envClock env) (snCreation snapInfo)) (\<lambda>(creationTime, err).
            if err \<noteq> None then zfssaSnapshotList2csiSnapshotList env zfssa snapList
            else bindG (zfssaSnapshotList2csiSnapshotList env zfssa snapList) (\<lambda>entries.
              retG (\<lparr>csSizeBytes = snSpaceData snapInfo, csSnapshotId = sid,
                csSourceVolumeId = vid, csCreationTime = creationTime, csReadyToUse = True\<rparr>
                # entries)))))"

section \<open>The methods of a volume\<close>

text \<open>A call through the interface runs the method of the dynamic type.\<close>

definition zvol_call ::
  "nat \<Rightarrow> (('w, 'b) driver_scheme, 'a) go \<Rightarrow> (('w, 'b) driver_scheme, 'a) go \<Rightarrow>
     (('w, 'b) driver_scheme, 'a) go" where
  "zvol_call r fs lun = bindG (derefG (\<lambda>s. vols s r)) (\<lambda>v. case v of FS _ \<Rightarrow> fs | LUN _ \<Rightarrow> lun)"

definition zvol_create where
  "zvol_create env t r req = zvol_call r (fs_create env t r req) (lun_create env t r req)"

definition zvol_cloneSnapshot where
  "zvol_cloneSnapshot env t r req zsnap =
     zvol_call r (fs_cloneSnapshot env t r req zsnap) (lun_cloneSnapshot env t r req zsnap)"

definition zvol_cloneVolume where
  "zvol_cloneVolume r = zvol_call r fs_cloneVolume lun_cloneVolume"

definition zvol_delete where
  "zvol_delete env t r = zvol_call r (fs_delete env t r) (lun_delete env t r)"

definition zvol_controllerPublishVolume where
  "zvol_controllerPublishVolume env t r nodeName =
     zvol_call r fs_controllerPublishVolume (lun_controllerPublishVolume env t r nodeName)"

definition zvol_controllerUnpublishVolume where
  "zvol_controllerUnpublishVolume env t r =
     zvol_call r fs_controllerUnpublishVolume (lun_controllerUnpublishVolume env t r)"

definition zvol_validateVolumeCapabilities where
  "zvol_validateVolumeCapabilities r caps =
     zvol_call r (fs_validateVolumeCapabilities caps) (lun_validateVolumeCapabilities caps)"

definition zvol_controllerExpandVolume where
  "zvol_controllerExpandVolume env t r rng =
     zvol_call r (fs_controllerExpandVolume env t r rng) lun_controllerExpandVolume"

definition zvol_getDetails where
  "zvol_getDetails env t r = zvol_call r (fs_getDetails env t r) (lun_getDetails env t r)"

definition zvol_setInfo where
  "zvol_setInfo r info = zvol_call r (fs_setInfo r info) (lun_setInfo r info)"

text \<open>The two \<open>getSnapshotsList\<close> methods are the same.\<close>

definition zvol_getSnapshotsList ::
  "'w env \<Rightarrow> nat \<Rightarrow> nat \<Rightarrow> (('w, 'b) driver_scheme, gerror + csi_snapshot list) go" where
  "zvol_getSnapshotsList env t r =
     bindG (derefG (\<lambda>s. vols s r)) (\<lambda>v.
     tryG (GetSnapshots env t (getHref v)) (\<lambda>snapList.
     bindG (derefG (\<lambda>s. restHeap s t)) (\<lambda>token.
     bindG (zfssaSnapshotList2csiSnapshotList env (tokName token) snapList) (\<lambda>l. retG (Inr l)))))"

end
