(* ===== verification/Cache.thy ===== *)
theory Cache
  imports Login Snapshots
begin

text \<open>
  \<open>volumes.go\<close>: getting exclusive access to volumes and snapshots, giving it back, and the
  lists.  \<open>c\<close> is the context of the request.  A request runs alone here; the interleavings
  of several are the subject of \<open>CacheProtocol\<close>.
\<close>

section \<open>Volumes\<close>

definition newVol :: "zVolumeInterface \<Rightarrow> (('w, 'b) driver_scheme, nat) go" where
  "newVol v = bindG (getG nextRef) (\<lambda>r. seqG (modG (\<lambda>s. (putVol r v s)\<lparr>nextRef := Suc r\<rparr>)) (retG r))"

definition newSnap :: "zSnapshot \<Rightarrow> (('w, 'b) driver_scheme, nat) go" where
  "newSnap z = bindG (getG nextRef) (\<lambda>r. seqG (modG (\<lambda>s. (putSnap r z s)\<lparr>nextRef := Suc r\<rparr>)) (retG r))"

definition releaseVolume :: "ctx \<Rightarrow> nat \<Rightarrow> (('w, 'b) driver_scheme, unit) go" where
  "releaseVolume c zvol =
     seqG vCache_RLock
     (bindG (vol_release zvol) (\<lambda>(refCount, state).
      if refCount = 0 \<and> state \<noteq> stateCreated
      then seqG vCache_RUnlock
          (seqG vCache_Lock
          (bindG (vol_unlock c zvol) (\<lambda>(refCount, state).
           seqG (if refCount = 0 \<and> state \<noteq> stateCreated
                 then bindG (derefG (\<lambda>s. vols s zvol)) (\<lambda>v. vCache_delete (getName v))
                 else retG ())
           vCache_Unlock)))
      else seqG (vol_unlock c zvol) vCache_RUnlock))"

definition newVolume ::
  "ctx \<Rightarrow> string \<Rightarrow> string \<Rightarrow> string \<Rightarrow> bool \<Rightarrow> (('w, 'b) driver_scheme, gerror + nat) go" where
  "newVolume c pool project name block =
     bindG (getG cfgAppliance) (\<lambda>appliance.
     bindG (newVol (if block
        then newLUN (NewVolumeId BlockVolume appliance pool project name)
        else newFilesystem (NewVolumeId MountVolume appliance pool project name))) (\<lambda>zvolNew.
     seqG vCache_Lock
     (bindG (vCache_lookup name) (\<lambda>zvol. case zvol of
       Some zvol \<Rightarrow>
         seqG (vol_hold zvol)
         (seqG vCache_Unlock
         (bindG (vol_lock c zvol) (\<lambda>state.
          if state \<noteq> stateCreated
          then seqG (releaseVolume c zvol) (failG Aborted ''volume busy (%s)'')
          else retG (Inr zvol))))
     | None \<Rightarrow>
         seqG (vCache_add name zvolNew)
         (seqG (vol_hold zvolNew)
         (seqG (vol_lock c zvolNew)
         (seqG vCache_Unlock (retG (Inr zvolNew)))))))))"

definition lookupVolume ::
  "'w env \<Rightarrow> ctx \<Rightarrow> nat \<Rightarrow> string \<Rightarrow> (('w, 'b) driver_scheme, gerror + nat) go" where
  "lookupVolume env c t volumeId = (case VolumeIdFromString volumeId of
     Inl _ \<Rightarrow> failG NotFound ''Volume (%s) not found''
   | Inr vid \<Rightarrow>
     seqG vCache_RLock
     (bindG (vCache_lookup (vidName vid)) (\<lambda>zvol. case zvol of
       Some zvol \<Rightarrow>
         seqG (vol_hold zvol)
         (seqG vCache_RUnlock
         (bindG (vol_lock c zvol) (\<lambda>state.
          if state \<noteq> stateCreated
          then seqG (releaseVolume c zvol) (failG Aborted ''volume busy (%s)'')
          else retG (Inr zvol))))
     | None \<Rightarrow>
         seqG vCache_RUnlock
         (tryG (newVolume c (vidPool vid) (vidProject vid) (vidName vid) (vidType vid = BlockVolume))
         (\<lambda>zvol.
          bindG (derefG (\<lambda>s. vols s zvol)) (\<lambda>v. case getState v of
            stateCreating \<Rightarrow>
              bindG (zvol_getDetails env t zvol) (\<lambda>(httpStatus, err). case err of
                Some e \<Rightarrow>
                  seqG (releaseVolume c zvol)
                  (if httpStatus = StatusNotFound then failG NotFound ''Volume (%s) not found''
                   else retG (Inl e))
              | None \<Rightarrow> retG (Inr zvol))
          | stateCreated \<Rightarrow> retG (Inr zvol)
          | stateDeleted \<Rightarrow>
              seqG (releaseVolume c zvol) (failG NotFound ''Volume (%s) not found'')))))))"

section \<open>Snapshots\<close>

definition releaseSnapshot :: "ctx \<Rightarrow> nat \<Rightarrow> (('w, 'b) driver_scheme, unit) go" where
  "releaseSnapshot c zsnap =
     bindG (getSnap zsnap) (\<lambda>z.
     let zvol = zVol z in
     seqG sCache_RLock
     (bindG (snap_release zsnap) (\<lambda>(refCount, state).
      seqG
       (if refCount = 0 \<and> state \<noteq> stateCreated
        then seqG sCache_RUnlock
            (seqG sCache_Lock
            (bindG (snap_unlock c zsnap) (\<lambda>(refCount, state).
             seqG (if refCount = 0 \<and> state \<noteq> stateCreated
                   then bindG (getSnap zsnap) (\<lambda>z. sCache_delete (zName_of z))
                   else retG ())
             sCache_Unlock)))
        else seqG sCache_RUnlock (bindG (snap_unlock c zsnap) (\<lambda>_. retG ())))
       (releaseVolume c zvol))))"

definition newSnapshot ::
  "'w env \<Rightarrow> ctx \<Rightarrow> nat \<Rightarrow> string \<Rightarrow> string \<Rightarrow> (('w, 'b) driver_scheme, gerror + nat) go" where
  "newSnapshot env c t name sourceId =
     tryG (lookupVolume env c t sourceId) (\<lambda>zvol.
     bindG (derefG (\<lambda>s. vols s zvol)) (\<lambda>v.
     let sid = NewSnapshotId (getVolumeID v) name in
     seqG sCache_Lock
     (bindG (sCache_lookup name) (\<lambda>zsnap. case zsnap of
       None \<Rightarrow>
         bindG (newSnap (newSnapshot_struct sid zvol)) (\<lambda>zsnap.
         seqG (snap_hold zsnap)
         (seqG (sCache_add name zsnap)
         (seqG sCache_Unlock
         (seqG (snap_lock c zsnap)
         (retG (Inr zsnap))))))
     | Some zsnap \<Rightarrow>
         bindG (getSnap zsnap) (\<lambda>z.
         if getStringSourceId z \<noteq> sourceId
         then seqG sCache_Unlock
             (seqG (releaseVolume c zvol)
             (failG AlreadyExists ''snapshot (%s) already exists with different source''))
         else
         seqG (snap_hold zsnap)
         (seqG sCache_Unlock
         (bindG (snap_lock c zsnap) (\<lambda>state.
          if state \<noteq> stateCreated
          then seqG (releaseSnapshot c zsnap) (failG Aborted ''snapshot (%s) is busy'')
          else retG (Inr zsnap)))))))))"

text \<open>
  For a deleted snapshot the code returns a nil snapshot with a nil error, and every caller
  dereferences it at once: the panic is raised here.
\<close>

definition lookupSnapshot ::
  "'w env \<Rightarrow> ctx \<Rightarrow> nat \<Rightarrow> string \<Rightarrow> (('w, 'b) driver_scheme, gerror + nat) go" where
  "lookupSnapshot env c t snapshotId = (case SnapshotIdFromString snapshotId of
     Inl _ \<Rightarrow> failG NotFound ''Unknown snapshot (%s)''
   | Inr sid \<Rightarrow>
     tryG (lookupVolume env c t (VolumeId_String (sidVolumeId sid))) (\<lambda>zvol.
     seqG sCache_RLock
     (bindG (sCache_lookup (sidName sid)) (\<lambda>zsnap. case zsnap of
       Some zsnap \<Rightarrow>
         bindG (getSnap zsnap) (\<lambda>z.
         if zVol z \<noteq> zvol then panicG ''snapshot id and volume source inconsistent''
         else
         seqG (snap_hold zsnap)
         (seqG sCache_RUnlock
         (bindG (snap_lock c zsnap) (\<lambda>state.
          if state \<noteq> stateCreated
          then seqG (releaseSnapshot c zsnap) (failG Aborted ''snapshot (%s) is busy'')
          else retG (Inr zsnap)))))
     | None \<Rightarrow>
         seqG sCache_RUnlock
         (seqG (releaseVolume c zvol)
         (tryG (newSnapshot env c t (sidName sid) (VolumeId_String (sidVolumeId sid))) (\<lambda>zsnap.
          bindG (getSnap zsnap) (\<lambda>z. case zState z of
            stateCreating \<Rightarrow>
              bindG (snap_getDetails env t zsnap) (\<lambda>(_, err). case err of
                Some e \<Rightarrow> seqG (releaseSnapshot c zsnap) (retG (Inl e))
              | None \<Rightarrow> retG (Inr zsnap))
          | stateCreated \<Rightarrow> retG (Inr zsnap)
          | stateDeleted \<Rightarrow> seqG (releaseSnapshot c zsnap)
              (panicG ''nil pointer dereference'')))))))))"

end
