(* ===== verification/CacheLists.thy ===== *)
theory CacheLists
  imports Cache
begin

text \<open>
  The lists of \<open>volumes.go\<close>: refreshing the caches from the appliance and listing them.
  \<open>updateVolumeList\<close> starts a goroutine for the filesystems and one for the LUNs; here the
  first runs before the second.  \<open>envMapOrder\<close> is the order of a range loop over a table.
\<close>

text \<open>
  After a failed login both goroutines send the error and go on with an empty account; what
  they send later is never received.
\<close>

definition updateFilesystemList :: "'w env \<Rightarrow> ctx \<Rightarrow> (('w, 'b) driver_scheme, gerror option) go" where
  "updateFilesystemList env c =
     bindG (getUserLogin env None) (\<lambda>login.
     let (user, password) = (case login of Inl _ \<Rightarrow> ([], []) | Inr up \<Rightarrow> up) in
     bindG (LookUpToken user password) (\<lambda>t.
     bindG (GetFilesystems env t [] []) (\<lambda>fsList.
     seqG (case fsList of
        Inl _ \<Rightarrow> retG ()
      | Inr l \<Rightarrow> forG l (\<lambda>fsInfo.
          bindG (newVolume c (fsPool fsInfo) (fsProject fsInfo) (fsName fsInfo) False) (\<lambda>zvol.
          case zvol of
            Inl _ \<Rightarrow> retG ()
          | Inr zvol \<Rightarrow> seqG (zvol_setInfo zvol (FilesystemInfo fsInfo)) (releaseVolume c zvol))))
     (retG (case login of Inl e \<Rightarrow> Some e
        | Inr _ \<Rightarrow> (case fsList of Inl e \<Rightarrow> Some e | Inr _ \<Rightarrow> None))))))"

definition updateLunList :: "'w env \<Rightarrow> ctx \<Rightarrow> (('w, 'b) driver_scheme, gerror option) go" where
  "updateLunList env c =
     bindG (getUserLogin env None) (\<lambda>login.
     let (user, password) = (case login of Inl _ \<Rightarrow> ([], []) | Inr up \<Rightarrow> up) in
     bindG (LookUpToken user password) (\<lambda>t.
     bindG (GetLuns env t [] []) (\<lambda>lunList.
     seqG (case lunList of
        Inl _ \<Rightarrow> retG ()
      | Inr l \<Rightarrow> forG l (\<lambda>lunInfo.
          bindG (newVolume c (lunPool lunInfo) (lunProject lunInfo) (lunName lunInfo) True) (\<lambda>zvol.
          case zvol of
            Inl _ \<Rightarrow> retG ()
          | Inr zvol \<Rightarrow> seqG (zvol_setInfo zvol (LunInfo lunInfo)) (releaseVolume c zvol))))
     (retG (case login of Inl e \<Rightarrow> Some e
        | Inr _ \<Rightarrow> (case lunList of Inl e \<Rightarrow> Some e | Inr _ \<Rightarrow> None))))))"

definition updateVolumeList :: "'w env \<Rightarrow> ctx \<Rightarrow> (('w, 'b) driver_scheme, gerror option) go" where
  "updateVolumeList env c =
     bindG (updateFilesystemList env c) (\<lambda>errfs.
     bindG (updateLunList env c) (\<lambda>errlun.
     retG (if errfs \<noteq> None then errfs else if errlun \<noteq> None then errlun else None)))"

text \<open>
  The ID and the capacity of a volume; the list starts with one nil entry for every cached
  snapshot, the length it is made with.
\<close>

definition getVolumesList ::
  "'w env \<Rightarrow> ctx \<Rightarrow> (('w, 'b) driver_scheme, gerror + (string \<times> int) option list) go" where
  "getVolumesList env c =
     bindG (updateVolumeList env c) (\<lambda>err. case err of
       Some e \<Rightarrow> retG (Inl e)
     | None \<Rightarrow>
         seqG vCache_RLock
         (bindG (getG (\<lambda>s. (length (sHash s), envMapOrder env (vHash s)))) (\<lambda>(n, hash).
          bindG (mapG (\<lambda>(_, zvol). bindG (derefG (\<lambda>s. vols s zvol)) (\<lambda>v.
            retG (Some (VolumeId_String (getVolumeID v), getCapacity v)))) hash) (\<lambda>entries.
          seqG vCache_RUnlock (retG (Inr (replicate n None @ entries)))))))"

text \<open>An error of \<open>setInfo\<close> leaves the iteration without releasing the snapshot.\<close>

definition updateSnapshotList :: "'w env \<Rightarrow> ctx \<Rightarrow> (('w, 'b) driver_scheme, gerror option) go" where
  "updateSnapshotList env c =
     bindG (getUserLogin env None) (\<lambda>login. case login of
       Inl e \<Rightarrow> retG (Some e)
     | Inr (user, password) \<Rightarrow>
     bindG (LookUpToken user password) (\<lambda>t.
     bindG (GetSnapshots env t []) (\<lambda>snapList. case snapList of
       Inl e \<Rightarrow> retG (Some e)
     | Inr l \<Rightarrow>
     seqG (forG l (\<lambda>snapInfo.
       bindG (derefG (\<lambda>s. restHeap s t)) (\<lambda>token.
       case SnapshotIdFromHref (tokName token) (snHref snapInfo) of
         Inl _ \<Rightarrow> retG ()
       | Inr sid \<Rightarrow>
           bindG (newSnapshot env c t (snName snapInfo) (VolumeId_String (sidVolumeId sid))) (\<lambda>zsnap.
           case zsnap of
             Inl _ \<Rightarrow> retG ()
           | Inr zsnap \<Rightarrow>
               bindG (snap_setInfo env zsnap snapInfo) (\<lambda>err. case err of
                 Some _ \<Rightarrow> retG ()
               | None \<Rightarrow> releaseSnapshot c zsnap)))))
     (retG None))))"

definition csi_snapshot_of :: "zSnapshot \<Rightarrow> csi_snapshot" where
  "csi_snapshot_of z = \<lparr>csSizeBytes = zSpaceData z, csSnapshotId = getStringId z,
     csSourceVolumeId = getStringSourceId z, csCreationTime = zTimeStamp z,
     csReadyToUse = (zState z = stateCreated)\<rparr>"

definition getSnapshotList ::
  "'w env \<Rightarrow> ctx \<Rightarrow> (('w, 'b) driver_scheme, gerror + csi_snapshot list) go" where
  "getSnapshotList env c =
     bindG (updateSnapshotList env c) (\<lambda>err. case err of
       Some e \<Rightarrow> retG (Inl e)
     | None \<Rightarrow>
         seqG sCache_RLock
         (bindG (getG (\<lambda>s. envMapOrder env (sHash s))) (\<lambda>hash.
          bindG (mapG (\<lambda>(_, zsnap). bindG (getSnap zsnap) (\<lambda>z. retG (csi_snapshot_of z))) hash) (\<lambda>entries.
          seqG sCache_RUnlock (retG (Inr entries))))))"

end
