(* ===== verification/Quiescence.thy ===== *)
theory Quiescence
  imports CacheLists
begin

text \<open>
  The invariant of a request running alone.  \<open>held V S c s\<close>: the request with context \<open>c\<close>
  holds the volumes \<open>V\<close> and the snapshots \<open>S\<close> and nothing else is held: every other bolt is
  free and every other reference count is 0, what is cached and not held is in the state
  Created and cached under its own name, and the table locks are free.  The operations of
  the cache move between these states; the methods of held volumes and snapshots and the
  requests to the appliance stay in them (\<open>under\<close>).
\<close>

section \<open>A cache of lock objects\<close>

text \<open>
  The part of the invariant about one cache, its heap \<open>h\<close> and its table \<open>tbl\<close>, the same for
  volumes and snapshots.
\<close>

definition cache_inv ::
  "('o \<Rightarrow> ctx) \<Rightarrow> ('o \<Rightarrow> int) \<Rightarrow> ('o \<Rightarrow> volumeState) \<Rightarrow> ('o \<Rightarrow> string) \<Rightarrow>
     nat set \<Rightarrow> ctx \<Rightarrow> (nat \<Rightarrow> 'o option) \<Rightarrow> (string \<times> nat) list \<Rightarrow> bool" where
  "cache_inv bolt_of ref_of state_of name_of V c h tbl \<longleftrightarrow>
     (\<forall>r o1. h r = Some o1 \<longrightarrow> bolt_of o1 = (if r \<in> V then c else None)) \<and>
     (\<forall>r o1. h r = Some o1 \<longrightarrow> ref_of o1 = (if r \<in> V then 1 else 0)) \<and>
     (\<forall>k r. map_of tbl k = Some r \<longrightarrow> h r \<noteq> None) \<and>
     (\<forall>k r o1. map_of tbl k = Some r \<longrightarrow> h r = Some o1 \<longrightarrow>
        name_of o1 = k \<and> (r \<notin> V \<longrightarrow> state_of o1 = stateCreated)) \<and>
     (\<forall>r \<in> V. h r \<noteq> None) \<and>
     (\<forall>r o1. r \<in> V \<longrightarrow> h r = Some o1 \<longrightarrow> map_of tbl (name_of o1) = Some r)"

locale cached_objects = lock_object obj put bolt_of set_bolt ref_of set_ref state_of
    hold lock unlock release
  for obj :: "'s \<Rightarrow> nat \<Rightarrow> 'o option" and put bolt_of set_bolt ref_of set_ref state_of
    hold lock unlock release +
  fixes name_of :: "'o \<Rightarrow> string"
  assumes name_laws: "name_of (set_bolt b o1) = name_of o1" "name_of (set_ref n o1) = name_of o1"
begin

lemma acquired_simps [simp]:
  "bolt_of (acquired c o1) = c" "ref_of (acquired c o1) = 1" "state_of (acquired c o1) = state_of o1"
  "name_of (acquired c o1) = name_of o1"
  by (simp_all add: acquired_def bolt_laws ref_laws name_laws)

lemma dropped_simps [simp]:
  "bolt_of (dropped o1) = None" "ref_of (dropped o1) = 0" "state_of (dropped o1) = state_of o1"
  "name_of (dropped o1) = name_of o1"
  by (simp_all add: dropped_def bolt_laws ref_laws name_laws)

lemma inv_held:
  assumes "cache_inv bolt_of ref_of state_of name_of V c h tbl" "r \<in> V"
  obtains o1 where "h r = Some o1" "bolt_of o1 = c" "ref_of o1 = 1" "map_of tbl (name_of o1) = Some r"
  using assms unfolding cache_inv_def by (metis not_None_eq)

lemma inv_free:
  assumes "cache_inv bolt_of ref_of state_of name_of V c h tbl" "map_of tbl k = Some r" "r \<notin> V"
  obtains o1 where "h r = Some o1" "bolt_of o1 = None" "ref_of o1 = 0" "name_of o1 = k"
    "state_of o1 = stateCreated"
  using assms unfolding cache_inv_def by (metis not_None_eq)

lemma inv_lock:
  assumes "cache_inv bolt_of ref_of state_of name_of V c h tbl" "map_of tbl k = Some r" "r \<notin> V"
    "h r = Some o1"
  shows "cache_inv bolt_of ref_of state_of name_of (insert r V) c (h(r \<mapsto> acquired c o1)) tbl"
  using assms unfolding cache_inv_def by auto

lemma inv_new:
  assumes "cache_inv bolt_of ref_of state_of name_of V c h tbl" "h r = None"
    "bolt_of o1 = None" "ref_of o1 = 0"
  shows "cache_inv bolt_of ref_of state_of name_of V c (h(r \<mapsto> o1)) tbl"
proof -
  have "r \<notin> V" using assms by (auto simp: cache_inv_def)
  moreover have "map_of tbl k \<noteq> Some r" for k using assms(1,2) unfolding cache_inv_def by metis
  ultimately show ?thesis
    using assms unfolding cache_inv_def by auto
qed

lemma inv_add:
  assumes "cache_inv bolt_of ref_of state_of name_of V c h tbl" "h r = Some o1"
    "map_of tbl (name_of o1) = None"
  shows "cache_inv bolt_of ref_of state_of name_of (insert r V) c (h(r \<mapsto> acquired c o1))
    (AList.update (name_of o1) r tbl)"
proof -
  have "r \<notin> V" using assms by (auto simp: cache_inv_def)
  moreover have "map_of tbl k \<noteq> Some r" for k using assms by (auto simp: cache_inv_def)
  ultimately show ?thesis
    using assms unfolding cache_inv_def by (auto simp: update_conv' split: if_splits)
qed

lemma inv_drop:
  assumes "cache_inv bolt_of ref_of state_of name_of V c h tbl" "h r = Some o1"
    "state_of o1 = stateCreated"
  shows "cache_inv bolt_of ref_of state_of name_of (V - {r}) c (h(r \<mapsto> dropped o1)) tbl"
  using assms unfolding cache_inv_def by auto

lemma inv_delete:
  assumes "cache_inv bolt_of ref_of state_of name_of V c h tbl" "h r = Some o1" "r \<in> V"
  shows "cache_inv bolt_of ref_of state_of name_of (V - {r}) c (h(r \<mapsto> dropped o1))
    (AList.delete (name_of o1) tbl)"
proof -
  have only: "k = name_of o1" if "map_of tbl k = Some r" for k
    using assms(1,2) that unfolding cache_inv_def by metis
  have this_one: "map_of tbl (name_of o1) = Some r"
    using assms unfolding cache_inv_def by metis
  have others: "name_of o2 \<noteq> name_of o1" if "r' \<in> V" "r' \<noteq> r" "h r' = Some o2" for r' o2
    using assms(1) that this_one unfolding cache_inv_def by (metis option.inject)
  show ?thesis
    unfolding cache_inv_def
  proof (intro conjI allI impI ballI)
    fix k r' assume "map_of (AList.delete (name_of o1) tbl) k = Some r'"
    then have *: "map_of tbl k = Some r'" "r' \<noteq> r" using only by (auto simp: delete_conv' split: if_splits)
    then show "(h(r \<mapsto> dropped o1)) r' \<noteq> None" using assms(1) unfolding cache_inv_def by auto
    fix o2 assume "(h(r \<mapsto> dropped o1)) r' = Some o2"
    then show "name_of o2 = k" "r' \<notin> V - {r} \<Longrightarrow> state_of o2 = stateCreated"
      using * assms(1) unfolding cache_inv_def by auto
  qed (use assms(1) others in \<open>auto simp: cache_inv_def delete_conv' split: if_splits\<close>)
qed

lemma inv_upd:
  assumes "cache_inv bolt_of ref_of state_of name_of V c h tbl" "r \<in> V" "h r = Some o1"
    "bolt_of o2 = bolt_of o1" "ref_of o2 = ref_of o1" "name_of o2 = name_of o1"
  shows "cache_inv bolt_of ref_of state_of name_of V c (h(r \<mapsto> o2)) tbl"
  using assms unfolding cache_inv_def by auto

end

lemma getName_set [simp]: "getName (setBolt b v) = getName v" "getName (setRefcount n v) = getName v"
  by (simp_all add: getName_def)

interpretation vcached: cached_objects vols putVol getBolt setBolt getRefcount setRefcount getState
  vol_hold vol_lock vol_unlock vol_release getName
  by unfold_locales simp_all

interpretation scached: cached_objects snaps putSnap zBolt "\<lambda>b z. z\<lparr>zBolt := b\<rparr>" zRefcount
  "\<lambda>n z. z\<lparr>zRefcount := n\<rparr>" zState snap_hold snap_lock snap_unlock snap_release zName_of
  by unfold_locales (simp_all add: zName_of_def)

section \<open>The invariant\<close>

abbreviation vol_inv :: "nat set \<Rightarrow> ctx \<Rightarrow> (nat \<Rightarrow> zVolumeInterface option) \<Rightarrow> (string \<times> nat) list \<Rightarrow> bool" where
  "vol_inv \<equiv> cache_inv getBolt getRefcount getState getName"

abbreviation snap_inv :: "nat set \<Rightarrow> ctx \<Rightarrow> (nat \<Rightarrow> zSnapshot option) \<Rightarrow> (string \<times> nat) list \<Rightarrow> bool" where
  "snap_inv \<equiv> cache_inv zBolt zRefcount zState zName_of"

text \<open>The source of a snapshot exists, and is held while the snapshot is.\<close>

definition sources :: "nat set \<Rightarrow> nat set \<Rightarrow> (nat \<Rightarrow> zVolumeInterface option) \<Rightarrow>
    (nat \<Rightarrow> zSnapshot option) \<Rightarrow> bool" where
  "sources V S hv hs \<longleftrightarrow> (\<forall>r z. hs r = Some z \<longrightarrow> hv (zVol z) \<noteq> None \<and> (r \<in> S \<longrightarrow> zVol z \<in> V))"

definition fresh_refs :: "nat \<Rightarrow> (nat \<Rightarrow> zVolumeInterface option) \<Rightarrow> (nat \<Rightarrow> zSnapshot option) \<Rightarrow> bool" where
  "fresh_refs n hv hs \<longleftrightarrow> (\<forall>r \<ge> n. hv r = None \<and> hs r = None)"

definition held :: "nat set \<Rightarrow> nat set \<Rightarrow> ctx \<Rightarrow> ('w, 'b) driver_scheme \<Rightarrow> bool" where
  "held V S c s \<longleftrightarrow> tokens_settled s \<and> vMutex s = RWFree \<and> sMutex s = RWFree \<and>
     vol_inv V c (vols s) (vHash s) \<and> snap_inv S c (snaps s) (sHash s) \<and>
     sources V S (vols s) (snaps s) \<and> fresh_refs (nextRef s) (vols s) (snaps s)"

text \<open>Nothing is held: the state between two requests.\<close>

definition quiescent :: "('w, 'b) driver_scheme \<Rightarrow> bool" where
  "quiescent s \<longleftrightarrow> held {} {} None s"

lemma quiescent_held: "quiescent s \<longleftrightarrow> held {} {} c s"
  by (simp add: quiescent_def held_def cache_inv_def)

lemma settled_driver [simp]:
  "tokens_settled (s\<lparr>vols := a\<rparr>) = tokens_settled s" "tokens_settled (s\<lparr>snaps := b\<rparr>) = tokens_settled s"
  "tokens_settled (s\<lparr>vHash := h\<rparr>) = tokens_settled s" "tokens_settled (s\<lparr>sHash := h\<rparr>) = tokens_settled s"
  "tokens_settled (s\<lparr>nextRef := n\<rparr>) = tokens_settled s" "tokens_settled (s\<lparr>vMutex := m\<rparr>) = tokens_settled s"
  "tokens_settled (s\<lparr>sMutex := m\<rparr>) = tokens_settled s"
  by (simp_all add: tokens_settled_def)

text \<open>A volume given back is no longer the source of a held snapshot.\<close>

definition not_source :: "nat set \<Rightarrow> nat \<Rightarrow> ('w, 'b) driver_scheme \<Rightarrow> bool" where
  "not_source S r s \<longleftrightarrow> (\<forall>z \<in> S. \<forall>o1. snaps s z = Some o1 \<longrightarrow> zVol o1 \<noteq> r)"

lemma sources_upd:
  "sources V S hv hs \<Longrightarrow> sources V S (hv(r \<mapsto> v)) hs"
  "sources V S hv hs \<Longrightarrow> sources (insert r V) S hv hs"
  "sources V S hv hs \<Longrightarrow> zVol z' = zVol z \<Longrightarrow> hs r = Some z \<Longrightarrow> sources V S hv (hs(r \<mapsto> z'))"
  "sources V S hv hs \<Longrightarrow> (\<And>z. hs r = Some z \<Longrightarrow> zVol z \<in> V) \<Longrightarrow> sources V (insert r S) hv hs"
  "sources V S hv hs \<Longrightarrow> sources V (S - T) hv hs"
  by (auto simp: sources_def)

lemma fresh_upd:
  "fresh_refs n hv hs \<Longrightarrow> hv r = Some v \<Longrightarrow> fresh_refs n (hv(r \<mapsto> v')) hs"
  "fresh_refs n hv hs \<Longrightarrow> hs r = Some z \<Longrightarrow> fresh_refs n hv (hs(r \<mapsto> z'))"
  "fresh_refs n hv hs \<Longrightarrow> fresh_refs (Suc n) (hv(n \<mapsto> v)) hs"
  "fresh_refs n hv hs \<Longrightarrow> fresh_refs (Suc n) hv (hs(n \<mapsto> z))"
  "fresh_refs n hv hs \<Longrightarrow> hv n = None" "fresh_refs n hv hs \<Longrightarrow> hs n = None"
  by (auto simp: fresh_refs_def)

lemma snap_fields [simp]:
  "zVol (slock.acquired c z) = zVol z" "zId (slock.acquired c z) = zId z"
  "zVol (slock.dropped z) = zVol z" "zId (slock.dropped z) = zId z"
  by (simp_all add: slock.acquired_def slock.dropped_def)

section \<open>Moving between the states\<close>

lemma held_lock_vol:
  assumes "held V S c s" "map_of (vHash s) k = Some r" "r \<notin> V" "vols s r = Some v"
  shows "held (insert r V) S c (putVol r (vlock.acquired c v) s)"
  using assms by (simp add: held_def vcached.inv_lock sources_upd fresh_upd)

lemma held_new_vol:
  assumes "held V S c s" "getBolt v = None" "getRefcount v = 0"
  shows "held V S c ((putVol (nextRef s) v s)\<lparr>nextRef := Suc (nextRef s)\<rparr>)"
proof -
  have "vols s (nextRef s) = None" using assms(1) by (simp add: held_def fresh_refs_def)
  with assms show ?thesis by (simp add: held_def vcached.inv_new sources_upd fresh_upd)
qed

lemma held_add_vol:
  assumes "held V S c s" "vols s r = Some v" "map_of (vHash s) (getName v) = None"
  shows "held (insert r V) S c
    ((putVol r (vlock.acquired c v) s)\<lparr>vHash := AList.update (getName v) r (vHash s)\<rparr>)"
  using assms by (simp add: held_def vcached.inv_add sources_upd fresh_upd)

lemma sources_drop:
  "sources V S (vols s) (snaps s) \<Longrightarrow> not_source S r s \<Longrightarrow> sources (V - {r}) S (vols s) (snaps s)"
  by (auto simp: sources_def not_source_def)

lemma held_drop_vol:
  assumes "held V S c s" "vols s r = Some v" "getState v = stateCreated" "not_source S r s"
  shows "held (V - {r}) S c (putVol r (vlock.dropped v) s)"
  using assms by (simp add: held_def vcached.inv_drop sources_upd fresh_upd sources_drop)

lemma held_delete_vol:
  assumes "held V S c s" "r \<in> V" "vols s r = Some v" "not_source S r s"
  shows "held (V - {r}) S c
    ((putVol r (vlock.dropped v) s)\<lparr>vHash := AList.delete (getName v) (vHash s)\<rparr>)"
  using assms by (simp add: held_def vcached.inv_delete sources_upd fresh_upd sources_drop)

lemma held_upd_vol:
  assumes "held V S c s" "r \<in> V" "vols s r = Some v"
    "getBolt v' = getBolt v" "getRefcount v' = getRefcount v" "getName v' = getName v"
  shows "held V S c (putVol r v' s)"
  using assms by (simp add: held_def vcached.inv_upd sources_upd fresh_upd)

lemma held_lock_snap:
  assumes "held V S c s" "map_of (sHash s) k = Some r" "r \<notin> S" "snaps s r = Some z" "zVol z \<in> V"
  shows "held V (insert r S) c (putSnap r (slock.acquired c z) s)"
proof -
  have "sources V (insert r S) (vols s) ((snaps s)(r \<mapsto> slock.acquired c z))"
    using assms by (auto simp: held_def sources_def)
  with assms show ?thesis by (simp add: held_def scached.inv_lock fresh_upd)
qed

lemma held_new_snap:
  assumes "held V S c s" "zBolt z = None" "zRefcount z = 0" "vols s (zVol z) \<noteq> None"
  shows "held V S c ((putSnap (nextRef s) z s)\<lparr>nextRef := Suc (nextRef s)\<rparr>)"
proof -
  have new: "snaps s (nextRef s) = None" "nextRef s \<notin> S"
    using assms(1) by (auto simp: held_def fresh_refs_def cache_inv_def)
  then have "sources V S (vols s) ((snaps s)(nextRef s \<mapsto> z))"
    using assms by (auto simp: held_def sources_def)
  with assms new show ?thesis by (simp add: held_def scached.inv_new fresh_upd)
qed

lemma held_add_snap:
  assumes "held V S c s" "snaps s r = Some z" "map_of (sHash s) (zName_of z) = None" "zVol z \<in> V"
  shows "held V (insert r S) c
    ((putSnap r (slock.acquired c z) s)\<lparr>sHash := AList.update (zName_of z) r (sHash s)\<rparr>)"
proof -
  have "sources V (insert r S) (vols s) ((snaps s)(r \<mapsto> slock.acquired c z))"
    using assms by (auto simp: held_def sources_def)
  with assms show ?thesis by (simp add: held_def scached.inv_add fresh_upd)
qed

lemma held_drop_snap:
  assumes "held V S c s" "snaps s r = Some z" "zState z = stateCreated"
  shows "held V (S - {r}) c (putSnap r (slock.dropped z) s)"
  using assms by (simp add: held_def scached.inv_drop sources_upd fresh_upd)

lemma held_delete_snap:
  assumes "held V S c s" "r \<in> S" "snaps s r = Some z"
  shows "held V (S - {r}) c
    ((putSnap r (slock.dropped z) s)\<lparr>sHash := AList.delete (zName_of z) (sHash s)\<rparr>)"
  using assms by (simp add: held_def scached.inv_delete sources_upd fresh_upd)

lemma held_upd_snap:
  assumes "held V S c s" "r \<in> S" "snaps s r = Some z"
    "zBolt z' = zBolt z" "zRefcount z' = zRefcount z" "zId z' = zId z" "zVol z' = zVol z"
  shows "held V S c (putSnap r z' s)"
  using assms by (simp add: held_def scached.inv_upd sources_upd fresh_upd zName_of_def)

end
