(* ===== verification/Access.thy ===== *)
theory Access
  imports Quiescence
begin

text \<open>
  What the operations of the cache do to a request running alone: from a state in which it
  holds \<open>V\<close> and \<open>S\<close> they lead to one in which it holds what they promise.  A request never
  waits for a volume it does not hold itself.
\<close>

section \<open>Calls that keep what is held\<close>

text \<open>
  The names of the objects and the tables.  \<open>under V S c m\<close>: from a state in which \<open>V\<close> and
  \<open>S\<close> are held, \<open>m\<close> does not deadlock, and keeps what is held and these names.  It also keeps
  \<open>broken c z\<close>, the state in which the request holds a snapshot \<open>z\<close> whose source is a volume
  that it does not hold, and that is no longer the cached one.
\<close>

definition naming :: "('w, 'b) driver_scheme \<Rightarrow>
    (string \<times> nat) list \<times> (string \<times> nat) list \<times> (nat \<Rightarrow> VolumeId option) \<times>
    (nat \<Rightarrow> (SnapshotId \<times> nat) option)" where
  "naming s = (vHash s, sHash s, \<lambda>r. map_option getVolumeID (vols s r),
     \<lambda>z. map_option (\<lambda>o1. (zId o1, zVol o1)) (snaps s z))"

definition broken :: "ctx \<Rightarrow> nat \<Rightarrow> ('w, 'b) driver_scheme \<Rightarrow> bool" where
  "broken c z s \<longleftrightarrow> c \<noteq> None \<and> tokens_settled s \<and> vMutex s = RWFree \<and> sMutex s = RWFree \<and>
     (\<exists>o1 v. snaps s z = Some o1 \<and> zBolt o1 = c \<and> zRefcount o1 = 1 \<and>
        vols s (zVol o1) = Some v \<and> getBolt v = None \<and> getRefcount v = 0)"

definition under :: "nat set \<Rightarrow> nat set \<Rightarrow> ctx \<Rightarrow> (('w, 'b) driver_scheme, 'a) go \<Rightarrow> bool" where
  "under V S c m \<longleftrightarrow> keeps (same naming) m \<and> triple True (held V S c) m (\<lambda>_. held V S c) \<and>
     (\<forall>z. triple True (broken c z) m (\<lambda>_. broken c z))"

named_theorems under_rules \<open>calls that keep what is held\<close>

lemma driver_more:
  "rest.more s' = rest.more s \<Longrightarrow> vols s' = vols s \<and> snaps s' = snaps s \<and> vHash s' = vHash s \<and>
     sHash s' = sHash s \<and> vMutex s' = vMutex s \<and> sMutex s' = sMutex s \<and> nextRef s' = nextRef s \<and>
     cfgAppliance s' = cfgAppliance s"
  by (cases s; cases s') simp

lemma held_more:
  "held V S c s \<Longrightarrow> rest.more s' = rest.more s \<Longrightarrow> tokens_settled s' \<Longrightarrow> held V S c s'"
  using driver_more [of s' s] by (simp add: held_def)

lemma naming_more: "rest.more s' = rest.more s \<Longrightarrow> naming s' = naming s"
  using driver_more [of s' s] by (simp add: naming_def)

lemma broken_more:
  "broken c z s \<Longrightarrow> rest.more s' = rest.more s \<Longrightarrow> tokens_settled s' \<Longrightarrow> broken c z s'"
  using driver_more [of s' s] by (simp add: broken_def)

lemma under_rest:
  assumes "rest_op m"
  shows "under V S c m"
proof -
  have stays: "triple True P m (\<lambda>_. P)"
    if "\<And>s. P s \<Longrightarrow> tokens_settled s"
      "\<And>s s'. P s \<Longrightarrow> rest.more s' = rest.more s \<Longrightarrow> tokens_settled s' \<Longrightarrow> P s'" for P
  proof (rule tripleI, goal_cases)
    case (1 s)
    obtain r s' where m: "m s = (r, s')" by (cases "m s")
    have "tokens_settled s" using 1 that(1) by blast
    with assms m have "r \<noteq> Deadlock" "\<And>x. r = Done x \<Longrightarrow> tokens_settled s'"
      by (cases r; fastforce simp: rest_op_def triple_def)+
    with m that(2) [OF 1 rest_op_more [OF assms m]] show ?case by (cases r) auto
  qed
  have "keeps (same naming) m"
    using rest_op_frame [OF assms] naming_more by (auto simp: keeps_def same_def)
  moreover have "triple True (held V S c) m (\<lambda>_. held V S c)"
    by (rule stays) (simp add: held_def, rule held_more)
  moreover have "triple True (broken c z) m (\<lambda>_. broken c z)" for z
    by (rule stays) (simp add: broken_def, rule broken_more)
  ultimately show ?thesis by (simp add: under_def)
qed

lemma under_bindG [under_rules]:
  "under V S c m \<Longrightarrow> (\<And>x. under V S c (f x)) \<Longrightarrow> under V S c (bindG m f)"
  unfolding under_def by (meson same_frame.keeps_bindG triple_bindG)

lemma under_seqG [under_rules]: "under V S c m \<Longrightarrow> under V S c k \<Longrightarrow> under V S c (seqG m k)"
  unfolding seqG_def by (rule under_bindG)

lemma under_retG [under_rules]: "under V S c (retG x)"
  by (simp add: under_def same_frame.keeps_retG triple_def)

lemma under_getG [under_rules]: "under V S c (getG f)"
  by (simp add: under_def same_frame.keeps_getG triple_def)

lemma under_panicG [under_rules]: "under V S c (panicG p)"
  by (simp add: under_def same_frame.keeps_panicG triple_def)

lemmas under_api [under_rules] = rest_op_api [THEN under_rest]

lemma under_option [under_rules]:
  "under V S c m \<Longrightarrow> (\<And>x. under V S c (f x)) \<Longrightarrow> under V S c (case r of None \<Rightarrow> m | Some x \<Rightarrow> f x)"
  by (cases r) simp_all

lemma under_sum [under_rules]:
  "(\<And>e. under V S c (f e)) \<Longrightarrow> (\<And>x. under V S c (g x)) \<Longrightarrow>
     under V S c (case r of Inl e \<Rightarrow> f e | Inr x \<Rightarrow> g x)"
  by (cases r) simp_all

lemma under_prod [under_rules]: "(\<And>x y. under V S c (f x y)) \<Longrightarrow> under V S c (case r of (x, y) \<Rightarrow> f x y)"
  by (cases r) simp

lemma under_if [under_rules]:
  "(b \<Longrightarrow> under V S c m) \<Longrightarrow> (\<not> b \<Longrightarrow> under V S c k) \<Longrightarrow> under V S c (if b then m else k)"
  by simp

lemma under_let [under_rules]: "(\<And>x. under V S c (f x)) \<Longrightarrow> under V S c (let x = y in f x)"
  by simp

lemma under_tryG [under_rules]:
  "under V S c m \<Longrightarrow> (\<And>x. under V S c (k x)) \<Longrightarrow> under V S c (tryG m k)"
  unfolding tryG_def by (intro under_rules)

lemma under_derefG [under_rules]: "under V S c (derefG f)"
  unfolding derefG_def by (intro under_rules)

lemma under_vol_case [under_rules]:
  "(\<And>f. under V S c (g f)) \<Longrightarrow> (\<And>l. under V S c (h l)) \<Longrightarrow>
     under V S c (case v of FS f \<Rightarrow> g f | LUN l \<Rightarrow> h l)"
  by (cases v) simp_all

lemma under_state_case:
  "under V S c m \<Longrightarrow> under V S c k \<Longrightarrow> under V S c l \<Longrightarrow>
     under V S c (case st of stateCreating \<Rightarrow> m | stateCreated \<Rightarrow> k | stateDeleted \<Rightarrow> l)"
  by (cases st) simp_all

lemma under_mapG [under_rules]:
  assumes "\<And>x. under V S c (f x)"
  shows "under V S c (mapG f xs)"
proof (induction xs)
  case Nil
  show ?case unfolding mapG.simps by (intro under_rules)
next
  case (Cons x xs)
  show ?case unfolding mapG.simps by (intro under_rules assms Cons)
qed

text \<open>Updates of held objects.\<close>

lemma under_mod_vol:
  assumes "r \<in> V"
    "\<And>v. getBolt (f v) = getBolt v" "\<And>v. getRefcount (f v) = getRefcount v"
    "\<And>v. getVolumeID (f v) = getVolumeID v"
  shows "under V S c (modG (\<lambda>s. s\<lparr>vols := (vols s)(r := map_option f (vols s r))\<rparr>))"
  unfolding under_def
proof (intro conjI allI)
  fix z
  show "triple True (broken c z) (modG (\<lambda>s. s\<lparr>vols := (vols s)(r := map_option f (vols s r))\<rparr>))
      (\<lambda>_. broken c z)"
    by (rule triple_modG) (auto simp: broken_def assms)
next
  show "keeps (same naming) (modG (\<lambda>s. s\<lparr>vols := (vols s)(r := map_option f (vols s r))\<rparr>))"
    by (rule same_frame.keeps_modG) (auto simp: same_def naming_def assms(4) map_option.compositionality comp_def)
  show "triple True (held V S c) (modG (\<lambda>s. s\<lparr>vols := (vols s)(r := map_option f (vols s r))\<rparr>))
      (\<lambda>_. held V S c)"
  proof (rule triple_modG)
    fix s assume s: "held V S c s"
    obtain v where v: "vols s r = Some v"
      using s assms(1) by (auto simp: held_def elim: vcached.inv_held)
    show "held V S c (s\<lparr>vols := (vols s)(r := map_option f (vols s r))\<rparr>)"
      using held_upd_vol [OF s assms(1) v, of "f v"] assms(2-4) by (simp add: v getName_def)
  qed
qed

lemma under_modFS [under_rules]:
  "r \<in> V \<Longrightarrow> (\<And>v. vBolt (f v) = vBolt v) \<Longrightarrow> (\<And>v. vRefcount (f v) = vRefcount v) \<Longrightarrow>
     (\<And>v. vId (f v) = vId v) \<Longrightarrow> under V S c (modFS r f)"
  unfolding modFS_def by (rule under_mod_vol; simp?) (case_tac v; simp)+

lemma under_modLUN [under_rules]:
  "r \<in> V \<Longrightarrow> (\<And>v. vBolt (f v) = vBolt v) \<Longrightarrow> (\<And>v. vRefcount (f v) = vRefcount v) \<Longrightarrow>
     (\<And>v. vId (f v) = vId v) \<Longrightarrow> under V S c (modLUN r f)"
  unfolding modLUN_def by (rule under_mod_vol; simp?) (case_tac v; simp)+

lemma under_modSnap [under_rules]:
  assumes "r \<in> S" "\<And>z. zBolt (f z) = zBolt z" "\<And>z. zRefcount (f z) = zRefcount z"
    "\<And>z. zId (f z) = zId z" "\<And>z. zVol (f z) = zVol z"
  shows "under V S c (modSnap r f)"
  unfolding under_def modSnap_def
proof (intro conjI allI)
  fix z
  show "triple True (broken c z) (modG (\<lambda>s. s\<lparr>snaps := (snaps s)(r := map_option f (snaps s r))\<rparr>))
      (\<lambda>_. broken c z)"
    by (rule triple_modG) (auto simp: broken_def assms)
next
  show "keeps (same naming) (modG (\<lambda>s. s\<lparr>snaps := (snaps s)(r := map_option f (snaps s r))\<rparr>))"
    by (rule same_frame.keeps_modG)
      (auto simp: same_def naming_def assms(4,5) map_option.compositionality comp_def)
  show "triple True (held V S c) (modG (\<lambda>s. s\<lparr>snaps := (snaps s)(r := map_option f (snaps s r))\<rparr>))
      (\<lambda>_. held V S c)"
  proof (rule triple_modG)
    fix s assume s: "held V S c s"
    obtain z where z: "snaps s r = Some z"
      using s assms(1) by (auto simp: held_def elim: scached.inv_held)
    show "held V S c (s\<lparr>snaps := (snaps s)(r := map_option f (snaps s r))\<rparr>)"
      using held_upd_snap [OF s assms(1) z, of "f z"] assms(2-5) by (simp add: z)
  qed
qed

lemma under_sliceG [under_rules]: "under V S c (sliceG xs i j)"
  unfolding sliceG_def by (intro under_rules)

lemma under_indexG [under_rules]: "under V S c (indexG xs i)"
  unfolding indexG_def by (intro under_rules)

lemma under_DateToUnix [under_rules]: "under V S c (DateToUnix tz date)"
  unfolding DateToUnix_def by (intro under_rules)

lemma under_hasSupport [under_rules]: "under V S c (hasSupport cap cs block)"
proof (induction cs)
  case Nil
  show ?case unfolding hasSupport.simps by (intro under_rules)
next
  case (Cons x xs)
  then show ?case unfolding hasSupport.simps by (intro under_rules)
qed

lemma under_compareCapabilities [under_rules]: "under V S c (compareCapabilities req cur block)"
proof (induction req)
  case Nil
  show ?case unfolding compareCapabilities.simps by (intro under_rules)
next
  case (Cons x xs)
  then show ?case unfolding compareCapabilities.simps by (intro under_rules under_hasSupport)
qed

lemma under_snapshot_list [under_rules]: "under V S c (zfssaSnapshotList2csiSnapshotList env zfssa l)"
proof (induction l)
  case Nil
  show ?case unfolding zfssaSnapshotList2csiSnapshotList.simps by (intro under_rules)
next
  case (Cons x xs)
  then show ?case unfolding zfssaSnapshotList2csiSnapshotList.simps by (intro under_rules)
qed

section \<open>The methods of held objects\<close>

lemma under_getters [under_rules]: "under V S c (getFS r)" "under V S c (getLUN r)" "under V S c (getSnap r)"
  unfolding getFS_def getLUN_def getSnap_def by (intro under_rules)+

lemma under_info_case [under_rules]:
  "(\<And>f. under V S c (g f)) \<Longrightarrow> (\<And>l. under V S c (h l)) \<Longrightarrow>
     under V S c (case info of FilesystemInfo f \<Rightarrow> g f | LunInfo l \<Rightarrow> h l)"
  by (cases info) simp_all

lemma under_setInfo [under_rules]:
  assumes "r \<in> V"
  shows "under V S c (fs_setInfo r info)" "under V S c (lun_setInfo r info)"
  unfolding fs_setInfo_def lun_setInfo_def by (intro under_rules assms; simp)+

lemmas fs_defs = fs_create_def fs_cloneSnapshot_def fs_delete_def fs_getDetails_def
  fs_controllerExpandVolume_def fs_created_def fs_refresh_def fs_cloneVolume_def
  fs_controllerPublishVolume_def fs_controllerUnpublishVolume_def fs_validateVolumeCapabilities_def

lemmas lun_defs = lun_create_def lun_cloneSnapshot_def lun_delete_def lun_getDetails_def
  lun_controllerPublishVolume_def lun_controllerUnpublishVolume_def lun_created_def
  lun_cloneVolume_def lun_validateVolumeCapabilities_def lun_controllerExpandVolume_def

lemma under_fs [under_rules]:
  assumes "r \<in> V"
  shows "under V S c (fs_create env t r req)" "under V S c (fs_cloneSnapshot env t r req z)"
    "under V S c (fs_delete env t r)" "under V S c (fs_getDetails env t r)"
    "under V S c (fs_controllerExpandVolume env t r rng)"
    "under V S c fs_cloneVolume" "under V S c fs_controllerPublishVolume"
    "under V S c fs_controllerUnpublishVolume" "under V S c (fs_validateVolumeCapabilities caps)"
  unfolding fs_defs by ((intro under_rules assms; simp)+)

lemma under_lun [under_rules]:
  assumes "r \<in> V"
  shows "under V S c (lun_create env t r req)" "under V S c (lun_cloneSnapshot env t r req z)"
    "under V S c (lun_delete env t r)" "under V S c (lun_getDetails env t r)"
    "under V S c (lun_controllerPublishVolume env t r n)"
    "under V S c (lun_controllerUnpublishVolume env t r)"
    "under V S c lun_controllerExpandVolume" "under V S c lun_cloneVolume"
    "under V S c (lun_validateVolumeCapabilities caps)"
  unfolding lun_defs by ((intro under_rules assms; simp)+)

lemma under_zvol_call:
  "under V S c m \<Longrightarrow> under V S c k \<Longrightarrow> under V S c (zvol_call r m k)"
  unfolding zvol_call_def by (intro under_rules)

lemma under_zvol [under_rules]:
  assumes "r \<in> V"
  shows "under V S c (zvol_create env t r req)" "under V S c (zvol_cloneSnapshot env t r req z)"
    "under V S c (zvol_cloneVolume r)" "under V S c (zvol_delete env t r)"
    "under V S c (zvol_controllerPublishVolume env t r n)"
    "under V S c (zvol_controllerUnpublishVolume env t r)"
    "under V S c (zvol_validateVolumeCapabilities r caps)"
    "under V S c (zvol_controllerExpandVolume env t r rng)"
    "under V S c (zvol_getDetails env t r)" "under V S c (zvol_setInfo r info)"
    "under V S c (zvol_getSnapshotsList env t r)"
  unfolding zvol_create_def zvol_cloneSnapshot_def zvol_cloneVolume_def zvol_delete_def
    zvol_controllerPublishVolume_def zvol_controllerUnpublishVolume_def
    zvol_validateVolumeCapabilities_def zvol_controllerExpandVolume_def zvol_getDetails_def
    zvol_setInfo_def zvol_getSnapshotsList_def
  by ((intro under_zvol_call under_rules; rule assms)+)

lemma under_snap [under_rules]:
  assumes "z \<in> S"
  shows "under V S c (snap_setInfo env z info)" "under V S c (snap_create env t z)"
    "under V S c (snap_refreshDetails env t z)" "under V S c (snap_delete env t z)"
    "under V S c (snap_getDetails env t z)"
proof -
  show info: "under V S c (snap_setInfo env z info)" for info
    unfolding snap_setInfo_def by (intro under_rules assms; simp)
  show "under V S c (snap_create env t z)"
    unfolding snap_create_def source_href_def Let_def by (intro under_rules info assms; simp)
  show refresh: "under V S c (snap_refreshDetails env t z)"
    unfolding snap_refreshDetails_def source_href_def by (intro under_rules assms; simp)
  show "under V S c (snap_delete env t z)"
    unfolding snap_delete_def by (intro under_rules refresh assms; simp)
  show "under V S c (snap_getDetails env t z)"
    unfolding snap_getDetails_def source_href_def by (intro under_rules assms; simp)
qed

section \<open>Volumes\<close>

lemma vol_fields [simp]:
  "getVolumeID (vlock.acquired c v) = getVolumeID v" "getVolumeID (vlock.dropped v) = getVolumeID v"
  by (simp_all add: vlock.acquired_def vlock.dropped_def)

lemmas cache_run = vtable.wlock_law vtable.wunlock_law vtable.rlock_law vtable.runlock_law
  vtable.add_law vtable.delete_law vtable.lookup_law
  stable.wlock_law stable.wunlock_law stable.rlock_law stable.runlock_law
  stable.add_law stable.delete_law stable.lookup_law
  vlock.hold_law vlock.lock_law vlock.unlock_law vlock.release_law
  slock.hold_law slock.lock_law slock.unlock_law slock.release_law

definition created :: "nat \<Rightarrow> ('w, 'b) driver_scheme \<Rightarrow> bool" where
  "created r s \<longleftrightarrow> map_option getState (vols s r) = Some stateCreated"

lemma mutex_id [simp]: "vMutex s = m \<Longrightarrow> s\<lparr>vMutex := m\<rparr> = s" "sMutex s = m \<Longrightarrow> s\<lparr>sMutex := m\<rparr> = s"
  by (cases s; simp)+

text \<open>Releasing a held volume: a volume that is not in the state Created leaves the cache.\<close>

lemma releaseVolume_run:
  assumes "held V S c s" "r \<in> V" "vols s r = Some v"
  shows "releaseVolume c r s = (Done (),
    if getState v = stateCreated then putVol r (vlock.dropped v) s
    else (putVol r (vlock.dropped v) s)\<lparr>vHash := AList.delete (getName v) (vHash s)\<rparr>)"
proof -
  have "getBolt v = c" "getRefcount v = 1" "vMutex s = RWFree"
    using assms by (auto simp: held_def cache_inv_def)
  with assms(3) show ?thesis
    by (simp add: releaseVolume_def cache_run vlock.dropped_def)
qed

lemma releaseVolume_held:
  assumes "held V S c s" "r \<in> V" "not_source S r s"
  obtains s' where "releaseVolume c r s = (Done (), s')" "held (V - {r}) S c s'"
    "snaps s' = snaps s" "world s' = world s"
    "\<And>k. map_of (vHash s') k = (if map_of (vHash s) k = Some r \<and> \<not> created r s then None
       else map_of (vHash s) k)"
proof -
  obtain v where v: "vols s r = Some v" "map_of (vHash s) (getName v) = Some r"
    using assms(1,2) by (auto simp: held_def elim: vcached.inv_held)
  have only: "map_of (vHash s) k = Some r \<longleftrightarrow> k = getName v" for k
    using assms(1) v unfolding held_def cache_inv_def by metis
  show thesis
  proof (cases "getState v = stateCreated")
    case True
    show thesis
      by (rule that, rule releaseVolume_run [OF assms(1,2) v(1)])
        (use True v held_drop_vol [OF assms(1) v(1) True assms(3)] in \<open>simp_all add: created_def\<close>)
  next
    case False
    show thesis
      by (rule that, rule releaseVolume_run [OF assms(1,2) v(1)])
        (use False v only held_delete_vol [OF assms(1,2) v(1) assms(3)]
          in \<open>simp_all add: created_def delete_conv' only\<close>)
  qed
qed

lemma releaseVolume_triple:
  assumes "r \<in> V"
  shows "triple p (\<lambda>s. held V S c s \<and> not_source S r s) (releaseVolume c r) (\<lambda>_. held (V - {r}) S c)"
proof (rule tripleI, goal_cases)
  case (1 s)
  obtain s' where "releaseVolume c r s = (Done (), s')" "held (V - {r}) S c s'"
    by (rule releaseVolume_held [OF conjunct1 [OF 1] assms conjunct2 [OF 1]])
  then show ?case by simp
qed

text \<open>
  A new reference to a volume: to the cached one if the name is cached, else to a new one in
  the state Creating.  The name must not be that of a volume the request holds already.
\<close>

definition free_name :: "nat set \<Rightarrow> string \<Rightarrow> ('w, 'b) driver_scheme \<Rightarrow> bool" where
  "free_name V name s \<longleftrightarrow> (\<forall>r \<in> V. map_of (vHash s) name \<noteq> Some r)"

definition got_volume ::
  "nat set \<Rightarrow> nat set \<Rightarrow> ctx \<Rightarrow> string \<Rightarrow> nat \<Rightarrow> ('w, 'b) driver_scheme \<Rightarrow> bool" where
  "got_volume V S c name r s \<longleftrightarrow> r \<notin> V \<and> held (insert r V) S c s \<and>
     map_of (vHash s) name = Some r"

lemma newVolume_cached:
  assumes "held V S c s" "map_of (vHash s) name = Some r" "r \<notin> V"
  shows "\<exists>s'. newVolume c pool project name block s = (Done (Inr r), s') \<and>
    got_volume V S c name r s' \<and> vHash s' = vHash s \<and> world s' = world s \<and> snaps s' = snaps s \<and>
    map_option getVolumeID (vols s' r) = map_option getVolumeID (vols s r) \<and>
    map_option getState (vols s' r) = Some stateCreated"
proof -
  define n where "n = nextRef s"
  define v0 where "v0 = (if block
    then newLUN (NewVolumeId BlockVolume (cfgAppliance s) pool project name)
    else newFilesystem (NewVolumeId MountVolume (cfgAppliance s) pool project name))"
  define s1 where "s1 = (putVol n v0 s)\<lparr>nextRef := Suc n\<rparr>"
  have v0: "getBolt v0 = None" "getRefcount v0 = 0" by (auto simp: v0_def newLUN_def newFilesystem_def)
  have h1: "held V S c s1" unfolding s1_def n_def by (rule held_new_vol [OF assms(1) v0])
  obtain v where v: "vols s r = Some v" "getBolt v = None" "getRefcount v = 0"
      "getState v = stateCreated" "getName v = name"
    using assms by (auto simp: held_def elim: vcached.inv_free)
  have "vols s n = None" using assms(1) by (simp add: held_def fresh_refs_def n_def)
  then have rn: "r \<noteq> n" using v(1) by auto
  then have v1: "vols s1 r = Some v" "map_of (vHash s1) name = Some r"
    using v(1) assms(2) by (simp_all add: s1_def)
  have m: "vMutex s1 = RWFree" using h1 by (simp add: held_def)
  have "newVolume c pool project name block s = (Done (Inr r), putVol r (vlock.acquired c v) s1)"
    using m v v1 by (simp add: newVolume_def newVol_def v0_def [symmetric] n_def [symmetric]
      s1_def [symmetric] cache_run vlock.acquired_def)
  moreover have "got_volume V S c name r (putVol r (vlock.acquired c v) s1)"
    using held_lock_vol [OF h1 v1(2) assms(3) v1(1)] assms(3) v1(2) by (simp add: got_volume_def)
  ultimately show ?thesis
    using v(1,4) by (auto simp: s1_def)
qed

text \<open>The volume \<open>newVolume\<close> creates.\<close>

definition new_id :: "('w, 'b) driver_scheme \<Rightarrow> string \<Rightarrow> string \<Rightarrow> string \<Rightarrow> bool \<Rightarrow> VolumeId" where
  "new_id s pool project name block =
     NewVolumeId (if block then BlockVolume else MountVolume) (cfgAppliance s) pool project name"

lemma newVolume_new:
  assumes "held V S c s" "map_of (vHash s) name = None"
  shows "\<exists>s'. newVolume c pool project name block s = (Done (Inr (nextRef s)), s') \<and>
    got_volume V S c name (nextRef s) s' \<and> world s' = world s \<and> snaps s' = snaps s \<and>
    map_option getVolumeID (vols s' (nextRef s)) = Some (new_id s pool project name block) \<and>
    map_option getState (vols s' (nextRef s)) = Some stateCreating"
proof -
  define n where "n = nextRef s"
  define v0 where "v0 = (if block
    then newLUN (NewVolumeId BlockVolume (cfgAppliance s) pool project name)
    else newFilesystem (NewVolumeId MountVolume (cfgAppliance s) pool project name))"
  define s1 where "s1 = (putVol n v0 s)\<lparr>nextRef := Suc n\<rparr>"
  have v0: "getBolt v0 = None" "getRefcount v0 = 0" "getName v0 = name" "getState v0 = stateCreating"
    "getVolumeID v0 = new_id s pool project name block"
    by (auto simp: v0_def newLUN_def newFilesystem_def getName_def NewVolumeId_def new_id_def)
  have h1: "held V S c s1" unfolding s1_def n_def by (rule held_new_vol [OF assms(1) v0(1,2)])
  have v1: "vols s1 n = Some v0" "map_of (vHash s1) (getName v0) = None"
    using assms(2) by (simp_all add: s1_def v0)
  have m: "vMutex s1 = RWFree" using h1 by (simp add: held_def)
  let ?s = "(putVol n (vlock.acquired c v0) s1)\<lparr>vHash := AList.update name n (vHash s1)\<rparr>"
  have run: "newVolume c pool project name block s = (Done (Inr n), ?s)"
    using m v0 v1 by (simp add: newVolume_def newVol_def v0_def [symmetric] n_def [symmetric]
      s1_def [symmetric] cache_run vlock.acquired_def)
  have "n \<notin> V"
    using assms(1) by (auto simp: held_def fresh_refs_def cache_inv_def n_def)
  then have "got_volume V S c name n ?s"
    using held_add_vol [OF h1 v1] v0(3) by (simp add: got_volume_def update_conv')
  with run show ?thesis
    by (intro exI [of _ ?s]) (simp add: n_def [symmetric] v0, simp add: s1_def)
qed

lemma newVolume_triple:
  "triple p (\<lambda>s. held V S c s \<and> free_name V name s) (newVolume c pool project name block)
     (\<lambda>res s. \<exists>r. res = Inr r \<and> got_volume V S c name r s)"
proof (rule tripleI, goal_cases)
  case (1 s)
  show ?case
  proof (cases "map_of (vHash s) name")
    case None
    with newVolume_new [OF conjunct1 [OF 1], of name pool project block] show ?thesis by auto
  next
    case (Some r)
    with 1 have "r \<notin> V" by (auto simp: free_name_def)
    with newVolume_cached [OF conjunct1 [OF 1] Some, of pool project block] show ?thesis by auto
  qed
qed

lemma under_run:
  assumes "under V S c m" "held V S c s" "m s = (r, s')"
  shows "r \<noteq> Deadlock" "naming s' = naming s" "\<And>x. r = Done x \<Longrightarrow> held V S c s'"
  using assms keepsD [of "same naming" m s r s']
  by (auto simp: under_def same_def triple_def split: outcome.splits prod.splits)

lemma naming_simps:
  assumes "naming s' = naming s"
  shows "vHash s' = vHash s" "sHash s' = sHash s"
    "map_option getVolumeID (vols s' r) = map_option getVolumeID (vols s r)"
    "map_option zVol (snaps s' z) = map_option zVol (snaps s z)"
    "map_option zId (snaps s' z) = map_option zId (snaps s z)"
proof -
  show "vHash s' = vHash s" "sHash s' = sHash s" using assms by (simp_all add: naming_def)
  show "map_option getVolumeID (vols s' r) = map_option getVolumeID (vols s r)"
    using assms by (auto simp: naming_def dest: fun_cong [where x = r])
  have "map_option (\<lambda>o1. (zId o1, zVol o1)) (snaps s' z) = map_option (\<lambda>o1. (zId o1, zVol o1)) (snaps s z)"
    using assms by (auto simp: naming_def dest: fun_cong [where x = z])
  then show "map_option zVol (snaps s' z) = map_option zVol (snaps s z)"
    "map_option zId (snaps s' z) = map_option zId (snaps s z)"
    by (cases "snaps s' z"; cases "snaps s z"; simp)+
qed

text \<open>A new volume is the source of no held snapshot.\<close>

lemma got_not_source:
  assumes "held V S c s0" "r \<notin> V" "\<And>z. map_option zVol (snaps s z) = map_option zVol (snaps s0 z)"
  shows "not_source S r s"
  unfolding not_source_def
proof (intro ballI allI impI)
  fix z o1 assume z: "z \<in> S" "snaps s z = Some o1"
  with assms(3) [of z] obtain o0 where o0: "snaps s0 z = Some o0" "zVol o0 = zVol o1"
    by (cases "snaps s0 z") auto
  have "zVol o0 \<in> V" using assms(1) z(1) o0(1) unfolding held_def sources_def by blast
  then have "zVol o1 \<in> V" using o0(2) by simp
  with assms(2) show "zVol o1 \<noteq> r" by auto
qed

text \<open>\<open>getDetails\<close> without an error leaves the volume in the state Created.\<close>

lemma setInfo_created:
  "triple p (\<lambda>s. \<exists>f. vols s r = Some (FS f)) (fs_setInfo r (FilesystemInfo i)) (\<lambda>_. created r)"
  "triple p (\<lambda>s. \<exists>l. vols s r = Some (LUN l)) (lun_setInfo r (LunInfo j)) (\<lambda>_. created r)"
  by (auto simp: fs_setInfo_def lun_setInfo_def modFS_def modLUN_def triple_def created_def)

lemma rest_op_vols:
  assumes "rest_op m" "\<And>x. triple True (\<lambda>s. Q (vols s) \<and> tokens_settled s) (f x) R"
  shows "triple True (\<lambda>s. Q (vols s) \<and> tokens_settled s) (bindG m f) R"
proof (rule triple_bindG [where R = "\<lambda>_ s. Q (vols s) \<and> tokens_settled s"])
  show "triple True (\<lambda>s. Q (vols s) \<and> tokens_settled s) m (\<lambda>_ s. Q (vols s) \<and> tokens_settled s)"
  proof (rule tripleI, goal_cases)
    case (1 s)
    obtain r s' where m: "m s = (r, s')" by (cases "m s")
    have "vols s' = vols s" using driver_more [OF rest_op_more [OF assms(1) m]] by simp
    with 1 m assms(1) show ?case
      by (cases r) (fastforce simp: rest_op_def triple_def)+
  qed
qed (rule assms(2))

lemma getDetails_created:
  "triple True tokens_settled (zvol_getDetails env t r) (\<lambda>(_, err) s. err = None \<longrightarrow> created r s)"
proof -
  have fs: "triple True (\<lambda>s. (\<lambda>hv. \<exists>f. hv r = Some (FS f)) (vols s) \<and> tokens_settled s)
      (fs_getDetails env t r) (\<lambda>(_, err) s. err = None \<longrightarrow> created r s)"
    unfolding fs_getDetails_def
    by (rule triple_bindG [where R = "\<lambda>_ s. (\<lambda>hv. \<exists>f. hv r = Some (FS f)) (vols s) \<and> tokens_settled s"],
        force simp: triple_def getFS_def, rule rest_op_vols, rule rest_ops, intro triple_prod triple_sum,
        rule triple_retG_weak, simp, rule triple_seqG,
        rule triple_weaken_pre [OF setInfo_created(1)], simp, rule triple_retG_weak, simp)
  have lun: "triple True (\<lambda>s. (\<lambda>hv. \<exists>f. hv r = Some (LUN f)) (vols s) \<and> tokens_settled s)
      (lun_getDetails env t r) (\<lambda>(_, err) s. err = None \<longrightarrow> created r s)"
    unfolding lun_getDetails_def
    by (rule triple_bindG [where R = "\<lambda>_ s. (\<lambda>hv. \<exists>f. hv r = Some (LUN f)) (vols s) \<and> tokens_settled s"],
        force simp: triple_def getLUN_def, rule rest_op_vols, rule rest_ops, intro triple_prod triple_sum,
        rule triple_retG_weak, simp, rule triple_seqG,
        rule triple_weaken_pre [OF setInfo_created(2)], simp, rule triple_retG_weak, simp)
  show ?thesis
  proof (rule tripleI, goal_cases)
    case (1 s)
    show ?case
    proof (cases "vols s r")
      case None
      then show ?thesis by (simp add: zvol_getDetails_def zvol_call_def)
    next
      case (Some v)
      then have "zvol_getDetails env t r s =
          (case v of FS _ \<Rightarrow> fs_getDetails env t r s | LUN _ \<Rightarrow> lun_getDetails env t r s)"
        by (simp add: zvol_getDetails_def zvol_call_def split: zVolumeInterface.split)
      with 1 Some fs [unfolded triple_def, rule_format, of s]
          lun [unfolded triple_def, rule_format, of s] show ?thesis
        by (cases v) simp_all
    qed
  qed
qed

text \<open>\<open>getDetails\<close> with an error does not.\<close>

lemma triple_deref: "triple True P (derefG f) (\<lambda>_. P)"
  by (auto simp: triple_def derefG_def bindG_def split: option.split)

lemma triple_zvol_call:
  assumes "triple True (\<lambda>s. P s \<and> (\<exists>f. vols s r = Some (FS f))) m Q"
    "triple True (\<lambda>s. P s \<and> (\<exists>l. vols s r = Some (LUN l))) k Q"
  shows "triple True P (zvol_call r m k) Q"
proof (rule tripleI, goal_cases)
  case (1 s)
  show ?case
  proof (cases "vols s r")
    case None
    then show ?thesis by (simp add: zvol_call_def)
  next
    case (Some v)
    then show ?thesis
      using 1 assms [unfolded triple_def, rule_format, of s]
      by (cases v) (simp_all add: zvol_call_def)
  qed
qed

text \<open>A request in the middle of a method does not touch the volumes.\<close>

lemma rest_op_keeps_vols:
  assumes "rest_op m"
  shows "triple True (\<lambda>s. Q (vols s) \<and> tokens_settled s) m (\<lambda>_ s. Q (vols s) \<and> tokens_settled s)"
proof -
  have "triple True (\<lambda>s. Q (vols s) \<and> tokens_settled s) (bindG m retG)
      (\<lambda>_ s. Q (vols s) \<and> tokens_settled s)"
    by (rule rest_op_vols [OF assms], rule triple_retG_weak)
  then show ?thesis by simp
qed

lemma getDetails_error:
  "triple True (\<lambda>s. tokens_settled s \<and> \<not> created r s) (zvol_getDetails env t r)
     (\<lambda>(_, err) s. err \<noteq> None \<longrightarrow> \<not> created r s)"
proof -
  let ?Q = "\<lambda>hv :: nat \<Rightarrow> zVolumeInterface option. map_option getState (hv r) \<noteq> Some stateCreated"
  have fs: "triple True (\<lambda>s. ?Q (vols s) \<and> tokens_settled s) (fs_getDetails env t r)
      (\<lambda>(_, err) s. err \<noteq> None \<longrightarrow> \<not> created r s)"
    unfolding fs_getDetails_def getFS_def
    by (rule triple_bindG [OF triple_deref], rule rest_op_vols [OF rest_op_api(2)], intro triple_prod triple_sum,
        rule triple_retG_weak, simp add: created_def,
        auto simp: triple_def fs_setInfo_def modFS_def)
  have lun: "triple True (\<lambda>s. ?Q (vols s) \<and> tokens_settled s) (lun_getDetails env t r)
      (\<lambda>(_, err) s. err \<noteq> None \<longrightarrow> \<not> created r s)"
    unfolding lun_getDetails_def getLUN_def
    by (rule triple_bindG [OF triple_deref], rule rest_op_vols, rule rest_ops, intro triple_prod triple_sum,
        rule triple_retG_weak, simp add: created_def,
        auto simp: triple_def lun_setInfo_def modLUN_def)
  show ?thesis
    unfolding zvol_getDetails_def
    by (rule triple_zvol_call; rule triple_weaken_pre [OF fs] triple_weaken_pre [OF lun])
      (simp_all add: created_def)
qed

section \<open>Looking a volume up\<close>

lemma lookupVolume_cached:
  assumes "held V S c s" "VolumeIdFromString volumeId = Inr vid"
    "map_of (vHash s) (vidName vid) = Some r" "r \<notin> V"
  shows "\<exists>v. vols s r = Some v \<and> getState v = stateCreated \<and>
    lookupVolume env c t volumeId s = (Done (Inr r), putVol r (vlock.acquired c v) s) \<and>
    got_volume V S c (vidName vid) r (putVol r (vlock.acquired c v) s)"
proof -
  obtain v where v: "vols s r = Some v" "getBolt v = None" "getRefcount v = 0"
      "getState v = stateCreated"
    using assms by (auto simp: held_def elim: vcached.inv_free)
  have "vMutex s = RWFree" using assms(1) by (simp add: held_def)
  then have "lookupVolume env c t volumeId s = (Done (Inr r), putVol r (vlock.acquired c v) s)"
    using v assms(2,3) by (simp add: lookupVolume_def cache_run vlock.acquired_def)
  with v held_lock_vol [OF assms(1,3,4) v(1)] assms(3,4) show ?thesis
    by (simp add: got_volume_def)
qed

lemma lookupVolume_triple:
  assumes "VolumeIdFromString volumeId = Inr vid"
  shows "triple True (\<lambda>s. held V S c s \<and> free_name V (vidName vid) s) (lookupVolume env c t volumeId)
    (\<lambda>res s. case res of Inl _ \<Rightarrow> held V S c s \<and> map_of (vHash s) (vidName vid) = None
       | Inr r \<Rightarrow> got_volume V S c (vidName vid) r s \<and> created r s)"
proof (rule tripleI, goal_cases)
  case (1 s)
  note held = conjunct1 [OF 1]
  show ?case
  proof (cases "map_of (vHash s) (vidName vid)")
    case (Some r)
    with 1 have "r \<notin> V" by (auto simp: free_name_def)
    from lookupVolume_cached [OF held assms Some this, of env t] show ?thesis
      by (auto simp: created_def)
  next
    case None
    define r where "r = nextRef s"
    obtain s1 where s1: "newVolume c (vidPool vid) (vidProject vid) (vidName vid)
          (vidType vid = BlockVolume) s = (Done (Inr r), s1)"
        "got_volume V S c (vidName vid) r s1" "map_option getState (vols s1 r) = Some stateCreating"
        "snaps s1 = snaps s"
      using newVolume_new [OF held None, of "vidPool vid" "vidProject vid" "vidType vid = BlockVolume"]
      unfolding r_def by blast
    have held1: "held (insert r V) S c s1" "r \<notin> V" using s1(2) by (simp_all add: got_volume_def)
    obtain v1 where v1: "vols s1 r = Some v1" "getState v1 = stateCreating"
      using s1(3) by auto
    obtain d s2 where d: "zvol_getDetails env t r s1 = (d, s2)" by (cases "zvol_getDetails env t r s1")
    note run = under_run [OF under_zvol(9) [OF insertI1] held1(1) d]
    have "vMutex s = RWFree" using held by (simp add: held_def)
    then have *: "lookupVolume env c t volumeId s = bindG (zvol_getDetails env t r) (\<lambda>(httpStatus, err).
        case err of
          Some e \<Rightarrow> seqG (releaseVolume c r)
            (if httpStatus = StatusNotFound then failG NotFound ''Volume (%s) not found'' else retG (Inl e))
        | None \<Rightarrow> retG (Inr r)) s1"
      using assms None s1(1) v1 by (simp add: lookupVolume_def cache_run)
    have src: "not_source S r s2"
      by (rule got_not_source [OF held held1(2)]) (use naming_simps(4) [OF run(2)] s1(4) in simp)
    have name2: "map_of (vHash s2) (vidName vid) = Some r"
      using naming_simps(1) [OF run(2)] s1(2) by (simp add: got_volume_def)
    show ?thesis
    proof (cases d)
      case (Done x)
      obtain code err where x: "x = (code, err)" by (cases x)
      have held2: "held (insert r V) S c s2" using run(3) [OF Done] .
      show ?thesis
      proof (cases err)
        case None
        have "tokens_settled s1" using held1 by (simp add: held_def)
        from triple_Done [OF getDetails_created this d [unfolded Done]] have "created r s2"
          using x None by simp
        then show ?thesis
          using * d Done x None held2 held1(2) name2 by (simp add: got_volume_def)
      next
        case (Some e)
        have V: "insert r V - {r} = V" using held1(2) by auto
        have "tokens_settled s1 \<and> \<not> created r s1"
          using held1 v1 by (simp add: held_def created_def)
        from triple_Done [OF getDetails_error this d [unfolded Done]] have "\<not> created r s2"
          using x Some by simp
        then obtain s3 where "releaseVolume c r s2 = (Done (), s3)" "held V S c s3"
            "map_of (vHash s3) (vidName vid) = None"
          by (rule_tac releaseVolume_held [OF held2 insertI1 src]) (simp add: V name2)
        then show ?thesis using * d Done x Some by simp
      qed
    qed (use * d run(1) in auto)
  qed
qed

end
