(* ===== verification/SnapAccess.thy ===== *)
theory SnapAccess
  imports Access
begin

text \<open>
  Getting and giving back a snapshot together with its source volume, for a request running
  alone.  The cached snapshot can be stale: its source may be a volume that left the cache.
  Then \<open>newSnapshot\<close> hands out a snapshot whose source is not held (\<open>broken\<close>), and giving it
  back panics; \<open>lookupSnapshot\<close> panics at once.
\<close>

section \<open>What the volume operations leave alone\<close>

lemma keeps_sHash_rules:
  "keeps (same sHash) (vol_hold r)" "keeps (same sHash) (vol_lock c r)"
  "keeps (same sHash) (vol_unlock c r)" "keeps (same sHash) (vol_release r)"
  "keeps (same sHash) vCache_Lock" "keeps (same sHash) vCache_Unlock"
  "keeps (same sHash) vCache_RLock" "keeps (same sHash) vCache_RUnlock"
  "keeps (same sHash) (vCache_add k r)" "keeps (same sHash) (vCache_delete k)"
  "keeps (same sHash) (vCache_lookup k)" "keeps (same sHash) (newVol v)"
  by (auto simp: keeps_def same_def vol_hold_def vol_lock_def vol_unlock_def vol_release_def
      vCache_Lock_def vCache_Unlock_def vCache_RLock_def vCache_RUnlock_def vCache_mutex_def
      vCache_add_def vCache_delete_def vCache_lookup_def newVol_def go_defs Let_def
      split: option.split)

lemma keeps_sHash_under: "under V S c m \<Longrightarrow> keeps (same sHash) m"
  by (auto simp: under_def keeps_def same_def naming_def)

lemma keeps_state_case:
  "keeps R m \<Longrightarrow> keeps R k \<Longrightarrow> keeps R l \<Longrightarrow>
     keeps R (case st of stateCreating \<Rightarrow> m | stateCreated \<Rightarrow> k | stateDeleted \<Rightarrow> l)"
  by (cases st) simp_all

lemma keeps_sHash_volume:
  "keeps (same sHash) (releaseVolume c r)" "keeps (same sHash) (newVolume c p q n b)"
  "keeps (same sHash) (lookupVolume env c t i)"
proof -
  show rel: "keeps (same sHash) (releaseVolume c r)" for r
    unfolding releaseVolume_def by (intro same_frame.keeps_rules keeps_sHash_rules)
  show new: "keeps (same sHash) (newVolume c p q n b)" for p q n b
    unfolding newVolume_def by (intro same_frame.keeps_rules keeps_sHash_rules rel)
  have det: "keeps (same sHash) (zvol_getDetails env t r)" for r
    by (rule keeps_sHash_under [OF under_zvol(9) [where V = "{r}"]]) simp
  show "keeps (same sHash) (lookupVolume env c t i)"
    unfolding lookupVolume_def
    by (intro same_frame.keeps_rules keeps_sHash_rules keeps_state_case new rel det)
qed

section \<open>Giving a snapshot back\<close>

definition got_snapshot :: "nat set \<Rightarrow> ctx \<Rightarrow> nat \<Rightarrow> ('w, 'b) driver_scheme \<Rightarrow> bool" where
  "got_snapshot V c z s \<longleftrightarrow> (\<exists>r o1. r \<notin> V \<and> held (insert r V) {z} c s \<and>
     snaps s z = Some o1 \<and> zVol o1 = r)"

lemma releaseSnapshot_held:
  assumes "got_snapshot V c z s"
  obtains s' where "releaseSnapshot c z s = (Done (), s')" "held V {} c s'" "world s' = world s"
proof -
  obtain r o1 where r: "r \<notin> V" "held (insert r V) {z} c s" "snaps s z = Some o1" "zVol o1 = r"
    using assms by (auto simp: got_snapshot_def)
  have lock: "zBolt o1 = c" "zRefcount o1 = 1" "sMutex s = RWFree"
    using r by (auto simp: held_def cache_inv_def)
  define s1 where "s1 = (if zState o1 = stateCreated then putSnap z (slock.dropped o1) s
    else (putSnap z (slock.dropped o1) s)\<lparr>sHash := AList.delete (zName_of o1) (sHash s)\<rparr>)"
  have held1: "held (insert r V) {} c s1"
    using held_drop_snap [OF r(2,3)] held_delete_snap [OF r(2) insertI1 r(3)]
    by (auto simp: s1_def)
  have run: "releaseSnapshot c z s = releaseVolume c r s1"
    using r(3,4) lock
    by (simp add: releaseSnapshot_def getSnap_def cache_run slock.dropped_def s1_def Let_def
      zName_of_def)
  have [simp]: "insert r V - {r} = V" using r(1) by auto
  show thesis
    by (rule releaseVolume_held [OF held1 insertI1]) (use that run in \<open>auto simp: not_source_def s1_def split: if_splits\<close>)
qed

lemma releaseSnapshot_broken:
  assumes "broken c z s"
  shows "\<exists>p s'. releaseSnapshot c z s = (Panic p, s')"
proof -
  obtain o1 v where o1: "c \<noteq> None" "sMutex s = RWFree" "vMutex s = RWFree" "snaps s z = Some o1"
      "zBolt o1 = c" "zRefcount o1 = 1" "vols s (zVol o1) = Some v" "getBolt v = None" "getRefcount v = 0"
    using assms by (auto simp: broken_def)
  have *: "wrap32 (- 1) = - 1" by (simp add: wrap32_def)
  have owner: "bolt_unlock None c = None" using o1(1) by (cases c) (simp_all add: bolt_unlock_def)
  have panic: "\<exists>p s'. releaseVolume c (zVol o1) s1 = (Panic p, s')"
    if "vols s1 = vols s" "vMutex s1 = RWFree" for s1
    using that owner o1(7,8,9) by (simp add: releaseVolume_def cache_run *)
  show ?thesis
    using o1(2,4,5,6)
    by (simp add: releaseSnapshot_def getSnap_def cache_run Let_def)
      (intro conjI impI panic; simp add: o1(3))
qed

lemma releaseSnapshot_triple:
  "triple True (got_snapshot V c z) (releaseSnapshot c z) (\<lambda>_. held V {} c)"
  "triple True (broken c z) (releaseSnapshot c z) Q"
proof -
  show "triple True (got_snapshot V c z) (releaseSnapshot c z) (\<lambda>_. held V {} c)"
  proof (rule tripleI, goal_cases)
    case (1 s)
    obtain s' where "releaseSnapshot c z s = (Done (), s')" "held V {} c s'"
      by (rule releaseSnapshot_held [OF 1])
    then show ?case by simp
  qed
  show "triple True (broken c z) (releaseSnapshot c z) Q"
  proof (rule tripleI, goal_cases)
    case (1 s)
    then show ?case using releaseSnapshot_broken [OF 1] by auto
  qed
qed

section \<open>Getting a snapshot\<close>

text \<open>The volume a string names, if any, is not held.\<close>

definition id_free :: "nat set \<Rightarrow> string \<Rightarrow> ('w, 'b) driver_scheme \<Rightarrow> bool" where
  "id_free V i s \<longleftrightarrow> (\<forall>vid. VolumeIdFromString i = Inr vid \<longrightarrow> free_name V (vidName vid) s)"

lemma id_free_empty [simp]: "id_free {} i s"
  by (simp add: id_free_def free_name_def)

lemma lookupVolume_run:
  assumes "held V S c s" "lookupVolume env c t i s = (res, s')"
    "id_free V i s"
  shows "res \<noteq> Deadlock" "sHash s' = sHash s"
    "\<And>e. res = Done (Inl e) \<Longrightarrow> held V S c s'"
    "\<And>r. res = Done (Inr r) \<Longrightarrow> (\<exists>vid. VolumeIdFromString i = Inr vid \<and>
       got_volume V S c (vidName vid) r s' \<and> created r s')"
proof -
  show "sHash s' = sHash s"
    using keepsD [OF keeps_sHash_volume(3) assms(2)] by (simp add: same_def)
  have "res \<noteq> Deadlock \<and> (\<forall>e. res = Done (Inl e) \<longrightarrow> held V S c s') \<and>
      (\<forall>r. res = Done (Inr r) \<longrightarrow> (\<exists>vid. VolumeIdFromString i = Inr vid \<and>
       got_volume V S c (vidName vid) r s' \<and> created r s'))"
  proof (cases "VolumeIdFromString i")
    case (Inl e)
    then show ?thesis using assms(1,2) by (auto simp: lookupVolume_def)
  next
    case (Inr vid)
    from triple_run [OF lookupVolume_triple [OF Inr] _ assms(2), of V S] assms(1,3)
    show ?thesis using Inr by (auto simp: id_free_def)
  qed
  then show "res \<noteq> Deadlock" "\<And>e. res = Done (Inl e) \<Longrightarrow> held V S c s'"
    "\<And>r. res = Done (Inr r) \<Longrightarrow> (\<exists>vid. VolumeIdFromString i = Inr vid \<and>
       got_volume V S c (vidName vid) r s' \<and> created r s')" by blast+
qed

text \<open>A name that is not cached: a new snapshot in the state Creating.\<close>

lemma newSnapshot_new:
  assumes "got_volume V {} c vname r s" "map_of (sHash s) name = None" "vols s r = Some v"
  shows "\<exists>s' z. seqG sCache_Lock
     (bindG (sCache_lookup name) (\<lambda>zsnap. case zsnap of
       None \<Rightarrow>
         bindG (newSnap (newSnapshot_struct sid r)) (\<lambda>zsnap.
         seqG (snap_hold zsnap)
         (seqG (sCache_add name zsnap)
         (seqG sCache_Unlock
         (seqG (snap_lock c zsnap)
         (retG (Inr zsnap))))))
     | Some zsnap \<Rightarrow> k zsnap)) s = (Done (Inr z), s') \<and>
    (sidName sid = name \<longrightarrow> got_snapshot V c z s') \<and> map_option zState (snaps s' z) = Some stateCreating"
proof -
  let ?z = "nextRef s" and ?o = "newSnapshot_struct sid r"
  let ?s1 = "(putSnap ?z ?o s)\<lparr>nextRef := Suc ?z\<rparr>"
  let ?s2 = "(putSnap ?z (slock.acquired c ?o) ?s1)\<lparr>sHash := AList.update name ?z (sHash ?s1)\<rparr>"
  have held: "held (insert r V) {} c s" "r \<notin> V" using assms(1) by (simp_all add: got_volume_def)
  have o: "zBolt ?o = None" "zRefcount ?o = 0" "zVol ?o = r" "zState ?o = stateCreating" "zId ?o = sid"
    by (simp_all add: newSnapshot_struct_def)
  have held1: "held (insert r V) {} c ?s1"
    by (rule held_new_snap [OF held(1)]) (simp_all add: o assms(3))
  have "got_snapshot V c ?z ?s2" if "sidName sid = name"
    using held_add_snap [OF held1, of ?z ?o] that assms(2) held(2)
    by (simp add: got_snapshot_def o zName_of_def)
  moreover have "sMutex s = RWFree" using held by (simp add: held_def)
  ultimately show ?thesis
    using assms(2) o
    by (intro exI [of _ ?s2] exI [of _ ?z])
      (simp add: cache_run newSnap_def slock.acquired_def)
qed

lemma sidName_New [simp]: "sidName (NewSnapshotId v n) = n"
  by (simp add: NewSnapshotId_def)

lemma newSnapshot_uncached:
  assumes "id_free V i s" "held V {} c s" "map_of (sHash s) name = None" "newSnapshot env c t name i s = (res, s')"
  shows "res \<noteq> Deadlock \<and> (\<forall>e. res = Done (Inl e) \<longrightarrow> held V {} c s') \<and>
     (\<forall>z. res = Done (Inr z) \<longrightarrow> got_snapshot V c z s' \<and> map_option zState (snaps s' z) = Some stateCreating)"
proof -
  obtain x s1 where l: "lookupVolume env c t i s = (x, s1)" by (cases "lookupVolume env c t i s")
  note lv = lookupVolume_run [OF assms(2) l assms(1)]
  show ?thesis
  proof (cases x)
    case (Done y)
    show ?thesis
    proof (cases y)
      case (Inl e)
      with l Done have "lookupVolume env c t i s = (Done (Inl e), s1)" by simp
      then have "newSnapshot env c t name i s = (Done (Inl e), s1)"
        unfolding newSnapshot_def by (rule tryG_Inl)
      from trans [OF sym [OF assms(4)] this] have r: "res = Done (Inl e)" "s' = s1"
        by (simp_all only: prod.inject)
      have "held V {} c s1" using Done Inl by (intro lv(3)) simp
      then show ?thesis unfolding r by simp
    next
      case (Inr r)
      have "\<exists>vid. VolumeIdFromString i = Inr vid \<and> got_volume V {} c (vidName vid) r s1 \<and> created r s1"
        using Done Inr by (intro lv(4)) simp
      then obtain vid :: VolumeId where g: "got_volume V {} c (vidName vid) r s1" by blast
      from g obtain v where v: "vols s1 r = Some v"
        unfolding got_volume_def held_def by (elim conjE vcached.inv_held [OF _ insertI1])
      have l': "lookupVolume env c t i s = (Done (Inr r), s1)" using l Done Inr by simp
      have un: "map_of (sHash s1) name = None" using lv(2) assms(3) by simp
      let ?k = "\<lambda>zsnap. bindG (getSnap zsnap) (\<lambda>z.
             if getStringSourceId z \<noteq> i
             then seqG sCache_Unlock
                 (seqG (releaseVolume c r)
                 (failG AlreadyExists ''snapshot (%s) already exists with different source''))
             else
             seqG (snap_hold zsnap)
             (seqG sCache_Unlock
             (bindG (snap_lock c zsnap) (\<lambda>state.
              if state \<noteq> stateCreated
              then seqG (releaseSnapshot c zsnap) (failG Aborted ''snapshot (%s) is busy'')
              else retG (Inr zsnap)))))"
      obtain s2 z where "newSnapshot env c t name i s = (Done (Inr z), s2)" "got_snapshot V c z s2"
          "map_option zState (snaps s2 z) = Some stateCreating"
        using newSnapshot_new [OF g un v, of "NewSnapshotId (getVolumeID v) name" ?k] v
        by (auto simp: newSnapshot_def Let_def
            tryG_Inr [where m = "lookupVolume env c t i", OF l'])
      with assms(4) show ?thesis by auto
    qed
  next
    case (Panic p)
    with l have "newSnapshot env c t name i s = (Panic p, s1)"
      unfolding newSnapshot_def by (intro tryG_Panic) simp
    from trans [OF sym [OF assms(4)] this] have r: "res = Panic p" by (simp only: prod.inject)
    show ?thesis unfolding r by blast
  qed (use lv(1) in blast)
qed

text \<open>A cached snapshot, free like every cached object.\<close>

lemma cached_snapshot:
  assumes "held V {} c s" "map_of (sHash s) name = Some z"
  obtains o1 where "snaps s z = Some o1" "zBolt o1 = None" "zRefcount o1 = 0"
    "zState o1 = stateCreated"
  using assms by (auto simp: held_def elim: scached.inv_free)

lemma hold_lock_snapshot:
  assumes "snaps s z = Some o1" "zBolt o1 = None" "zRefcount o1 = 0" "zState o1 = stateCreated"
    "sMutex s = RWFree"
  shows "seqG sCache_Lock (seqG (snap_hold z) (seqG sCache_Unlock (bindG (snap_lock c z) k))) s =
      k stateCreated (putSnap z (slock.acquired c o1) s)"
    "seqG sCache_RLock (seqG (snap_hold z) (seqG sCache_RUnlock (bindG (snap_lock c z) k))) s =
      k stateCreated (putSnap z (slock.acquired c o1) s)"
  using assms by (simp_all add: cache_run slock.acquired_def)

lemma locked_snapshot:
  assumes "held (insert r V) {} c s" "r \<notin> V" "map_of (sHash s) name = Some z" "snaps s z = Some o1"
    "zVol o1 = r"
  shows "got_snapshot V c z (putSnap z (slock.acquired c o1) s)"
  using held_lock_snap [OF assms(1,3) _ assms(4)] assms(2,5) by (simp add: got_snapshot_def)

lemma stale_snapshot:
  assumes "held {r} {} c s" "c \<noteq> None" "snaps s z = Some o1" "zVol o1 \<noteq> r"
  shows "broken c z (putSnap z (slock.acquired c o1) s)"
proof -
  obtain v where v: "vols s (zVol o1) = Some v"
    using assms(1,3) unfolding held_def sources_def by (metis not_None_eq)
  then have "getBolt v = None" "getRefcount v = 0"
    using assms(1,4) by (auto simp: held_def cache_inv_def)
  then show ?thesis
    using assms v by (simp add: broken_def held_def slock.acquired_def)
qed

lemma newSnapshot_cached:
  assumes "held {} {} c s" "c \<noteq> None" "map_of (sHash s) name = Some z"
    "newSnapshot env c t name i s = (res, s')"
  shows "res \<noteq> Deadlock \<and> (\<forall>e. res = Done (Inl e) \<longrightarrow> held {} {} c s') \<and>
     (\<forall>z. res = Done (Inr z) \<longrightarrow> got_snapshot {} c z s' \<or> broken c z s')"
proof -
  obtain x s1 where l: "lookupVolume env c t i s = (x, s1)" by (cases "lookupVolume env c t i s")
  note lv = lookupVolume_run [OF assms(1) l id_free_empty]
  show ?thesis
  proof (cases x)
    case (Done y)
    show ?thesis
    proof (cases y)
      case (Inl e)
      with l Done have "newSnapshot env c t name i s = (Done (Inl e), s1)"
        unfolding newSnapshot_def by (intro tryG_Inl) simp
      moreover have "held {} {} c s1" using Done Inl by (intro lv(3)) simp
      ultimately show ?thesis using assms(4) by auto
    next
      case (Inr r)
      have l': "lookupVolume env c t i s = (Done (Inr r), s1)" using l Done Inr by simp
      have g: "held {r} {} c s1" using lv(4) Done Inr by (auto simp: got_volume_def)
      then obtain v where v: "vols s1 r = Some v"
        unfolding held_def by (elim conjE vcached.inv_held [OF _ insertI1])
      have m: "sMutex s1 = RWFree" using g by (simp add: held_def)
      have zn: "map_of (sHash s1) name = Some z" using lv(2) assms(3) by simp
      obtain o1 where o1: "snaps s1 z = Some o1" "zBolt o1 = None" "zRefcount o1 = 0"
          "zState o1 = stateCreated"
        by (rule cached_snapshot [OF g zn])
      show ?thesis
      proof (cases "getStringSourceId o1 = i")
        case False
        have src: "not_source {} r s1" by (simp add: not_source_def)
        obtain s2 where rel: "releaseVolume c r s1 = (Done (), s2)" "held ({r} - {r}) {} c s2"
          by (rule releaseVolume_held [OF g insertI1 src]) blast
        have "newSnapshot env c t name i s = (Done (Inl (GStatus AlreadyExists
            ''snapshot (%s) already exists with different source'')), s2)"
          using v zn o1(1) False m rel(1)
          by (simp add: newSnapshot_def Let_def tryG_Inr [where m = "lookupVolume env c t i", OF l']
              cache_run getSnap_def)
        then show ?thesis using assms(4) rel(2) by auto
      next
        case True
        have "newSnapshot env c t name i s = (Done (Inr z), putSnap z (slock.acquired c o1) s1)"
          using v zn o1 True m
          by (simp add: newSnapshot_def Let_def tryG_Inr [where m = "lookupVolume env c t i", OF l']
              cache_run getSnap_def slock.acquired_def)
        moreover have "got_snapshot {} c z (putSnap z (slock.acquired c o1) s1)" if "zVol o1 = r"
          by (rule locked_snapshot [OF g _ zn o1(1) that]) simp
        moreover have "broken c z (putSnap z (slock.acquired c o1) s1)" if "zVol o1 \<noteq> r"
          by (rule stale_snapshot [OF g assms(2) o1(1) that])
        ultimately show ?thesis using assms(4) by auto
      qed
    qed
  next
    case (Panic p)
    with l have "newSnapshot env c t name i s = (Panic p, s1)"
      unfolding newSnapshot_def by (intro tryG_Panic) simp
    with assms(4) show ?thesis by auto
  qed (use lv(1) in blast)
qed

lemma newSnapshot_triple:
  assumes "c \<noteq> None"
  shows "triple True (held {} {} c) (newSnapshot env c t name i)
    (\<lambda>res s. case res of Inl _ \<Rightarrow> held {} {} c s | Inr z \<Rightarrow> got_snapshot {} c z s \<or> broken c z s)"
proof (rule tripleI, goal_cases)
  case (1 s)
  obtain res s' where r: "newSnapshot env c t name i s = (res, s')"
    by (cases "newSnapshot env c t name i s")
  have "res \<noteq> Deadlock \<and> (\<forall>e. res = Done (Inl e) \<longrightarrow> held {} {} c s') \<and>
     (\<forall>z. res = Done (Inr z) \<longrightarrow> got_snapshot {} c z s' \<or> broken c z s')"
    using newSnapshot_uncached [OF id_free_empty 1 _ r] newSnapshot_cached [OF 1 assms _ r]
    by (cases "map_of (sHash s) name") auto
  with r show ?case by (auto split: outcome.split sum.split)
qed

section \<open>Looking a snapshot up\<close>

lemma got_snapshot_run:
  assumes "got_snapshot V c z s" "\<And>r. under (insert r V) {z} c m" "m s = (res, s')"
  shows "res \<noteq> Deadlock" "\<And>x. res = Done x \<Longrightarrow> got_snapshot V c z s'"
proof -
  obtain r o1 where r: "r \<notin> V" "held (insert r V) {z} c s" "snaps s z = Some o1" "zVol o1 = r"
    using assms(1) by (auto simp: got_snapshot_def)
  note run = under_run [OF assms(2) r(2) assms(3)]
  show "res \<noteq> Deadlock" by (rule run(1))
  fix x assume "res = Done x"
  moreover obtain o2 where "snaps s' z = Some o2" "zVol o2 = r"
    using naming_simps(4) [OF run(2), of z] r(3,4) by auto
  ultimately show "got_snapshot V c z s'" using run(3) r(1) by (auto simp: got_snapshot_def)
qed

lemma got_snapshot_triple:
  assumes "\<And>r. under (insert r V) {z} c m"
  shows "triple True (got_snapshot V c z) m (\<lambda>_. got_snapshot V c z)"
proof (rule tripleI, goal_cases)
  case (1 s)
  obtain res s' where m: "m s = (res, s')" by (cases "m s")
  from got_snapshot_run [OF 1 assms m] m show ?case by (cases res) auto
qed

lemma snap_details_triple:
  "triple True (\<lambda>s. got_snapshot V c z s \<and> map_option zState (snaps s z) = Some stateCreating)
    (bindG (getSnap z) (\<lambda>o1. case zState o1 of
            stateCreating \<Rightarrow>
              bindG (snap_getDetails env t z) (\<lambda>(_, err). case err of
                Some e \<Rightarrow> seqG (releaseSnapshot c z) (retG (Inl e))
              | None \<Rightarrow> retG (Inr z))
          | stateCreated \<Rightarrow> k1 | stateDeleted \<Rightarrow> k2))
    (\<lambda>res s. case res of Inl _ \<Rightarrow> held V {} c s | Inr z \<Rightarrow> got_snapshot V c z s)"
proof (rule tripleI, goal_cases)
  case (1 s)
  let ?m = "bindG (snap_getDetails env t z) (\<lambda>(_, err). case err of
                Some e \<Rightarrow> seqG (releaseSnapshot c z) (retG (Inl e))
              | None \<Rightarrow> retG (Inr z))"
  have "triple True (got_snapshot V c z) ?m
      (\<lambda>res s. case res of Inl _ \<Rightarrow> held V {} c s | Inr z \<Rightarrow> got_snapshot V c z s)"
    by (rule triple_bindG [OF got_snapshot_triple], rule under_rules, simp,
        intro triple_prod triple_option, rule triple_retG_weak, simp,
        rule triple_seqG [OF releaseSnapshot_triple(1)], rule triple_retG_weak, simp)
  from this [unfolded triple_def, rule_format, OF conjunct1 [OF 1]] 1 show ?case
    by (auto simp: getSnap_def)
qed

lemma lookupSnapshot_cached:
  assumes "got_volume V {} c name r s1" "map_of (sHash s1) sname = Some z" "snaps s1 z = Some o1"
    "zVol o1 = r" "zState o1 = stateCreated" "zBolt o1 = None" "zRefcount o1 = 0"
  shows "seqG (snap_hold z) (seqG sCache_RUnlock (bindG (snap_lock c z) (\<lambda>state.
          if state \<noteq> stateCreated then k else retG (Inr z)))) (s1\<lparr>sMutex := RWRead 0\<rparr>) =
      (Done (Inr z), putSnap z (slock.acquired c o1) s1)"
    "got_snapshot V c z (putSnap z (slock.acquired c o1) s1)"
proof -
  have h: "held (insert r V) {} c s1" "r \<notin> V" using assms(1) by (simp_all add: got_volume_def)
  then have m: "sMutex s1 = RWFree" by (simp add: held_def)
  show "got_snapshot V c z (putSnap z (slock.acquired c o1) s1)"
    by (rule locked_snapshot [OF h assms(2,3,4)])
  show "seqG (snap_hold z) (seqG sCache_RUnlock (bindG (snap_lock c z) (\<lambda>state.
          if state \<noteq> stateCreated then k else retG (Inr z)))) (s1\<lparr>sMutex := RWRead 0\<rparr>) =
      (Done (Inr z), putSnap z (slock.acquired c o1) s1)"
    using m assms(3,5-7) by (simp add: cache_run slock.acquired_def)
qed

lemma lookupSnapshot_run:
  assumes "held V {} c s" "SnapshotIdFromString i = Inr sid"
    "id_free V (VolumeId_String (sidVolumeId sid)) s" "lookupSnapshot env c t i s = (res, s')"
  shows "res \<noteq> Deadlock \<and> (\<forall>e. res = Done (Inl e) \<longrightarrow> held V {} c s') \<and>
     (\<forall>z. res = Done (Inr z) \<longrightarrow> got_snapshot V c z s')"
proof -
  let ?i = "VolumeId_String (sidVolumeId sid)"
  obtain x s1 where l: "lookupVolume env c t ?i s = (x, s1)" by (cases "lookupVolume env c t ?i s")
  note lv = lookupVolume_run [OF assms(1) l assms(3)]
  show ?thesis
  proof (cases x)
    case (Done y)
    show ?thesis
    proof (cases y)
      case (Inl e)
      have "lookupSnapshot env c t i s = (Done (Inl e), s1)"
        using l Done Inl assms(2) by (simp add: lookupSnapshot_def)
      moreover have "held V {} c s1" using Done Inl by (intro lv(3)) simp
      ultimately show ?thesis using assms(4) by auto
    next
      case (Inr r)
      have l': "lookupVolume env c t ?i s = (Done (Inr r), s1)" using l Done Inr by simp
      obtain vid :: VolumeId where vid: "VolumeIdFromString ?i = Inr vid"
          and g: "got_volume V {} c (vidName vid) r s1"
        using lv(4) [of r] Done Inr by blast
      have h: "held (insert r V) {} c s1" "r \<notin> V" using g by (simp_all add: got_volume_def)
      then have m: "sMutex s1 = RWFree" by (simp add: held_def)
      show ?thesis
      proof (cases "map_of (sHash s1) (sidName sid)")
        case (Some z)
        obtain o1 where o1: "snaps s1 z = Some o1" "zBolt o1 = None" "zRefcount o1 = 0"
            "zState o1 = stateCreated"
          by (rule cached_snapshot [OF h(1) Some])
        show ?thesis
        proof (cases "zVol o1 = r")
          case True
          note ok = lookupSnapshot_cached [OF g Some o1(1) True o1(4,2,3)]
          have "lookupSnapshot env c t i s = (Done (Inr z), putSnap z (slock.acquired c o1) s1)"
            using assms(2) l' m Some True o1(1) ok(1)
            by (simp add: lookupSnapshot_def cache_run getSnap_def)
          with assms(4) ok(2) show ?thesis by auto
        next
          case False
          have "\<exists>p s2. lookupSnapshot env c t i s = (Panic p, s2)"
            using assms(2) l' m Some False o1(1)
            by (simp add: lookupSnapshot_def cache_run getSnap_def)
          with assms(4) show ?thesis by auto
        qed
      next
        case None
        have src: "not_source {} r s1" by (simp add: not_source_def)
        have V: "insert r V - {r} = V" using h(2) by auto
        obtain s2 where rel: "releaseVolume c r s1 = (Done (), s2)" "held V {} c s2"
            "\<And>k. map_of (vHash s2) k \<in> {None, map_of (vHash s1) k}"
          by (rule releaseVolume_held [OF h(1) insertI1 src]) (simp add: V)
        have "sHash s2 = sHash s1"
          using keepsD [OF keeps_sHash_volume(1) rel(1)] by (simp add: same_def)
        then have none: "map_of (sHash s2) (sidName sid) = None" using None by simp
        have free: "id_free V ?i s2"
          using rel(3) [of "vidName vid"] g vid by (auto simp: id_free_def free_name_def got_volume_def)
        obtain y s3 where n: "newSnapshot env c t (sidName sid) ?i s2 = (y, s3)"
          by (cases "newSnapshot env c t (sidName sid) ?i s2")
        note new = newSnapshot_uncached [OF free rel(2) none n]
        let ?k = "\<lambda>zsnap. bindG (getSnap zsnap) (\<lambda>z. case zState z of
            stateCreating \<Rightarrow>
              bindG (snap_getDetails env t zsnap) (\<lambda>(_, err). case err of
                Some e \<Rightarrow> seqG (releaseSnapshot c zsnap) (retG (Inl e))
              | None \<Rightarrow> retG (Inr zsnap))
          | stateCreated \<Rightarrow> retG (Inr zsnap)
          | stateDeleted \<Rightarrow> seqG (releaseSnapshot c zsnap) (panicG ''nil pointer dereference''))"
        have run: "lookupSnapshot env c t i s = tryG (newSnapshot env c t (sidName sid) ?i) ?k s2"
          using assms(2) l' m None rel(1) by (simp add: lookupSnapshot_def cache_run)
        show ?thesis
        proof (cases y)
          case (Done w)
          show ?thesis
          proof (cases w)
            case (Inl e)
            then show ?thesis using run n Done new assms(4) by auto
          next
            case (Inr z)
            then have "lookupSnapshot env c t i s = ?k z s3"
              using run tryG_Inr [where m = "newSnapshot env c t (sidName sid) ?i" and k = ?k, OF n [unfolded Done Inr]]
                by simp
            with assms(4) have "?k z s3 = (res, s')" by simp
            from triple_run [OF snap_details_triple [where V = V and c = c] _ this] new Done Inr
            show ?thesis by auto
          qed
        qed (use run n new assms(4) in auto)
      qed
    qed
  next
    case (Panic p)
    have "lookupSnapshot env c t i s = (Panic p, s1)"
      using l Panic assms(2) by (simp add: lookupSnapshot_def)
    with assms(4) show ?thesis by auto
  qed (use lv(1) in blast)
qed

lemma lookupSnapshot_triple:
  "triple True (\<lambda>s. held V {} c s \<and> (\<forall>sid. SnapshotIdFromString i = Inr sid \<longrightarrow>
       id_free V (VolumeId_String (sidVolumeId sid)) s)) (lookupSnapshot env c t i)
    (\<lambda>res s. case res of Inl _ \<Rightarrow> held V {} c s | Inr z \<Rightarrow> got_snapshot V c z s)"
proof (rule tripleI, goal_cases)
  case (1 s)
  obtain res s' where r: "lookupSnapshot env c t i s = (res, s')"
    by (cases "lookupSnapshot env c t i s")
  show ?case
  proof (cases "SnapshotIdFromString i")
    case (Inl e)
    then show ?thesis using 1 by (simp add: lookupSnapshot_def)
  next
    case (Inr sid)
    from lookupSnapshot_run [OF conjunct1 [OF 1] Inr _ r] 1 Inr r show ?thesis
      by (cases res) (auto split: sum.split)
  qed
qed

end
