(* ===== verification/Cluster.thy ===== *)
theory Cluster
  imports Driver
begin

text \<open>
  \<open>cluster.go\<close>: the questions to Kubernetes.  The clientset is a variable of the package that
  \<open>InitClusterInterface\<close> (\<open>Startup\<close>) sets inside a cluster; outside it stays nil, and
  \<open>CoreV1\<close>, which reads a field of the clientset, panics.  The answer to a question is a parameter,
  \<open>None\<close> for an error.
\<close>

definition CoreV1 :: "(('w, 'b) driver_scheme, unit) go" where
  "CoreV1 = bindG (getG clientset) (\<lambda>c. if c then retG () else panicG ''nil pointer dereference'')"

definition GetNodeName :: "'w env \<Rightarrow> string \<Rightarrow> (('w, 'b) driver_scheme, string option) go" where
  "GetNodeName env nodeID = seqG CoreV1 (bindG (getG (\<lambda>s. envNodeName env nodeID (world s))) (\<lambda>nodeInfo.
     case nodeInfo of None \<Rightarrow> retG None | Some name \<Rightarrow> retG (Some name)))"

text \<open>\<open>nodes\<close> is the query for the list of nodes, and \<open>nodeName\<close> the name of one.\<close>

definition GetNodeList ::
  "('w \<Rightarrow> 'n list option) \<Rightarrow> ('n \<Rightarrow> string) \<Rightarrow> (('w, 'b) driver_scheme, string list option) go" where
  "GetNodeList nodes nodeName = seqG CoreV1 (bindG (getG (\<lambda>s. nodes (world s))) (\<lambda>nodeList.
     case nodeList of None \<Rightarrow> retG None
     | Some items \<Rightarrow> retG (Some (foldl (\<lambda>names node. names @ [nodeName node]) [] items))))"

lemma node_loop: "foldl (\<lambda>names node. names @ [nodeName node]) acc items = acc @ map nodeName items"
  by (induction items arbitrary: acc) simp_all

lemma CoreV1_simps [simp]:
  "clientset s \<Longrightarrow> CoreV1 s = (Done (), s)"
  "\<not> clientset s \<Longrightarrow> CoreV1 s = (Panic ''nil pointer dereference'', s)"
  by (simp_all add: CoreV1_def)

text \<open>Inside a cluster the list has one name for every node, in their order.\<close>

lemma GetNodeList_names:
  assumes "clientset s"
  shows "GetNodeList nodes nodeName s = (Done (map_option (map nodeName) (nodes (world s))), s)"
  using assms by (simp add: GetNodeList_def node_loop seqG_def split: option.split)

lemma GetNodeName_cases:
  "GetNodeName env nodeID s = (if clientset s then (Done (envNodeName env nodeID (world s)), s)
     else (Panic ''nil pointer dereference'', s))"
  by (simp add: GetNodeName_def seqG_def split: option.split)

end
