(* ===== verification/Controller.thy ===== *)
theory Controller
  imports CacheLists Cluster
begin

text \<open>
  The handlers of the controller service (\<open>controller.go\<close>), one definition each, and
  \<open>csi_request\<close>, the requests they answer, with \<open>serve\<close>, the dispatch of the gRPC server.
  A handler takes the context \<open>c\<close> of its request, which owns the locks it takes.
\<close>

section \<open>Accounts\<close>

text \<open>Every handler that needs the appliance starts with these lines.\<close>

definition with_token ::
  "'w env \<Rightarrow> params option \<Rightarrow> (nat \<Rightarrow> (('w, 'b) driver_scheme, gerror + 'a) go) \<Rightarrow>
     (('w, 'b) driver_scheme, gerror + 'a) go" where
  "with_token env secrets k =
     bindG (getUserLogin env secrets) (\<lambda>login. case login of
       Inl _ \<Rightarrow> failG Unauthenticated ''Invalid credentials''
     | Inr (user, password) \<Rightarrow> bindG (LookUpToken user password) k)"

section \<open>Volumes\<close>

definition validateCreateVolumeReq ::
  "'w env \<Rightarrow> nat \<Rightarrow> CreateVolumeRequest \<Rightarrow> (('w, 'b) driver_scheme, gerror + unit) go" where
  "validateCreateVolumeReq env t req =
     (let reqCaps = cvVolumeCapabilities req; parameters = cvParameters req;
          poolName = param parameters ''pool''; projectName = param parameters ''project'' in
     if length reqCaps = 0 then failG InvalidArgument ''no accessModes provided''
     else if cvName req = [] then failG InvalidArgument ''name must be supplied''
     else if map_of parameters ''pool'' = None \<or> length poolName < 1 \<or> \<not> IsResourceNameValid poolName
     then failG InvalidArgument ''pool name is invalid (%s)''
     else if map_of parameters ''project'' = None \<or> length projectName < 1 \<or>
       \<not> IsResourceNameValid projectName
     then failG InvalidArgument ''project name is invalid (%s)''
     else
     tryG (GetPool env t poolName) (\<lambda>pool.
     if poStatus pool \<noteq> ''online'' \<and> poStatus pool \<noteq> ''degraded''
     then failG InvalidArgument ''pool %s in an error state (%s)''
     else
     tryG (GetProject env t poolName projectName) (\<lambda>_.
     bindG (if isBlock reqCaps then validateCreateBlockVolumeReq env t req
            else retG (validateCreateFilesystemVolumeReq reqCaps)) (\<lambda>err. case err of
       Some e \<Rightarrow> retG (Inl e) | None \<Rightarrow> retG (Inr ())))))"

text \<open>The volume is released when the handler returns, after the snapshot.\<close>

definition CreateVolume ::
  "'w env \<Rightarrow> ctx \<Rightarrow> CreateVolumeRequest \<Rightarrow>
     (('w, 'b) driver_scheme, gerror + CreateVolumeResponse) go" where
  "CreateVolume env c req =
     with_token env (cvSecrets req) (\<lambda>t.
     tryG (validateCreateVolumeReq env t req) (\<lambda>_.
     let parameters = cvParameters req in
     tryG (newVolume c (param parameters ''pool'') (param parameters ''project'') (cvName req)
             (isBlock (cvVolumeCapabilities req))) (\<lambda>zvol.
     deferG (releaseVolume c zvol)
     (case cvVolumeContentSource req of
        Some (SnapshotSource snapshotId) \<Rightarrow>
          tryG (lookupSnapshot env c t snapshotId) (\<lambda>zsnap.
          deferG (releaseSnapshot c zsnap)
          (bindG (getSnap zsnap) (\<lambda>z. zvol_cloneSnapshot env t zvol req z)))
      | Some (VolumeSource _) \<Rightarrow> zvol_cloneVolume zvol
      | Some NoSourceType \<Rightarrow> failG InvalidArgument ''%v type not implemented in driver''
      | None \<Rightarrow> zvol_create env t zvol req))))"

definition DeleteVolume ::
  "'w env \<Rightarrow> ctx \<Rightarrow> string \<Rightarrow> params option \<Rightarrow> (('w, 'b) driver_scheme, gerror + unit) go" where
  "DeleteVolume env c volumeID secrets =
     with_token env secrets (\<lambda>t.
     if length volumeID = 0 then failG InvalidArgument ''Volume ID not provided''
     else
     bindG (lookupVolume env c t volumeID) (\<lambda>res. case res of
       Inl err \<Rightarrow> if err_code err = NotFound then retG (Inr ()) else retG (Inl err)
     | Inr zvol \<Rightarrow>
         deferG (releaseVolume c zvol)
         (tryG (zvol_getSnapshotsList env t zvol) (\<lambda>entries.
          if length entries > 0 then failG FailedPrecondition ''Volume (%s) has snapshots''
          else zvol_delete env t zvol))))"

record PublishRequest =
  pubVolumeId :: string
  pubNodeId :: string
  pubVolumeCapability :: "capability option"
  pubSecrets :: "params option"

definition ControllerPublishVolume ::
  "'w env \<Rightarrow> ctx \<Rightarrow> PublishRequest \<Rightarrow> (('w, 'b) driver_scheme, gerror + unit) go" where
  "ControllerPublishVolume env c req =
     (if length (pubVolumeId req) = 0 then failG InvalidArgument ''Volume ID not provided''
     else if length (pubNodeId req) = 0 then failG InvalidArgument ''Node ID not provided''
     else if pubVolumeCapability req = None then failG InvalidArgument ''Capability not provided''
     else
     bindG (GetNodeName env (pubNodeId req)) (\<lambda>nodeName. case nodeName of
       None \<Rightarrow> failG NotFound ''Node (%s) was not found: %v''
     | Some nodeName \<Rightarrow>
     with_token env (pubSecrets req) (\<lambda>t.
     tryG (lookupVolume env c t (pubVolumeId req)) (\<lambda>zvol.
     deferG (releaseVolume c zvol) (zvol_controllerPublishVolume env t zvol nodeName)))))"

definition ControllerUnpublishVolume ::
  "'w env \<Rightarrow> ctx \<Rightarrow> string \<Rightarrow> params option \<Rightarrow> (('w, 'b) driver_scheme, gerror + unit) go" where
  "ControllerUnpublishVolume env c volumeID secrets =
     (if length volumeID = 0 then failG InvalidArgument ''Volume ID not provided''
     else
     with_token env secrets (\<lambda>t.
     bindG (lookupVolume env c t volumeID) (\<lambda>res. case res of
       Inl err \<Rightarrow> if err_code err = NotFound then retG (Inr ()) else retG (Inl err)
     | Inr zvol \<Rightarrow> deferG (releaseVolume c zvol) (zvol_controllerUnpublishVolume env t zvol))))"

definition ValidateVolumeCapabilities ::
  "'w env \<Rightarrow> ctx \<Rightarrow> string \<Rightarrow> capability list \<Rightarrow> params option \<Rightarrow>
     (('w, 'b) driver_scheme, gerror + ValidateResponse) go" where
  "ValidateVolumeCapabilities env c volumeID reqCaps secrets =
     (if volumeID = [] then failG InvalidArgument ''no volume ID provided''
     else if length reqCaps = 0 then failG InvalidArgument ''no accessModes provided''
     else
     with_token env secrets (\<lambda>t.
     bindG (lookupVolume env c t volumeID) (\<lambda>res. case res of
       Inl _ \<Rightarrow> failG NotFound ''Volume (%s) was not found: %v''
     | Inr zvol \<Rightarrow>
         deferG (releaseVolume c zvol) (zvol_validateVolumeCapabilities zvol reqCaps))))"

definition ControllerExpandVolume ::
  "'w env \<Rightarrow> ctx \<Rightarrow> string \<Rightarrow> capacity_range option \<Rightarrow> params option \<Rightarrow>
     (('w, 'b) driver_scheme, gerror + int) go" where
  "ControllerExpandVolume env c volumeID capRange secrets =
     (if length volumeID = 0 then failG InvalidArgument ''Volume ID not provided''
     else
     with_token env secrets (\<lambda>t.
     tryG (lookupVolume env c t volumeID) (\<lambda>zvol.
     deferG (releaseVolume c zvol) (zvol_controllerExpandVolume env t zvol capRange))))"

definition ControllerGetVolume ::
  "'w env \<Rightarrow> ctx \<Rightarrow> string \<Rightarrow> (('w, 'b) driver_scheme, gerror + string \<times> int) go" where
  "ControllerGetVolume env c volumeID =
     (if length volumeID = 0 then failG InvalidArgument ''Volume ID not provided''
     else
     with_token env None (\<lambda>t.
     tryG (lookupVolume env c t volumeID) (\<lambda>zvol.
     deferG (releaseVolume c zvol)
     (bindG (derefG (\<lambda>s. vols s zvol)) (\<lambda>v. retG (Inr (volumeID, getCapacity v)))))))"

definition GetCapacity ::
  "'w env \<Rightarrow> capability list \<Rightarrow> params \<Rightarrow> (('w, 'b) driver_scheme, gerror + int) go" where
  "GetCapacity env reqCaps parameters =
     (if length reqCaps > 0 \<and>
       \<not> (if isBlock reqCaps then areBlockVolumeCapsValid reqCaps else areFilesystemVolumeCapsValid reqCaps)
     then failG InvalidArgument ''invalid volume accessModes''
     else
     with_token env None (\<lambda>t.
     let projectName = param parameters ''project''; poolName = param parameters ''pool'' in
     if map_of parameters ''project'' = None \<or> length projectName = 0
     then
       (if map_of parameters ''pool'' = None \<or> length poolName = 0
        then tryG (GetPools env t) (\<lambda>pools.
          retG (Inr (fold (\<lambda>pool sum. wrap64 (sum + puAvailable (poUsage pool))) pools 0)))
        else tryG (GetPool env t poolName) (\<lambda>pool. retG (Inr (puAvailable (poUsage pool)))))
     else if map_of parameters ''pool'' = None \<or> length poolName = 0
     then failG InvalidArgument ''a pool name is required''
     else tryG (GetProject env t poolName projectName) (\<lambda>project.
       retG (Inr (prSpaceAvailable project)))))"

datatype rpc_capability = CREATE_DELETE_VOLUME | PUBLISH_UNPUBLISH_VOLUME | LIST_VOLUMES
  | GET_CAPACITY | EXPAND_VOLUME | CREATE_DELETE_SNAPSHOT | LIST_SNAPSHOTS | CLONE_VOLUME

definition controllerCaps :: "rpc_capability list" where
  "controllerCaps = [CREATE_DELETE_VOLUME, PUBLISH_UNPUBLISH_VOLUME, LIST_VOLUMES, GET_CAPACITY,
     EXPAND_VOLUME, CREATE_DELETE_SNAPSHOT, LIST_SNAPSHOTS]"

definition ControllerGetCapabilities :: "('s, gerror + rpc_capability list) go" where
  "ControllerGetCapabilities = retG (Inr controllerCaps)"

section \<open>Pages of a list\<close>

text \<open>
  The two lists are answered in pages.  \<open>page_start\<close> reads the starting token, \<open>page_end\<close>
  the end of the page, an \<open>int\<close> addition, and \<open>page\<close> cuts it out and makes the next token.
\<close>

definition page_start :: "string \<Rightarrow> int option" where
  "page_start token = (if length token > 0 then Atoi token else Some 0)"

definition page_end :: "int \<Rightarrow> int \<Rightarrow> int" where
  "page_end startIndex maxEntries =
     (if maxEntries > 0 then wrap64 (startIndex + maxEntries) else 2 ^ 31 - 1)"

definition page :: "'a list \<Rightarrow> int \<Rightarrow> int \<Rightarrow> ('s, string \<times> 'a list) go" where
  "page entries startIndex maxIndex =
     (let n = int (length entries) in
     if startIndex \<ge> n then retG (''0'', [])
     else if maxIndex \<ge> n then bindG (sliceG entries startIndex n) (\<lambda>l. retG (''0'', l))
     else bindG (sliceG entries startIndex maxIndex) (\<lambda>l. retG (Itoa maxIndex, l)))"

definition ListVolumes ::
  "'w env \<Rightarrow> ctx \<Rightarrow> string \<Rightarrow> int \<Rightarrow>
     (('w, 'b) driver_scheme, gerror + string \<times> (string \<times> int) option list) go" where
  "ListVolumes env c startingToken maxEntries = (case page_start startingToken of
     None \<Rightarrow> failG Aborted ''invalid starting_token value''
   | Some startIndex \<Rightarrow>
     if maxEntries < 0 then failG InvalidArgument ''invalid max_entries value''
     else
     tryG (getVolumesList env c) (\<lambda>entries.
     bindG (page entries startIndex (page_end startIndex maxEntries)) (\<lambda>p. retG (Inr p))))"

section \<open>Snapshots\<close>

definition CreateSnapshot ::
  "'w env \<Rightarrow> ctx \<Rightarrow> string \<Rightarrow> string \<Rightarrow> params option \<Rightarrow>
     (('w, 'b) driver_scheme, gerror + csi_snapshot) go" where
  "CreateSnapshot env c sourceId snapName secrets =
     (if length snapName = 0 \<or> length sourceId = 0
     then failG InvalidArgument ''Source or snapshot ID missing''
     else
     with_token env secrets (\<lambda>t.
     tryG (newSnapshot env c t snapName sourceId) (\<lambda>zsnap.
     deferG (releaseSnapshot c zsnap) (snap_create env t zsnap))))"

text \<open>Every error of the lookup is answered with success; the test after it is dead code.\<close>

definition DeleteSnapshot ::
  "'w env \<Rightarrow> ctx \<Rightarrow> string \<Rightarrow> params option \<Rightarrow> (('w, 'b) driver_scheme, gerror + unit) go" where
  "DeleteSnapshot env c snapshotId secrets =
     (if length snapshotId = 0 then failG InvalidArgument ''no snapshot ID provided''
     else
     with_token env secrets (\<lambda>t.
     bindG (lookupSnapshot env c t snapshotId) (\<lambda>res. case res of
       Inl _ \<Rightarrow> retG (Inr ())
     | Inr zsnap \<Rightarrow> deferG (releaseSnapshot c zsnap) (snap_delete env t zsnap))))"

record ListSnapshotsRequest =
  lsStartingToken :: string
  lsMaxEntries :: int
  lsSnapshotId :: string
  lsSourceVolumeId :: string
  lsSecrets :: "params option"

definition list_snapshots ::
  "'w env \<Rightarrow> ctx \<Rightarrow> nat \<Rightarrow> ListSnapshotsRequest \<Rightarrow> (('w, 'b) driver_scheme, csi_snapshot list) go" where
  "list_snapshots env c t req =
     (if length (lsSnapshotId req) > 0
      then bindG (lookupSnapshot env c t (lsSnapshotId req)) (\<lambda>res. case res of
          Inl _ \<Rightarrow> retG []
        | Inr zsnap \<Rightarrow>
            bindG (getSnap zsnap) (\<lambda>z.
            seqG (releaseSnapshot c zsnap) (retG [(csi_snapshot_of z)\<lparr>csReadyToUse := True\<rparr>])))
      else if length (lsSourceVolumeId req) > 0
      then bindG (lookupVolume env c t (lsSourceVolumeId req)) (\<lambda>res. case res of
          Inl _ \<Rightarrow> retG []
        | Inr zvol \<Rightarrow>
            bindG (zvol_getSnapshotsList env t zvol) (\<lambda>l.
            seqG (releaseVolume c zvol) (retG (case l of Inl _ \<Rightarrow> [] | Inr entries \<Rightarrow> entries))))
      else bindG (getSnapshotList env c) (\<lambda>l.
        retG (case l of Inl _ \<Rightarrow> [] | Inr entries \<Rightarrow> entries)))"

definition ListSnapshots ::
  "'w env \<Rightarrow> ctx \<Rightarrow> ListSnapshotsRequest \<Rightarrow>
     (('w, 'b) driver_scheme, gerror + string \<times> csi_snapshot list) go" where
  "ListSnapshots env c req = (case page_start (lsStartingToken req) of
     None \<Rightarrow> failG Aborted ''invalid starting_token value''
   | Some startIndex \<Rightarrow>
     if lsMaxEntries req < 0 then failG InvalidArgument ''invalid max_entries value''
     else
     with_token env (lsSecrets req) (\<lambda>t.
     bindG (list_snapshots env c t req) (\<lambda>entries.
     bindG (page entries startIndex (page_end startIndex (lsMaxEntries req))) (\<lambda>p. retG (Inr p)))))"

section \<open>The controller service\<close>

datatype csi_request =
    CreateVolumeReq CreateVolumeRequest
  | DeleteVolumeReq string "params option"
  | ControllerPublishVolumeReq PublishRequest
  | ControllerUnpublishVolumeReq string "params option"
  | ValidateVolumeCapabilitiesReq string "capability list" "params option"
  | ListVolumesReq string int
  | GetCapacityReq "capability list" params
  | ControllerGetCapabilitiesReq
  | CreateSnapshotReq string string "params option"
  | DeleteSnapshotReq string "params option"
  | ListSnapshotsReq ListSnapshotsRequest
  | ControllerExpandVolumeReq string "capacity_range option" "params option"
  | ControllerGetVolumeReq string

datatype csi_response =
    CreatedVolume CreateVolumeResponse
  | Empty
  | Validated ValidateResponse
  | Volumes string "(string \<times> int) option list"
  | Capacity int
  | Capabilities "rpc_capability list"
  | CreatedSnapshot csi_snapshot
  | Snapshots string "csi_snapshot list"
  | Expanded int
  | GotVolume string int

definition reply :: "('a \<Rightarrow> csi_response) \<Rightarrow> ('s, gerror + 'a) go \<Rightarrow> ('s, gerror + csi_response) go" where
  "reply f m = tryG m (\<lambda>x. retG (Inr (f x)))"

fun serve :: "'w env \<Rightarrow> ctx \<Rightarrow> csi_request \<Rightarrow> (('w, 'b) driver_scheme, gerror + csi_response) go" where
  "serve env c (CreateVolumeReq req) = reply CreatedVolume (CreateVolume env c req)"
| "serve env c (DeleteVolumeReq i sec) = reply (\<lambda>_. Empty) (DeleteVolume env c i sec)"
| "serve env c (ControllerPublishVolumeReq req) = reply (\<lambda>_. Empty) (ControllerPublishVolume env c req)"
| "serve env c (ControllerUnpublishVolumeReq i sec) = reply (\<lambda>_. Empty) (ControllerUnpublishVolume env c i sec)"
| "serve env c (ValidateVolumeCapabilitiesReq i caps sec) =
     reply Validated (ValidateVolumeCapabilities env c i caps sec)"
| "serve env c (ListVolumesReq tk n) = reply (\<lambda>(x, l). Volumes x l) (ListVolumes env c tk n)"
| "serve env c (GetCapacityReq caps ps) = reply Capacity (GetCapacity env caps ps)"
| "serve env c ControllerGetCapabilitiesReq = reply Capabilities ControllerGetCapabilities"
| "serve env c (CreateSnapshotReq src name sec) = reply CreatedSnapshot (CreateSnapshot env c src name sec)"
| "serve env c (DeleteSnapshotReq i sec) = reply (\<lambda>_. Empty) (DeleteSnapshot env c i sec)"
| "serve env c (ListSnapshotsReq req) = reply (\<lambda>(x, l). Snapshots x l) (ListSnapshots env c req)"
| "serve env c (ControllerExpandVolumeReq i rng sec) =
     reply Expanded (ControllerExpandVolume env c i rng sec)"
| "serve env c (ControllerGetVolumeReq i) = reply (\<lambda>(x, n). GotVolume x n) (ControllerGetVolume env c i)"

text \<open>Requests in sequence, each with its own context, as long as the driver does not crash.\<close>

definition serve_all ::
  "'w env \<Rightarrow> (nat \<times> csi_request) list \<Rightarrow> (('w, 'b) driver_scheme, (gerror + csi_response) list) go" where
  "serve_all env = mapG (\<lambda>(k, rq). serve env (Some k) rq)"

end
