(* ===== verification/Service.thy ===== *)
theory Service
  imports SnapAccess Controller
begin

text \<open>
  The controller service as a whole, one request after the other: no handler waits for ever,
  and every handler that returns has given back every volume and snapshot it took
  (\<open>serve_triple\<close>), for every answer of the appliance.  Two requests are excluded, the
  clone of a snapshot under the name of the snapshot's own volume and the list of all
  snapshots when the appliance sends a date with an unreadable year: both deadlock.
\<close>

section \<open>Handlers on volumes\<close>

abbreviation safe :: "ctx \<Rightarrow> (('w, 'b) driver_scheme, 'a) go \<Rightarrow> bool" where
  "safe c m \<equiv> triple True (held {} {} c) m (\<lambda>_. held {} {} c)"

lemma under_held: "under V S c m \<Longrightarrow> triple True (held V S c) m (\<lambda>_. held V S c)"
  by (simp add: under_def)

lemma safe_with_token: "(\<And>t. safe c (k t)) \<Longrightarrow> safe c (with_token env secrets k)"
  unfolding with_token_def
  by (rule triple_bindG [OF under_held [OF under_rest [OF rest_op_getUserLogin]]],
      intro triple_sum triple_prod triple_retG_weak, assumption,
      rule triple_bindG [OF under_held [OF under_rest [OF rest_op_LookUpToken]]]) simp

lemma safe_tryG_rest: "rest_op m \<Longrightarrow> (\<And>x. safe c (k x)) \<Longrightarrow> safe c (tryG m k)"
  by (rule triple_tryG [OF under_held [OF under_rest]])

lemma triple_held_volume:
  assumes "triple True (held {r} {} c) m (\<lambda>_. held {r} {} c)"
  shows "triple True (held {r} {} c) (deferG (releaseVolume c r) m) (\<lambda>_. held {} {} c)"
proof (rule triple_deferG [OF assms], rule triple_conseq [OF releaseVolume_triple])
  show "r \<in> {r}" by simp
qed (simp_all add: not_source_def)

lemma safe_lookup:
  assumes "\<And>e. safe c (f e)" "\<And>r. triple True (held {r} {} c) (g r) (\<lambda>_. held {} {} c)"
  shows "safe c (bindG (lookupVolume env c t i) (\<lambda>res. case res of Inl e \<Rightarrow> f e | Inr r \<Rightarrow> g r))"
proof (rule triple_bindG [where R = "\<lambda>res s. case res of Inl _ \<Rightarrow> held {} {} c s | Inr r \<Rightarrow> held {r} {} c s"])
  show "triple True (held {} {} c) (lookupVolume env c t i)
      (\<lambda>res s. case res of Inl _ \<Rightarrow> held {} {} c s | Inr r \<Rightarrow> held {r} {} c s)"
  proof (rule tripleI, goal_cases)
    case (1 s)
    obtain res s' where l: "lookupVolume env c t i s = (res, s')" by (cases "lookupVolume env c t i s")
    from lookupVolume_run [OF 1 l id_free_empty] l show ?case
      by (cases res) (auto simp: got_volume_def split: sum.split)
  qed
  show "triple True (\<lambda>s. case res of Inl _ \<Rightarrow> held {} {} c s | Inr r \<Rightarrow> held {r} {} c s)
      (case res of Inl e \<Rightarrow> f e | Inr r \<Rightarrow> g r) (\<lambda>_. held {} {} c)" for res
    using assms by (cases res) simp_all
qed

lemma safe_lookup_try:
  assumes "\<And>r. under {r} {} c (m r)"
  shows "safe c (tryG (lookupVolume env c t i) (\<lambda>r. deferG (releaseVolume c r) (m r)))"
  unfolding tryG_def
proof (rule safe_lookup)
  show "safe c (retG (Inl e))" for e :: gerror by (rule triple_retG_weak)
  show "triple True (held {r} {} c) (deferG (releaseVolume c r) (m r)) (\<lambda>_. held {} {} c)" for r
    by (rule triple_held_volume, rule under_held, rule assms)
qed

lemma safe_lookup_defer:
  assumes "\<And>e. under {} {} c (f e)" "\<And>r. under {r} {} c (m r)"
  shows "safe c (bindG (lookupVolume env c t i) (\<lambda>res. case res of Inl e \<Rightarrow> f e
    | Inr r \<Rightarrow> deferG (releaseVolume c r) (m r)))"
  by (rule safe_lookup [OF under_held [OF assms(1)]], rule triple_held_volume, rule under_held, rule assms)

lemma safe_DeleteVolume: "safe c (DeleteVolume env c i sec)"
  unfolding DeleteVolume_def
  by (intro safe_with_token triple_if safe_lookup_defer under_held) (intro under_rules; simp)+

lemma under_GetNodeName: "under {} {} c (GetNodeName env n)"
  unfolding GetNodeName_def CoreV1_def by (intro under_rules; simp)

lemma safe_Publish: "safe c (ControllerPublishVolume env c req)"
  unfolding ControllerPublishVolume_def
  by (intro triple_if triple_bindG [OF under_held [OF under_GetNodeName]] triple_option
      safe_with_token safe_lookup_try under_held) (intro under_rules; simp)+

lemma safe_Unpublish: "safe c (ControllerUnpublishVolume env c i sec)"
  unfolding ControllerUnpublishVolume_def
  by (intro triple_if safe_with_token safe_lookup_defer under_held) (intro under_rules; simp)+

lemma safe_Validate: "safe c (ValidateVolumeCapabilities env c i caps sec)"
  unfolding ValidateVolumeCapabilities_def
  by (intro triple_if safe_with_token safe_lookup_defer under_held) (intro under_rules; simp)+

lemma safe_Expand: "safe c (ControllerExpandVolume env c i rng sec)"
  unfolding ControllerExpandVolume_def
  by (intro triple_if safe_with_token safe_lookup_try under_held) (intro under_rules; simp)+

lemma safe_GetVolume: "safe c (ControllerGetVolume env c i)"
  unfolding ControllerGetVolume_def
  by (intro triple_if safe_with_token safe_lookup_try under_held) (intro under_rules; simp)+

lemma safe_GetCapacity: "safe c (GetCapacity env caps ps)"
  unfolding GetCapacity_def Let_def
  by (intro triple_if safe_with_token under_held) (intro under_rules)+

section \<open>Handlers on snapshots\<close>

lemma safe_lookup_snapshot:
  assumes "\<And>e. safe c (f e)" "\<And>z. triple True (got_snapshot {} c z) (g z) (\<lambda>_. held {} {} c)"
  shows "safe c (bindG (lookupSnapshot env c t i) (\<lambda>res. case res of Inl e \<Rightarrow> f e | Inr z \<Rightarrow> g z))"
proof (rule triple_bindG [where R = "\<lambda>res s. case res of Inl _ \<Rightarrow> held {} {} c s
    | Inr z \<Rightarrow> got_snapshot {} c z s"])
  show "triple True (held {} {} c) (lookupSnapshot env c t i)
      (\<lambda>res s. case res of Inl _ \<Rightarrow> held {} {} c s | Inr z \<Rightarrow> got_snapshot {} c z s)"
    by (rule triple_weaken_pre [OF lookupSnapshot_triple]) simp
  show "triple True (\<lambda>s. case res of Inl _ \<Rightarrow> held {} {} c s | Inr z \<Rightarrow> got_snapshot {} c z s)
      (case res of Inl e \<Rightarrow> f e | Inr z \<Rightarrow> g z) (\<lambda>_. held {} {} c)" for res
    using assms by (cases res) simp_all
qed

lemma triple_held_snapshot:
  assumes "\<And>r. under (insert r V) {z} c m"
  shows "triple True (got_snapshot V c z) (deferG (releaseSnapshot c z) m) (\<lambda>_. held V {} c)"
  by (rule triple_deferG [OF got_snapshot_triple [OF assms]], rule releaseSnapshot_triple(1))

lemma triple_disj:
  "triple p P m Q \<Longrightarrow> triple p P' m Q \<Longrightarrow> triple p (\<lambda>s. P s \<or> P' s) m Q"
  by (auto simp: triple_def)

lemma triple_conj:
  "triple p P m Q \<Longrightarrow> triple p P' m Q' \<Longrightarrow> triple p (\<lambda>s. P s \<and> P' s) m (\<lambda>x s. Q x s \<and> Q' x s)"
  by (fastforce simp: triple_def split: outcome.splits prod.splits)

text \<open>A new snapshot is handed out whole, or with a source that is not held.\<close>

abbreviation some_snapshot :: "ctx \<Rightarrow> nat \<Rightarrow> ('w, 'b) driver_scheme \<Rightarrow> bool" where
  "some_snapshot c z s \<equiv> got_snapshot {} c z s \<or> broken c z s"

lemma some_snapshot_triple:
  assumes "\<And>r. under {r} {z} c m"
  shows "triple True (some_snapshot c z) m (\<lambda>_. some_snapshot c z)"
proof -
  have b: "triple True (broken c z) m (\<lambda>_. broken c z)"
    using assms [of 0] by (simp add: under_def)
  have g: "triple True (got_snapshot {} c z) m (\<lambda>_. got_snapshot {} c z)"
    by (rule got_snapshot_triple) (rule assms)
  show ?thesis
    by (rule triple_disj; rule triple_weaken_post [OF g] triple_weaken_post [OF b]) simp_all
qed

lemma release_some_snapshot:
  "triple True (some_snapshot c z) (releaseSnapshot c z) (\<lambda>_. held {} {} c)"
  by (intro triple_disj releaseSnapshot_triple)

lemma safe_new_snapshot:
  assumes "c \<noteq> None" "\<And>e. safe c (f e)" "\<And>z. triple True (some_snapshot c z) (g z) (\<lambda>_. held {} {} c)"
  shows "safe c (bindG (newSnapshot env c t name i) (\<lambda>res. case res of Inl e \<Rightarrow> f e | Inr z \<Rightarrow> g z))"
proof (rule triple_bindG [OF newSnapshot_triple [OF assms(1)]])
  show "triple True (\<lambda>s. case res of Inl _ \<Rightarrow> held {} {} c s | Inr z \<Rightarrow> some_snapshot c z s)
      (case res of Inl e \<Rightarrow> f e | Inr z \<Rightarrow> g z) (\<lambda>_. held {} {} c)" for res
    using assms(2,3) by (cases res) simp_all
qed

lemma safe_CreateSnapshot: "c \<noteq> None \<Longrightarrow> safe c (CreateSnapshot env c src name sec)"
  unfolding CreateSnapshot_def tryG_def
  by (intro triple_if safe_with_token safe_new_snapshot triple_retG_weak, assumption+,
      rule triple_deferG [OF some_snapshot_triple release_some_snapshot])
    (intro under_rules; simp)+

lemma safe_DeleteSnapshot: "safe c (DeleteSnapshot env c i sec)"
  unfolding DeleteSnapshot_def
  by (intro triple_if safe_with_token safe_lookup_snapshot triple_retG_weak triple_held_snapshot)
    (assumption, assumption, intro under_rules, simp)

section \<open>Creating a volume\<close>

text \<open>The source of a clone is not the volume to be created, by its name.\<close>

definition other_source :: "CreateVolumeRequest \<Rightarrow> bool" where
  "other_source req = (case cvVolumeContentSource req of
     Some (SnapshotSource i) \<Rightarrow> (case SnapshotIdFromString i of
       Inl _ \<Rightarrow> True
     | Inr sid \<Rightarrow> (case VolumeIdFromString (VolumeId_String (sidVolumeId sid)) of
         Inl _ \<Rightarrow> True
       | Inr vid \<Rightarrow> vidName vid \<noteq> cvName req))
   | _ \<Rightarrow> True)"

lemma other_name_free:
  assumes "held {r} {} c s" "map_of (vHash s) name = Some r" "n \<noteq> name"
  shows "free_name {r} n s"
proof -
  have "map_of (vHash s) n \<noteq> Some r"
    using assms unfolding held_def cache_inv_def by (metis option.exhaust)
  then show ?thesis by (simp add: free_name_def)
qed

lemma clone_triple:
  assumes "other_source req" "cvVolumeContentSource req = Some (SnapshotSource i)"
  shows "triple True (got_volume {} {} c (cvName req) r)
    (tryG (lookupSnapshot env c t i) (\<lambda>zsnap.
          deferG (releaseSnapshot c zsnap)
          (bindG (getSnap zsnap) (\<lambda>z. zvol_cloneSnapshot env t r req z)))) (\<lambda>_. held {r} {} c)"
proof (rule triple_tryG [OF triple_weaken_pre [OF lookupSnapshot_triple [where V = "{r}" and c = c]]])
  fix s :: "('a, 'b) driver_scheme" assume s: "got_volume {} {} c (cvName req) r s"
  have "vidName vid \<noteq> cvName req"
    if "SnapshotIdFromString i = Inr sid" "VolumeIdFromString (VolumeId_String (sidVolumeId sid)) = Inr vid"
    for sid :: SnapshotId and vid :: VolumeId
    using assms that by (simp add: other_source_def)
  then show "held {r} {} c s \<and> (\<forall>sid. SnapshotIdFromString i = Inr sid \<longrightarrow>
       id_free {r} (VolumeId_String (sidVolumeId sid)) s)"
    using s by (auto simp: got_volume_def id_free_def intro: other_name_free)
next
  fix z
  show "triple True (\<lambda>s. case Inr z of Inl _ \<Rightarrow> held {r} {} c s | Inr z \<Rightarrow> got_snapshot {r} c z s)
      (deferG (releaseSnapshot c z) (bindG (getSnap z) (zvol_cloneSnapshot env t r req)))
      (\<lambda>_. held {r} {} c)"
    unfolding sum.case by (rule triple_held_snapshot, intro under_rules) simp
qed simp

lemma rest_op_validateCreate [rest_ops]:
  "rest_op (validateCreateBlockVolumeReq env t req)" "rest_op (validateCreateVolumeReq env t req)"
proof -
  show block: "rest_op (validateCreateBlockVolumeReq env t req)"
    unfolding validateCreateBlockVolumeReq_def by (intro rest_ops)
  show "rest_op (validateCreateVolumeReq env t req)"
    unfolding validateCreateVolumeReq_def Let_def by (intro rest_ops block)
qed

lemma create_triple:
  assumes "other_source req"
  shows "triple True (\<lambda>s. \<exists>r'. Inr r = (Inr r' :: gerror + nat) \<and> got_volume {} {} c (cvName req) r' s)
     (deferG (releaseVolume c r)
     (case cvVolumeContentSource req of
        Some (SnapshotSource snapshotId) \<Rightarrow>
          tryG (lookupSnapshot env c t snapshotId) (\<lambda>zsnap.
          deferG (releaseSnapshot c zsnap)
          (bindG (getSnap zsnap) (\<lambda>z. zvol_cloneSnapshot env t r req z)))
      | Some (VolumeSource _) \<Rightarrow> zvol_cloneVolume r
      | Some NoSourceType \<Rightarrow> failG InvalidArgument ''%v type not implemented in driver''
      | None \<Rightarrow> zvol_create env t r req)) (\<lambda>_. held {} {} c)"
    (is "triple True ?P (deferG _ ?m) _")
proof -
  have got: "triple True (got_volume {} {} c (cvName req) r) m (\<lambda>_. held {r} {} c)"
    if "under {r} {} c m" for m :: "(('a, 'b) driver_scheme, gerror + CreateVolumeResponse) go"
    by (rule triple_weaken_pre [OF under_held [OF that]]) (simp add: got_volume_def)
  have "triple True (got_volume {} {} c (cvName req) r) ?m (\<lambda>_. held {r} {} c)"
  proof (cases "cvVolumeContentSource req")
    case None
    show ?thesis unfolding None option.case by (rule got, intro under_rules) simp
  next
    case (Some src)
    show ?thesis
    proof (cases src)
      case (SnapshotSource i)
      from clone_triple [OF assms Some [unfolded SnapshotSource], of c r env t] show ?thesis
        unfolding Some SnapshotSource option.case content_source.case .
    next
      case (VolumeSource i)
      show ?thesis unfolding Some VolumeSource option.case content_source.case
        by (rule got, intro under_rules) simp
    next
      case NoSourceType
      show ?thesis unfolding Some NoSourceType option.case content_source.case
        by (rule got, intro under_rules)
    qed
  qed
  then have "triple True (got_volume {} {} c (cvName req) r) (deferG (releaseVolume c r) ?m)
      (\<lambda>_. held {} {} c)"
    by (rule triple_deferG, intro triple_conseq [OF releaseVolume_triple [where V = "{r}"]])
      (simp_all add: not_source_def)
  then show ?thesis by (rule triple_weaken_pre) auto
qed

lemma safe_CreateVolume:
  assumes "other_source req"
  shows "safe c (CreateVolume env c req)"
  unfolding CreateVolume_def Let_def
proof (rule safe_with_token, rule safe_tryG_rest, rule rest_ops, goal_cases)
  case (1 t _)
  show ?case
  proof (rule triple_tryG [where R = "\<lambda>res s. \<exists>r. res = Inr r \<and> got_volume {} {} c (cvName req) r s"],
      goal_cases)
    case 1
    show ?case by (rule triple_weaken_pre [OF newVolume_triple]) (simp add: free_name_def)
  next
    case (3 r)
    show ?case by (rule create_triple [OF assms])
  qed simp
qed

section \<open>Lists\<close>

text \<open>A loop over the elements of a list, when the elements matter.\<close>

lemma triple_forG_in:
  "(\<And>x. x \<in> set xs \<Longrightarrow> triple p P (f x) (\<lambda>_. P)) \<Longrightarrow> triple p P (forG xs f) (\<lambda>_. P)"
  by (induction xs) (auto intro: triple_retG_weak triple_seqG)

lemma safe_rest: "rest_op m \<Longrightarrow> (\<And>x. safe c (f x)) \<Longrightarrow> safe c (bindG m f)"
  by (rule triple_bindG [OF under_held [OF under_rest]])

lemma safe_refresh:
  "safe c (bindG (newVolume c p q n b) (\<lambda>zvol. case zvol of
      Inl _ \<Rightarrow> retG () | Inr r \<Rightarrow> seqG (zvol_setInfo r info) (releaseVolume c r)))"
proof (rule triple_bindG [where R = "\<lambda>res s. \<exists>r. res = Inr r \<and> got_volume {} {} c n r s"], goal_cases)
  case 1
  show ?case by (rule triple_weaken_pre [OF newVolume_triple]) (simp add: free_name_def)
next
  case (2 res)
  show ?case
  proof (cases res)
    case (Inr r)
    have "triple True (held {r} {} c) (seqG (zvol_setInfo r info) (releaseVolume c r)) (\<lambda>_. held {} {} c)"
      by (rule triple_seqG [OF under_held [OF under_zvol(10)]], simp,
          rule triple_conseq [OF releaseVolume_triple [where V = "{r}" and S = "{}"]])
        (simp_all add: not_source_def)
    then show ?thesis unfolding Inr sum.case by (rule triple_weaken_pre) (auto simp: got_volume_def)
  qed simp
qed

lemma safe_updateVolumeList: "safe c (updateVolumeList env c)"
proof -
  have fs: "safe c (updateFilesystemList env c)"
    unfolding updateFilesystemList_def Let_def
    by (rule safe_rest, rule rest_ops, rule triple_prod, rule safe_rest, rule rest_ops,
        rule safe_rest, rule rest_ops, rule triple_seqG, rule triple_sum, rule triple_retG_weak,
        assumption, rule triple_forG, rule safe_refresh, rule triple_retG_weak)
  have lun: "safe c (updateLunList env c)"
    unfolding updateLunList_def Let_def
    by (rule safe_rest, rule rest_ops, rule triple_prod, rule safe_rest, rule rest_ops,
        rule safe_rest, rule rest_ops, rule triple_seqG, rule triple_sum, rule triple_retG_weak,
        assumption, rule triple_forG, rule safe_refresh, rule triple_retG_weak)
  show ?thesis
    unfolding updateVolumeList_def
    by (intro triple_bindG [OF fs] triple_bindG [OF lun] triple_retG_weak)
qed

text \<open>Reading objects while a table is locked.\<close>

lemma triple_reads:
  "triple True P (mapG (\<lambda>(_, r). bindG (derefG (\<lambda>s. f s r)) (\<lambda>v. retG (g v))) l) (\<lambda>_. P)"
proof (rule triple_mapG, rule triple_prod)
  show "triple True P (bindG (derefG (\<lambda>s. f s r)) (\<lambda>v. retG (g v))) (\<lambda>_. P)" for r
    by (auto simp: triple_def derefG_def bindG_def split: option.splits)
qed

text \<open>The states in which one table is locked for reading and nothing is held.\<close>

abbreviation v_reading :: "ctx \<Rightarrow> ('w, 'b) driver_scheme \<Rightarrow> bool" where
  "v_reading c s \<equiv> \<exists>st. held {} {} c st \<and> s = st\<lparr>vMutex := RWRead 0\<rparr>"

abbreviation s_reading :: "ctx \<Rightarrow> ('w, 'b) driver_scheme \<Rightarrow> bool" where
  "s_reading c s \<equiv> \<exists>st. held {} {} c st \<and> s = st\<lparr>sMutex := RWRead 0\<rparr>"

lemma held_free: "held V S c s \<Longrightarrow> vMutex s = RWFree" "held V S c s \<Longrightarrow> sMutex s = RWFree"
  by (simp_all add: held_def)

lemma reading:
  "triple True (held {} {} c) vCache_RLock (\<lambda>_. v_reading c)"
  "triple True (v_reading c) vCache_RUnlock (\<lambda>_. held {} {} c)"
  "triple True (held {} {} c) sCache_RLock (\<lambda>_. s_reading c)"
  "triple True (s_reading c) sCache_RUnlock (\<lambda>_. held {} {} c)"
proof -
  show "triple True (held {} {} c) vCache_RLock (\<lambda>_. v_reading c)"
    by (rule tripleI, subst vtable.rlock_law) (auto simp: held_free)
  show "triple True (held {} {} c) sCache_RLock (\<lambda>_. s_reading c)"
    by (rule tripleI, subst stable.rlock_law) (auto simp: held_free)
  show "triple True (v_reading c) vCache_RUnlock (\<lambda>_. held {} {} c)"
    by (rule tripleI, elim exE conjE, hypsubst) (simp add: vtable.runlock_law held_free)
  show "triple True (s_reading c) sCache_RUnlock (\<lambda>_. held {} {} c)"
    by (rule tripleI, elim exE conjE, hypsubst) (simp add: stable.runlock_law held_free)
qed

lemma triple_read: "(\<And>v. triple True P (k v) Q) \<Longrightarrow> triple True P (bindG (getG f) k) Q"
  by (rule triple_bindG [where R = "\<lambda>_. P"]) (simp_all add: triple_def)

lemma safe_getVolumesList: "safe c (getVolumesList env c)"
  unfolding getVolumesList_def
  by (rule triple_bindG [OF safe_updateVolumeList], rule triple_option, rule triple_seqG [OF reading(1)],
      rule triple_read, rule triple_prod, rule triple_bindG [OF triple_reads],
      rule triple_seqG [OF reading(2)], rule triple_retG_weak, assumption, rule triple_retG_weak)

lemma safe_page: "safe c (page l i j)"
  unfolding page_def Let_def by (intro under_held under_rules)

lemma safe_ListVolumes: "safe c (ListVolumes env c tk n)"
  unfolding ListVolumes_def tryG_def
  by (intro triple_option triple_if triple_retG_weak triple_bindG [OF safe_getVolumesList] triple_sum
      triple_bindG [OF safe_page])

text \<open>
  The dates of the snapshots the appliance lists have a readable year.  Without one, the
  snapshot is not released.
\<close>

definition dates_readable :: "'w env \<Rightarrow> bool" where
  "dates_readable env \<longleftrightarrow> (\<forall>b l info. decSnapshotList env b = Some l \<longrightarrow> info \<in> set l \<longrightarrow>
     Atoi (take 4 (snCreation info)) \<noteq> None)"

lemma DateToUnix_no_error:
  assumes "Atoi (take 4 date) \<noteq> None"
  shows "triple True P (DateToUnix tz date) (\<lambda>(_, err) s. err = None)"
proof -
  have *: "triple True Q (bindG (sliceG date i j) (\<lambda>x. case Atoi x of None \<Rightarrow> retG (None, None) | Some n \<Rightarrow> f n))
      (\<lambda>(_, err) s. err = None)" if "\<And>n. triple True Q (f n) (\<lambda>(_, err) s. err = None)"
    for Q i j and f :: "int \<Rightarrow> ('a, int option \<times> gerror option) go"
    using that by (auto simp: triple_def sliceG_def split: option.split)
  have "triple True P (sliceG date 0 4) (\<lambda>y s. P s \<and> Atoi y \<noteq> None)"
    using assms by (auto simp: triple_def sliceG_def)
  then show ?thesis
    unfolding DateToUnix_def
  proof (rule triple_bindG, goal_cases)
    case (1 y)
    show ?case
    proof (cases "Atoi y")
      case (Some n)
      show ?thesis unfolding Some option.case
        by (intro *, rule triple_retG_weak) simp
    qed simp
  qed
qed

lemma setInfo_no_error:
  assumes "Atoi (take 4 (snCreation info)) \<noteq> None"
  shows "triple True P (snap_setInfo env z info) (\<lambda>err s. err = None)"
  unfolding snap_setInfo_def
  by (rule triple_bindG [OF DateToUnix_no_error [OF assms]]) (auto simp: triple_def modSnap_def)

lemma safe_refresh_snapshot:
  assumes "Atoi (take 4 (snCreation info)) \<noteq> None" "c \<noteq> None"
  shows "safe c (bindG (newSnapshot env c t name i) (\<lambda>zsnap. case zsnap of
             Inl _ \<Rightarrow> retG ()
           | Inr zsnap \<Rightarrow>
               bindG (snap_setInfo env zsnap info) (\<lambda>err. case err of
                 Some _ \<Rightarrow> retG ()
               | None \<Rightarrow> releaseSnapshot c zsnap)))"
proof (rule safe_new_snapshot [OF assms(2)], rule triple_retG_weak, assumption)
  fix z
  have *: "triple True (some_snapshot c z) (snap_setInfo env z info)
      (\<lambda>err s. some_snapshot c z s \<and> err = None)"
    by (rule triple_conseq [OF triple_conj [OF some_snapshot_triple setInfo_no_error [OF assms(1)]]])
      (rule under_snap, simp_all)
  show "triple True (some_snapshot c z) (bindG (snap_setInfo env z info) (\<lambda>err. case err of
                 Some _ \<Rightarrow> retG () | None \<Rightarrow> releaseSnapshot c z)) (\<lambda>_. held {} {} c)"
  proof (rule triple_bindG [OF *])
    show "triple True (\<lambda>s. some_snapshot c z s \<and> err = None)
        (case err of Some _ \<Rightarrow> retG () | None \<Rightarrow> releaseSnapshot c z) (\<lambda>_. held {} {} c)" for err
      by (cases err) (simp_all add: release_some_snapshot)
  qed
qed

text \<open>What the appliance answers to a list request, and to that of all snapshots.\<close>

lemma list_request_answer:
  "triple True tokens_settled (list_request env t fmt args decode)
     (\<lambda>res s. \<forall>l. res = Inr l \<longrightarrow> l = [] \<or> (\<exists>b. decode b = Some l))"
  unfolding list_request_def request_def bindG_assoc
proof (rule rest_op_then [OF rest_op_derefG], rule triple_bindG [OF MakeRequest_answer],
    rule triple_retG_weak, goal_cases)
  case (1 token x s)
  obtain v code err where x: "x = (v, code, err)" by (cases x)
  have dec: "\<exists>b'. decode b' = Some l"
    if "unmarshalListType env decode b = Decoded l" for b l
    using that
    by (auto simp: unmarshalListType_def zfssaUnmarshalList_def Let_def split: option.splits if_splits)
  show ?case
    using 1 dec by (auto simp: x answer_def good_answer_def split: option.splits)
qed

lemma GetSnapshots_answer:
  "triple True tokens_settled (GetSnapshots env t href)
     (\<lambda>res s. \<forall>l. res = Inr l \<longrightarrow> l = [] \<or> (\<exists>b. decSnapshotList env b = Some l))"
  unfolding GetSnapshots_def by (intro triple_if list_request_answer)

lemma safe_refresh_snapshots:
  assumes "dates_readable env" "c \<noteq> None"
  shows "safe c (bindG (GetSnapshots env t []) (\<lambda>snapList. case snapList of
       Inl e \<Rightarrow> retG (Some e)
     | Inr l \<Rightarrow>
     seqG (forG l (\<lambda>snapInfo.
       bindG (derefG (\<lambda>s. restHeap s t)) (\<lambda>token.
       case SnapshotIdFromHref (tokName token) (snHref snapInfo) of
         Inl _ \<Rightarrow> retG ()
       | Inr sid \<Rightarrow>
           bindG (newSnapshot env c t (snName snapInfo) (VolumeId_String (sidVolumeId sid))) (\<lambda>zsnap.
           case zsnap of
             Inl _ \<Rightarrow> retG ()
           | Inr zsnap \<Rightarrow>
               bindG (snap_setInfo env zsnap snapInfo) (\<lambda>err. case err of
                 Some _ \<Rightarrow> retG ()
               | None \<Rightarrow> releaseSnapshot c zsnap)))))
     (retG None)))"
proof -
  have snaps: "triple True (held {} {} c) (GetSnapshots env t [])
      (\<lambda>res s. held {} {} c s \<and> (\<forall>l. res = Inr l \<longrightarrow> l = [] \<or> (\<exists>b. decSnapshotList env b = Some l)))"
    by (rule triple_conseq [OF triple_conj [OF under_held GetSnapshots_answer]])
      (intro under_rules, simp_all add: held_def)
  show ?thesis
  proof (rule triple_bindG [OF snaps], goal_cases)
    case (1 res)
    show ?case
    proof (cases res)
      case (Inl e)
      show ?thesis unfolding Inl sum.case by (rule triple_retG_weak) simp
    next
      case (Inr l)
      let ?body = "\<lambda>snapInfo. bindG (derefG (\<lambda>s. restHeap s t)) (\<lambda>token.
         case SnapshotIdFromHref (tokName token) (snHref snapInfo) of
           Inl _ \<Rightarrow> retG ()
         | Inr sid \<Rightarrow>
             bindG (newSnapshot env c t (snName snapInfo) (VolumeId_String (sidVolumeId sid))) (\<lambda>zsnap.
             case zsnap of
               Inl _ \<Rightarrow> retG ()
             | Inr zsnap \<Rightarrow>
                 bindG (snap_setInfo env zsnap snapInfo) (\<lambda>err. case err of
                   Some _ \<Rightarrow> retG ()
                 | None \<Rightarrow> releaseSnapshot c zsnap)))"
      have "safe c (seqG (forG l ?body) (retG None))" if "l = [] \<or> (\<exists>b. decSnapshotList env b = Some l)"
      proof (rule triple_seqG [OF triple_forG_in], rule safe_rest [OF rest_op_derefG],
          rule triple_sum, rule triple_retG_weak, assumption, rule safe_refresh_snapshot)
        fix info assume "info \<in> set l"
        with that assms(1) show "Atoi (take 4 (snCreation info)) \<noteq> None"
          unfolding dates_readable_def by force
      qed (rule assms(2), rule triple_retG_weak)
      then have "triple True (\<lambda>s. (l = [] \<or> (\<exists>b. decSnapshotList env b = Some l)) \<and> held {} {} c s)
          (seqG (forG l ?body) (retG None)) (\<lambda>_. held {} {} c)"
        by (rule triple_pre_conj)
      then show ?thesis unfolding Inr sum.case by (rule triple_weaken_pre) simp
    qed
  qed
qed

lemma safe_updateSnapshotList:
  assumes "dates_readable env" "c \<noteq> None"
  shows "safe c (updateSnapshotList env c)"
  unfolding updateSnapshotList_def
  by (rule safe_rest [OF rest_op_getUserLogin], rule triple_sum, rule triple_retG_weak, assumption,
    rule triple_prod, rule safe_rest [OF rest_op_LookUpToken], rule safe_refresh_snapshots [OF assms])

lemma safe_getSnapshotList:
  assumes "dates_readable env" "c \<noteq> None"
  shows "safe c (getSnapshotList env c)"
proof -
  have read: "triple True P (mapG (\<lambda>(_, zsnap). bindG (getSnap zsnap) (\<lambda>z. retG (csi_snapshot_of z))) l)
      (\<lambda>_. P)" for P :: "('a, 'b) driver_scheme \<Rightarrow> bool" and l :: "(string \<times> nat) list"
    unfolding getSnap_def by (rule triple_reads)
  show ?thesis
    unfolding getSnapshotList_def
    by (rule triple_bindG [OF safe_updateSnapshotList [OF assms]], rule triple_option,
        rule triple_seqG [OF reading(3)], rule triple_read, rule triple_bindG [OF read],
        rule triple_seqG [OF reading(4)], rule triple_retG_weak, assumption, rule triple_retG_weak)
qed

definition lists_all :: "ListSnapshotsRequest \<Rightarrow> bool" where
  "lists_all req \<longleftrightarrow> lsSnapshotId req = [] \<and> lsSourceVolumeId req = []"

lemma safe_ListSnapshots:
  assumes "lists_all req \<longrightarrow> dates_readable env" "c \<noteq> None"
  shows "safe c (ListSnapshots env c req)"
proof -
  have one: "safe c (bindG (lookupSnapshot env c t i) (\<lambda>res. case res of
          Inl _ \<Rightarrow> retG []
        | Inr zsnap \<Rightarrow>
            bindG (getSnap zsnap) (\<lambda>z.
            seqG (releaseSnapshot c zsnap) (retG [(csi_snapshot_of z)\<lparr>csReadyToUse := True\<rparr>]))))" for t i
    by (rule safe_lookup_snapshot, rule triple_retG_weak, assumption,
        rule triple_bindG [OF got_snapshot_triple], intro under_rules,
        rule triple_seqG [OF releaseSnapshot_triple(1)], rule triple_retG_weak)
  have source: "safe c (bindG (lookupVolume env c t i) (\<lambda>res. case res of
          Inl _ \<Rightarrow> retG []
        | Inr zvol \<Rightarrow>
            bindG (zvol_getSnapshotsList env t zvol) (\<lambda>l.
            seqG (releaseVolume c zvol) (retG (case l of Inl _ \<Rightarrow> [] | Inr entries \<Rightarrow> entries)))))" for t i
  proof (rule safe_lookup, rule triple_retG_weak, assumption, rule triple_bindG [OF under_held],
      rule under_zvol, simp, rule triple_seqG)
    show "triple True (held {r} {} c) (releaseVolume c r) (\<lambda>_. held {} {} c)" for r
      by (rule triple_conseq [OF releaseVolume_triple [where V = "{r}" and S = "{}"]])
        (simp_all add: not_source_def)
  qed (rule triple_retG_weak)
  have lists: "safe c (list_snapshots env c t req)" for t
    unfolding list_snapshots_def
  proof (intro triple_if one source triple_bindG [OF safe_getSnapshotList] triple_retG_weak assms(2))
    assume "\<not> length (lsSnapshotId req) > 0" "\<not> length (lsSourceVolumeId req) > 0"
    then show "dates_readable env" using assms(1) by (simp add: lists_all_def)
  qed
  show ?thesis
    unfolding ListSnapshots_def
    by (intro triple_option triple_if triple_retG_weak safe_with_token triple_bindG [OF lists]
        triple_bindG [OF safe_page])
qed

section \<open>Every request\<close>

definition ok_request :: "'w env \<Rightarrow> csi_request \<Rightarrow> bool" where
  "ok_request env rq = (case rq of
     CreateVolumeReq req \<Rightarrow> other_source req
   | ListSnapshotsReq req \<Rightarrow> lists_all req \<longrightarrow> dates_readable env
   | _ \<Rightarrow> True)"

lemma safe_reply: "safe c m \<Longrightarrow> safe c (reply f m)"
  unfolding reply_def by (erule triple_tryG) (simp, rule triple_retG_weak)

lemma serve_triple:
  assumes "ok_request env rq" "c \<noteq> None"
  shows "safe c (serve env c rq)"
  using assms
  by (cases rq)
    (simp_all add: ok_request_def safe_reply safe_CreateVolume safe_DeleteVolume safe_Publish
      safe_Unpublish safe_Validate safe_ListVolumes safe_GetCapacity safe_CreateSnapshot
      safe_DeleteSnapshot safe_ListSnapshots safe_Expand safe_GetVolume ControllerGetCapabilities_def
      triple_retG_weak)

lemma triple_mapG_in:
  "(\<And>x. x \<in> set xs \<Longrightarrow> triple p P (f x) (\<lambda>_. P)) \<Longrightarrow> triple p P (mapG f xs) (\<lambda>_. P)"
  by (induction xs) (auto intro!: triple_retG_weak triple_bindG)

lemma serve_all_triple:
  assumes "\<forall>(k, rq) \<in> set l. ok_request env rq"
  shows "triple True quiescent (serve_all env l) (\<lambda>_. quiescent)"
  unfolding serve_all_def
proof (rule triple_mapG_in, rule triple_prod)
  fix x k rq assume "x \<in> set l" "x = (k, rq)"
  with assms have "ok_request env rq" by auto
  from serve_triple [OF this, of "Some k"] show "triple True quiescent (serve env (Some k) rq) (\<lambda>_. quiescent)"
    by (simp add: quiescent_held [of _ "Some k", abs_def])
qed

end
