(* ===== verification/Examples.thy ===== *)
theory Examples
  imports Service
begin

text \<open>
  A small concrete environment on which the properties with hypotheses are instantiated: the
  appliance answers with a given list of responses, one per request, and the decoders make a
  structure of the body without parsing it.
\<close>

definition script_http :: "http_request \<Rightarrow> http_result list \<Rightarrow> http_result \<times> http_result list" where
  "script_http rq w = (case w of [] \<Rightarrow> (DoError ''no answer'', []) | x # xs \<Rightarrow> (x, xs))"

definition demo_snapshot :: "string \<Rightarrow> Snapshot" where
  "demo_snapshot b = zero_Snapshot\<lparr>snName := ''s'', snCreation := b,
     snNumClones := (if b = ''cloned'' then 2 else 0),
     snHref := ''/api/storage/v1/pools/p/projects/q/filesystems/f/snapshots/s''\<rparr>"

definition demo_pool :: "int \<Rightarrow> Pool" where
  "demo_pool n = zero_Pool\<lparr>poUsage := (poUsage zero_Pool)\<lparr>puAvailable := n\<rparr>\<rparr>"

definition script_env :: "http_result list env" where
  "script_env = \<lparr>envHttp = script_http, envRequestOk = (\<lambda>_ _. True),
     envReadFile = (\<lambda>_ _. Some ''file''), envCertsOk = (\<lambda>_. True),
     envYamlCredentials = (\<lambda>_. Some (''root'', ''secret'')), envClock = (\<lambda>_ _ _ _ _ _. 7),
     envNodeName = (\<lambda>n _. Some n), envMapOrder = (\<lambda>l. l), envJsonValue = (\<lambda>b. Some b),
     decFilesystem = (\<lambda>b. Some (zero_Filesystem\<lparr>fsName := b, fsQuota := 10, fsMountPoint := ''/export/f'',
       fsHref := ''/api/storage/v2/pools/p/projects/q/filesystems/f''\<rparr>)),
     decFilesystemList = (\<lambda>b. Some [zero_Filesystem\<lparr>fsName := ''f'', fsPool := ''p'', fsProject := ''q''\<rparr>]),
     decLun = (\<lambda>b. Some (zero_Lun\<lparr>lunName := b, lunVolumeSize := 10, lunAssignedNumber := [1],
       lunInitiatorGroup := [b]\<rparr>)),
     decLunList = (\<lambda>b. Some []),
     decSnapshot = (\<lambda>b. Some (demo_snapshot b)),
     decSnapshotList = (\<lambda>b. Some (if b = ''[]'' then [] else [demo_snapshot (tl b)])),
     decDependentList = (\<lambda>b. Some []),
     decPool = (\<lambda>b. Some (zero_Pool\<lparr>poStatus := b\<rparr>)), decPoolList = (\<lambda>b. Some [demo_pool 5, demo_pool 7]),
     decProject = (\<lambda>b. Some zero_Project), decProjectList = (\<lambda>b. Some []),
     decTargetGroup = (\<lambda>b. Some zero_TargetGroup), decServiceList = (\<lambda>b. Some [])\<rparr>"

text \<open>The driver after its start, and with one valid token, reference 0, of the user root.\<close>

definition boot :: "http_result list \<Rightarrow> http_result list driver" where
  "boot w = \<lparr>restTokens = Some [], restHeap = (\<lambda>_. None), restNext = 0, InsecureSkipVerify = False,
     zfssaCertLocation = ''/mnt/certs/zfssa.crt'',
     zServicesURL = ''https://z:215/api/access/v2'', zName = ''z'', world = w,
     cfgAppliance = ''z'', cfgCredLocation = ''/mnt/zfssa/zfssa.yaml'', clientset = True, vMutex = RWFree, vHash = [],
     sMutex = RWFree, sHash = [], vols = (\<lambda>_. None), snaps = (\<lambda>_. None), nextRef = 0\<rparr>"

definition boot_token :: "http_result list \<Rightarrow> http_result list driver" where
  "boot_token w = (boot w)\<lparr>restTokens := Some [(''root'', 0)],
     restHeap := [0 \<mapsto> \<lparr>tokName = ''z'', tokUser = ''root'', tokPassword = ''secret'',
       tokState = zfssaTokenValid, tokXAuthSession = ''session'', tokXAuthName = ''root''\<rparr>],
     restNext := 1\<rparr>"

definition ok_answer :: "int \<Rightarrow> string \<Rightarrow> http_result" where
  "ok_answer code b = Response code (Some b) [] []"

lemmas demo_defs = script_env_def script_http_def boot_def boot_token_def ok_answer_def
  demo_snapshot_def

lemma boot_settled [simp]: "tokens_settled (boot w)" "tokens_settled (boot_token w)"
  by (simp_all add: tokens_settled_def boot_def boot_token_def)

lemma boot_quiescent [simp]: "quiescent (boot w)" "quiescent (boot_token w)"
  using boot_settled [of w]
  by (simp_all add: quiescent_def held_def cache_inv_def sources_def fresh_refs_def boot_token_def
      boot_def tokens_settled_def)

text \<open>Requests for the volume \<open>f\<close> of the pool \<open>p\<close> and the project \<open>q\<close>.\<close>

definition demo_create :: "content_source option \<Rightarrow> csi_request" where
  "demo_create src = CreateVolumeReq \<lparr>cvName = ''f'', cvCapacityRange = None,
     cvVolumeCapabilities = [\<lparr>capBlock = False, capAccessMode = Some SINGLE_NODE_WRITER\<rparr>],
     cvParameters = [(''pool'', ''p''), (''project'', ''q'')], cvSecrets = None,
     cvVolumeContentSource = src\<rparr>"

definition demo_request :: CreateVolumeRequest where
  "demo_request = \<lparr>cvName = ''f'', cvCapacityRange = Some \<lparr>RequiredBytes = 10, LimitBytes = 0\<rparr>,
     cvVolumeCapabilities = [\<lparr>capBlock = False, capAccessMode = Some SINGLE_NODE_WRITER\<rparr>],
     cvParameters = [(''pool'', ''p''), (''project'', ''q'')], cvSecrets = None,
     cvVolumeContentSource = None\<rparr>"

definition demo_list :: csi_request where
  "demo_list = ListSnapshotsReq \<lparr>lsStartingToken = [], lsMaxEntries = 0, lsSnapshotId = [],
     lsSourceVolumeId = [], lsSecrets = None\<rparr>"

end
