(* ===== verification/RestProperties.thy ===== *)
theory RestProperties
  imports Examples "HOL-Library.Multiset"
begin

text \<open>
  What the REST package promises: the life of a token, the token list, the number of requests
  a call may send, the meaning of a nil error and the properties of a new filesystem.
\<close>

section \<open>Tokens\<close>

text \<open>
  C22: A call of \<open>getToken\<close> ends, and only in two ways that concern the token: with a valid
  token and the session it holds, or with an error and an invalid token.  Two rounds of its
  loop always suffice.
\<close>

theorem getToken_result:
  assumes "tokens_settled s" "getToken env t previous s = (r, s')"
  shows "r \<noteq> Deadlock \<and>
    (\<forall>x. r = Done (Inr x) \<longrightarrow> (\<exists>k. restHeap s' t = Some k \<and> tokState k = zfssaTokenValid \<and>
       tokXAuthSession k = x)) \<and>
    (\<forall>e. r = Done (Inl e) \<longrightarrow> (\<exists>k. restHeap s' t = Some k \<and> tokState k = zfssaTokenInvalid)) \<and>
    getToken_loop env (Suc (Suc n)) t previous s = (r, s')"
  using getToken_run [OF assms] getToken_enough [of env n t previous s] assms(2) by auto

theorem getToken_result_witness:
  "getToken_loop script_env 9 0 (Some ''session'') (boot_token [Response 201 (Some []) ''new'' ''root''])
     = getToken script_env 0 (Some ''session'') (boot_token [Response 201 (Some []) ''new'' ''root'']) \<and>
   fst (getToken script_env 0 (Some ''session'') (boot_token [Response 201 (Some []) ''new'' ''root'']))
     = Done (Inr ''new'')"
proof -
  let ?s = "boot_token [Response 201 (Some []) ''new'' ''root'']"
  obtain r s' where m: "getToken script_env 0 (Some ''session'') ?s = (r, s')"
    by (cases "getToken script_env 0 (Some ''session'') ?s")
  have "fst (getToken script_env 0 (Some ''session'') ?s) = Done (Inr ''new'')" by code_simp
  with getToken_result [OF boot_settled(2) m, of 7] m show ?thesis by (simp add: numeral_eq_Suc)
qed

text \<open>
  Looking a user up twice gives the same token, and the second time the password of the
  token is the last one given, unless that was empty.
\<close>

theorem LookUpToken_stable:
  assumes "LookUpToken user password s = (Done t, s')" "LookUpToken user password' s' = (r, s'')"
    "restHeap s' t \<noteq> None"
  shows "r = Done t \<and> restTokens s'' = restTokens s' \<and> restNext s'' = restNext s' \<and>
    map_option tokPassword (restHeap s'' t) =
      (if password' = [] then map_option tokPassword (restHeap s' t) else Some password')"
proof -
  have "(case restTokens s' of None \<Rightarrow> None | Some al \<Rightarrow> map_of al user) = Some t"
    using assms(1)
    by (auto simp: LookUpToken_def go_defs update_conv' split: option.splits if_splits prod.splits outcome.splits)
  with assms(2,3) show ?thesis
    by (auto simp: LookUpToken_def split: option.splits if_splits)
qed

theorem LookUpToken_stable_witness:
  "fst (LookUpToken ''root'' ''other'' (snd (LookUpToken ''root'' ''secret'' (boot [])))) = Done 0"
proof -
  let ?s = "snd (LookUpToken ''root'' ''secret'' (boot []))"
  have l: "LookUpToken ''root'' ''secret'' (boot []) = (Done 0, ?s)"
    by (simp add: LookUpToken_def boot_def)
  have h: "restHeap ?s 0 \<noteq> None" by (simp add: LookUpToken_def boot_def)
  obtain r s'' where m: "LookUpToken ''root'' ''other'' ?s = (r, s'')"
    by (cases "LookUpToken ''root'' ''other'' ?s")
  from LookUpToken_stable [OF l m h] m show ?thesis by simp
qed

text \<open>
  With an insecure connection the token list is never made: \<open>InitREST\<close> reports no error
  and the first request of any user writes into a nil map.
\<close>

theorem insecure_token_list_is_nil:
  assumes "restTokens s = None" "InitREST env name cert False s = (r, s')"
  shows "r = Done None \<and> fst (LookUpToken user password s') = Panic ''assignment to entry in nil map''"
  using assms by (auto simp: InitREST_def resetHttpTlsClient_def LookUpToken_def)

theorem insecure_token_list_is_nil_witness:
  "fst (LookUpToken ''root'' ''secret'' (snd (InitREST script_env ''z'' [] False
     ((boot [])\<lparr>restTokens := None\<rparr>)))) = Panic ''assignment to entry in nil map''"
proof -
  let ?s = "(boot [])\<lparr>restTokens := None\<rparr>"
  obtain r s' where m: "InitREST script_env ''z'' [] False ?s = (r, s')"
    by (cases "InitREST script_env ''z'' [] False ?s")
  have "restTokens ?s = None" by simp
  from insecure_token_list_is_nil [OF this m] m show ?thesis by simp
qed

section \<open>Requests\<close>

text \<open>
  C29: One call of \<open>MakeRequest\<close> sends at most two API requests and at most four session
  requests, whatever the appliance answers: a meter that every API request advances by \<open>a\<close>
  and every session request by \<open>b\<close> advances by at most \<open>2 * a + 4 * b\<close>.
\<close>

theorem MakeRequest_sends_few:
  fixes meter :: "'w \<Rightarrow> nat"
  assumes "\<forall>rq w. meter (snd (envHttp env rq w)) = meter w + (if is_api rq then a else b)"
  shows "meter (world (snd (MakeRequest env t httpMethod url reqbody status decode rspbody s)))
    \<le> meter (world s) + (2 * a + 4 * b)"
proof -
  from assms have "counts env meter a b" by (simp add: counts_def)
  from costs_MakeRequest [OF this, of t httpMethod url reqbody status decode rspbody]
  show ?thesis unfolding costs_def by (rule spec)
qed

text \<open>An appliance that counts the requests and answers 401 to all of them.\<close>

definition counting_env :: "nat env" where
  "counting_env = \<lparr>envHttp = (\<lambda>rq n. (if is_api rq then ok_answer 401 [] else Response 201 (Some []) ''x'' ''root'', Suc n)),
     envRequestOk = (\<lambda>_ _. True), envReadFile = (\<lambda>_ _. None), envCertsOk = (\<lambda>_. True),
     envYamlCredentials = (\<lambda>_. None), envClock = (\<lambda>_ _ _ _ _ _. 0), envNodeName = (\<lambda>_ _. None),
     envMapOrder = (\<lambda>l. l), envJsonValue = Some, decFilesystem = (\<lambda>_. None),
     decFilesystemList = (\<lambda>_. None), decLun = (\<lambda>_. None), decLunList = (\<lambda>_. None),
     decSnapshot = (\<lambda>_. None), decSnapshotList = (\<lambda>_. None), decDependentList = (\<lambda>_. None),
     decPool = (\<lambda>_. None), decPoolList = (\<lambda>_. None), decProject = (\<lambda>_. None),
     decProjectList = (\<lambda>_. None), decTargetGroup = (\<lambda>_. None), decServiceList = (\<lambda>_. None)\<rparr>"

theorem MakeRequest_sends_few_witness:
  "\<forall>s. world (snd (MakeRequest counting_env 0 ''GET'' ''u'' NoBody StatusOK
     (unmarshal (decPool counting_env)) zero_Pool (s :: nat driver))) \<le> world s + 6"
proof
  fix s :: "nat driver"
  have "\<forall>rq w. id (snd (envHttp counting_env rq w)) = id w + (if is_api rq then 1 else 1)"
    by (simp add: counting_env_def)
  from MakeRequest_sends_few [OF this, of 0 "''GET''" "''u''" NoBody StatusOK
    "unmarshal (decPool counting_env)" zero_Pool s]
  show "world (snd (MakeRequest counting_env 0 ''GET'' ''u'' NoBody StatusOK
     (unmarshal (decPool counting_env)) zero_Pool s)) \<le> world s + 6" by simp
qed

text \<open>
  The properties sent for a new filesystem do not depend on the order in which Go visits
  the map of the parameters.
\<close>

theorem buildFilesystemReq_order:
  assumes "distinct (map fst ps)" "mset ps = mset qs"
  shows "buildFilesystemReq name volSize ps = buildFilesystemReq name volSize qs"
proof
  fix k
  have d: "distinct (map fst qs)"
    using assms by (metis mset_eq_imp_distinct_iff mset_map)
  have "map_of ps key = map_of qs key" for key
    using assms(1) d mset_eq_setD [OF assms(2)] by (metis map_of_eq_Some_iff option.exhaust)
  then show "buildFilesystemReq name volSize ps k = buildFilesystemReq name volSize qs k"
    using assms(1) d by (simp add: buildFilesystemReq_def fold_fs_property split: option.split)
qed

theorem buildFilesystemReq_order_witness:
  "buildFilesystemReq ''n'' 5 [(''rootUser'', ''u''), (''shareNFS'', ''on'')] =
     buildFilesystemReq ''n'' 5 [(''shareNFS'', ''on''), (''rootUser'', ''u'')]"
  by (rule buildFilesystemReq_order) simp_all

end
