(* ===== verification/CacheProperties.thy ===== *)
theory CacheProperties
  imports Examples
begin

text \<open>
  What the cache of volumes promises a request, and where it does not hold: exclusive access
  with a balanced release, no request to the appliance for what is cached, a deletion that
  leaves nothing behind; a cache keyed by the bare name, a request that waits for itself, and
  snapshots that outlive the cached volume they point to.
\<close>

section \<open>Failed lookups and deletions leave the cache\<close>

lemma delete_uncreated:
  "triple True tokens_settled (zvol_delete env t r) (\<lambda>res s. res = Inr () \<longrightarrow> \<not> created r s)"
proof -
  let ?F = "\<lambda>hv :: nat \<Rightarrow> zVolumeInterface option. \<exists>f. hv r = Some (FS f)"
  let ?L = "\<lambda>hv :: nat \<Rightarrow> zVolumeInterface option. \<exists>l. hv r = Some (LUN l)"
  let ?D = "\<lambda>hv :: nat \<Rightarrow> zVolumeInterface option. \<exists>l. hv r = Some (LUN l) \<and> vState l \<noteq> stateCreated"
  have set_fs: "triple True (\<lambda>s. ?F (vols s) \<and> tokens_settled s)
      (seqG (modFS r (\<lambda>fs. fs\<lparr>vState := stateDeleted\<rparr>)) (retG (Inr ())))
      (\<lambda>res s. res = Inr () \<longrightarrow> \<not> created r s)"
    by (auto simp: triple_def modFS_def created_def)
  have set_lun: "triple True (\<lambda>s. ?L (vols s) \<and> tokens_settled s)
      (seqG (modLUN r (\<lambda>lun. lun\<lparr>vState := stateDeleted\<rparr>)) (retG (Inr ())))
      (\<lambda>res s. res = Inr () \<longrightarrow> \<not> created r s)"
    by (auto simp: triple_def modLUN_def created_def)
  have fs: "triple True (\<lambda>s. ?F (vols s) \<and> tokens_settled s) (fs_delete env t r)
      (\<lambda>res s. res = Inr () \<longrightarrow> \<not> created r s)"
    unfolding fs_delete_def getFS_def
    by (rule triple_bindG [OF triple_deref], rule triple_tryG [OF rest_op_keeps_vols], rule rest_ops, simp,
        intro triple_if, rule triple_retG_weak, simp, rule triple_bindG [OF rest_op_keeps_vols],
        rule rest_ops, intro triple_prod triple_sum triple_if set_fs triple_retG_weak) simp
  have lun: "triple True (\<lambda>s. ?L (vols s) \<and> tokens_settled s) (lun_delete env t r)
      (\<lambda>res s. res = Inr () \<longrightarrow> \<not> created r s)"
  proof (rule tripleI, goal_cases)
    case (1 s)
    then obtain l where l: "vols s r = Some (LUN l)" by blast
    have del: "triple True (\<lambda>s. ?L (vols s) \<and> tokens_settled s)
        (bindG (DeleteLun env t (vidPool (vId l)) (vidProject (vId l)) (vidName (vId l)))
          (\<lambda>(httpStatus, res). case res of
             Inl err \<Rightarrow>
               if httpStatus \<noteq> StatusNotFound then retG (Inl err)
               else seqG (modLUN r (\<lambda>lun. lun\<lparr>vState := stateDeleted\<rparr>)) (retG (Inr ()))
           | Inr _ \<Rightarrow> seqG (modLUN r (\<lambda>lun. lun\<lparr>vState := stateDeleted\<rparr>)) (retG (Inr ()))))
        (\<lambda>res s. res = Inr () \<longrightarrow> \<not> created r s)"
      by (rule triple_bindG [OF rest_op_keeps_vols], rule rest_ops,
          intro triple_prod triple_sum triple_if set_lun triple_retG_weak) simp
    show ?case
      using del [unfolded triple_def, rule_format, OF 1] l
      by (simp add: lun_delete_def getLUN_def created_def)
  qed
  show ?thesis
    unfolding zvol_delete_def
    by (rule triple_zvol_call; rule triple_weaken_pre [OF fs] triple_weaken_pre [OF lun]) simp_all
qed

section \<open>Runs that end\<close>

lemma bindG_DoneD: "bindG m f s = (Done x, s') \<Longrightarrow> \<exists>y s1. m s = (Done y, s1) \<and> f y s1 = (Done x, s')"
  by (auto simp: bindG_def split: prod.splits outcome.splits)

lemma deferG_DoneD:
  "deferG fin m s = (Done x, s') \<Longrightarrow> \<exists>s1. m s = (Done x, s1) \<and> fin s1 = (Done (), s')"
  by (auto simp: deferG_def seqG_def dest!: bindG_DoneD)

lemma tryG_DoneD:
  "tryG m k s = (Done (Inr x), s') \<Longrightarrow> \<exists>y s1. m s = (Done (Inr y), s1) \<and> k y s1 = (Done (Inr x), s')"
  by (auto simp: tryG_def dest!: bindG_DoneD split: sum.splits)

lemma with_token_DoneD:
  assumes "with_token env secrets k s = (Done (Inr x), s')" "held V S c s"
  obtains t s1 where "k t s1 = (Done (Inr x), s')" "held V S c s1" "rest.more s1 = rest.more s"
proof -
  obtain login s0 where l: "getUserLogin env secrets s = (Done login, s0)"
      "(case login of Inl _ \<Rightarrow> failG Unauthenticated ''Invalid credentials''
        | Inr (user, password) \<Rightarrow> bindG (LookUpToken user password) k) s0 = (Done (Inr x), s')"
    using assms(1) unfolding with_token_def by (auto dest!: bindG_DoneD)
  obtain user password where up: "login = Inr (user, password)"
    using l(2) by (cases login) auto
  obtain t s1 where t: "LookUpToken user password s0 = (Done t, s1)" "k t s1 = (Done (Inr x), s')"
    using l(2) by (auto simp: up dest!: bindG_DoneD)
  have h0: "held V S c s0" using under_run(3) [OF under_rest [OF rest_op_getUserLogin] assms(2) l(1)] by simp
  have "held V S c s1" using under_run(3) [OF under_rest [OF rest_op_LookUpToken] h0 t(1)] by simp
  moreover have "rest.more s1 = rest.more s"
    using rest_op_more [OF rest_op_getUserLogin l(1)] rest_op_more [OF rest_op_LookUpToken t(1)] by simp
  ultimately show thesis using that t(2) by blast
qed

lemma delete_volume_uncaches:
  assumes "got_volume {} {} c name r s1"
    "deferG (releaseVolume c r) (tryG (zvol_getSnapshotsList env t r) (\<lambda>entries.
        if length entries > 0 then failG FailedPrecondition msg else zvol_delete env t r)) s1 = (Done (Inr ()), s')"
  shows "map_of (vHash s') name = None"
proof -
  have held1: "held {r} {} c s1" and name1: "map_of (vHash s1) name = Some r"
    using assms(1) by (simp_all add: got_volume_def)
  obtain s3 where s3: "tryG (zvol_getSnapshotsList env t r) (\<lambda>entries.
        if length entries > 0 then failG FailedPrecondition msg else zvol_delete env t r) s1 = (Done (Inr ()), s3)"
      "releaseVolume c r s3 = (Done (), s')"
    using deferG_DoneD [OF assms(2)] by blast
  obtain entries s2 where s2: "zvol_getSnapshotsList env t r s1 = (Done (Inr entries), s2)"
      "zvol_delete env t r s2 = (Done (Inr ()), s3)"
    using tryG_DoneD [OF s3(1)] by (auto split: if_splits)
  note run2 = under_run [OF under_zvol(11) [OF singletonI] held1 s2(1)]
  have held2: "held {r} {} c s2" using run2(3) by simp
  note run3 = under_run [OF under_zvol(4) [OF singletonI] held2 s2(2)]
  have held3: "held {r} {} c s3" using run3(3) by simp
  have "tokens_settled s2" using held2 by (simp add: held_def)
  then have new: "\<not> created r s3" using triple_Done [OF delete_uncreated _ s2(2)] by simp
  have name3: "map_of (vHash s3) name = Some r"
    using name1 naming_simps(1) [OF run2(2)] naming_simps(1) [OF run3(2)] by simp
  have src: "not_source {} r s3" by (simp add: not_source_def)
  obtain s4 where "releaseVolume c r s3 = (Done (), s4)" "map_of (vHash s4) name = None"
    by (rule releaseVolume_held [OF held3 singletonI src]) (simp add: name3 new)
  with s3(2) show ?thesis by simp
qed

text \<open>
  C16: When \<open>DeleteVolume\<close> answers success, no volume of that name is left in the cache, on
  every path: deleted now, gone from the appliance before, or never known to it.
\<close>

theorem DeleteVolume_uncaches:
  assumes "quiescent s" "DeleteVolume env c i secrets s = (Done (Inr ()), s')"
    "VolumeIdFromString i = Inr vid"
  shows "map_of (vHash s') (vidName vid) = None"
proof -
  have "held {} {} c s" using assms(1) quiescent_held by blast
  then obtain t s1 where s1: "held {} {} c s1"
      "(if length i = 0 then failG InvalidArgument ''Volume ID not provided''
        else bindG (lookupVolume env c t i) (\<lambda>res. case res of
          Inl err \<Rightarrow> if err_code err = NotFound then retG (Inr ()) else retG (Inl err)
        | Inr zvol \<Rightarrow> deferG (releaseVolume c zvol)
            (tryG (zvol_getSnapshotsList env t zvol) (\<lambda>entries.
             if length entries > 0 then failG FailedPrecondition ''Volume (%s) has snapshots''
             else zvol_delete env t zvol)))) s1 = (Done (Inr ()), s')"
    using assms(2) unfolding DeleteVolume_def by (rule_tac with_token_DoneD) auto
  then obtain res s2 where l: "lookupVolume env c t i s1 = (Done res, s2)"
      "(case res of
          Inl err \<Rightarrow> if err_code err = NotFound then retG (Inr ()) else retG (Inl err)
        | Inr zvol \<Rightarrow> deferG (releaseVolume c zvol)
            (tryG (zvol_getSnapshotsList env t zvol) (\<lambda>entries.
             if length entries > 0 then failG FailedPrecondition ''Volume (%s) has snapshots''
             else zvol_delete env t zvol))) s2 = (Done (Inr ()), s')"
    by (auto split: if_splits dest!: bindG_DoneD)
  have pre: "held {} {} c s1 \<and> free_name {} (vidName vid) s1" using s1(1) by (simp add: free_name_def)
  from triple_Done [OF lookupVolume_triple [OF assms(3)] pre l(1)] l(2) show ?thesis
    by (cases res) (auto split: if_splits intro: delete_volume_uncaches)
qed

theorem DeleteVolume_uncaches_witness:
  "map_of (vHash (snd (DeleteVolume script_env (Some 1) ''/lun/z/p/q/f'' None
     (boot_token [ok_answer 200 ''f'', ok_answer 200 ''{[]}'', ok_answer 204 []])))) ''f'' = None"
proof -
  let ?m = "DeleteVolume script_env (Some 1) ''/lun/z/p/q/f'' None
     (boot_token [ok_answer 200 ''f'', ok_answer 200 ''{[]}'', ok_answer 204 []])"
  have r: "fst ?m = Done (Inr ())" by code_simp
  obtain s' where m: "?m = (Done (Inr ()), s')" using r by (cases ?m) simp
  have i: "VolumeIdFromString ''/lun/z/p/q/f'' = Inr \<lparr>vidType = ''lun'', vidZfssa = ''z'',
     vidPool = ''p'', vidProject = ''q'', vidName = ''f''\<rparr>" by code_simp
  show ?thesis
    using DeleteVolume_uncaches [OF boot_quiescent(2) m i] unfolding m snd_conv by (simp only: VolumeId.simps)
qed

section \<open>Getting a volume\<close>



text \<open>
  The cache is keyed by the bare name: two IDs that agree in the name only, in other
  pools, projects or of the other kind, look up the same volume once it is cached, and
  \<open>newVolume\<close> hands it out for any pool, project and kind; no request is sent, so nothing
  notices.
\<close>

theorem cache_key_is_bare_name:
  assumes "quiescent s" "map_of (vHash s) (vidName vid) = Some r" "VolumeIdFromString i = Inr vid"
  shows "(\<exists>s'. lookupVolume env c t i s = (Done (Inr r), s') \<and> world s' = world s) \<and>
    (\<exists>s'. newVolume c pool project (vidName vid) block s = (Done (Inr r), s') \<and> world s' = world s \<and>
       map_option getVolumeID (vols s' r) = map_option getVolumeID (vols s r))"
proof -
  have h: "held {} {} c s" using assms(1) quiescent_held by blast
  obtain v where "lookupVolume env c t i s = (Done (Inr r), putVol r (vlock.acquired c v) s)"
    using lookupVolume_cached [OF h assms(3,2)] by blast
  moreover have "world (putVol r (vlock.acquired c v) s) = world s" by simp
  ultimately show ?thesis
    using newVolume_cached [OF h assms(2), of pool project block] by blast
qed

text \<open>A quiescent state with one volume \<open>f\<close> of \<open>p/q\<close> cached, and a stale snapshot of an old one.\<close>

definition demo_volume :: zVolumeInterface where
  "demo_volume = onFS (\<lambda>v. v\<lparr>vState := stateCreated\<rparr>)
     (newFilesystem (NewVolumeId MountVolume ''z'' ''p'' ''q'' ''f''))"

definition stale_state :: "http_result list driver" where
  "stale_state = (boot_token [])\<lparr>vols := [0 \<mapsto> demo_volume, 1 \<mapsto> demo_volume],
     snaps := [2 \<mapsto> (newSnapshot_struct (NewSnapshotId (NewVolumeId MountVolume ''z'' ''p'' ''q'' ''f'') ''s'') 0)
       \<lparr>zState := stateCreated\<rparr>],
     vHash := [(''f'', 1)], sHash := [(''s'', 2)], nextRef := 3\<rparr>"

definition demo_create_f :: CreateVolumeRequest where
  "demo_create_f = \<lparr>cvName = ''f'', cvCapacityRange = None, cvVolumeCapabilities = [],
     cvParameters = [(''pool'', ''p''), (''project'', ''q'')], cvSecrets = None,
     cvVolumeContentSource = None\<rparr>"

lemma stale_quiescent: "quiescent stale_state"
  by (simp add: quiescent_def held_def stale_state_def demo_volume_def newFilesystem_def
      newSnapshot_struct_def cache_inv_def sources_def fresh_refs_def getName_def zName_of_def
      NewVolumeId_def NewSnapshotId_def boot_token_def boot_def tokens_settled_def)

theorem cache_key_is_bare_name_witness:
  "fst (lookupVolume script_env (Some 1) 0 ''/lun/z/other/pool/f'' stale_state) = Done (Inr 1)"
proof -
  have i: "VolumeIdFromString ''/lun/z/other/pool/f'' = Inr \<lparr>vidType = ''lun'', vidZfssa = ''z'',
     vidPool = ''other'', vidProject = ''pool'', vidName = ''f''\<rparr>" (is "_ = Inr ?v") by code_simp
  have "map_of (vHash stale_state) (vidName ?v) = Some 1" by (simp add: stale_state_def)
  from cache_key_is_bare_name [OF stale_quiescent this i, of script_env "Some 1" 0, THEN conjunct1]
  show ?thesis by auto
qed

text \<open>
  A request that holds a volume and looks up a name under which that volume is cached
  waits for itself for ever.
\<close>

theorem lookup_of_held_volume_deadlocks:
  assumes "held V S c s" "c \<noteq> None" "r \<in> V" "map_of (vHash s) (vidName vid) = Some r"
    "VolumeIdFromString i = Inr vid"
  shows "fst (lookupVolume env c t i s) = Deadlock"
proof -
  obtain v where v: "vols s r = Some v" "getBolt v = c"
    using assms(1,3) unfolding held_def by (elim conjE vcached.inv_held)
  have "vMutex s = RWFree" using assms(1) by (simp add: held_def)
  moreover have "bolt_lock c c = None" using assms(2) by (cases c) (simp_all add: bolt_lock_def)
  ultimately show ?thesis
    using v assms(4,5) by (simp add: lookupVolume_def cache_run)
qed

theorem lookup_of_held_volume_deadlocks_witness:
  "\<exists>s. newVolume (Some 1) ''p'' ''q'' ''f'' False stale_state = (Done (Inr 1), s) \<and>
     fst (lookupVolume script_env (Some 1) 0 ''/mnt/z/p/q/f'' s) = Deadlock"
proof -
  have h: "held {} {} (Some 1) stale_state" using stale_quiescent quiescent_held by blast
  have n: "map_of (vHash stale_state) ''f'' = Some 1" by (simp add: stale_state_def)
  obtain s where s: "newVolume (Some 1) ''p'' ''q'' ''f'' False stale_state = (Done (Inr 1), s)"
      "got_volume {} {} (Some 1) ''f'' 1 s"
    using newVolume_cached [OF h n] by blast
  have i: "VolumeIdFromString ''/mnt/z/p/q/f'' = Inr \<lparr>vidType = ''mnt'', vidZfssa = ''z'',
     vidPool = ''p'', vidProject = ''q'', vidName = ''f''\<rparr>" (is "_ = Inr ?v") by code_simp
  have "held {1} {} (Some 1) s" "map_of (vHash s) (vidName ?v) = Some 1"
    using s(2) by (simp_all add: got_volume_def)
  from lookup_of_held_volume_deadlocks [OF this(1) _ singletonI this(2) i] s(1) show ?thesis by auto
qed

section \<open>Snapshots of a volume that left the cache\<close>

lemma newVolume_kind:
  assumes "held {} {} c s" "newVolume c pool project name block s = (Done (Inr r), s')"
    "vols s r = Some (FS f)" "map_of (vHash s) name = Some r"
  shows "\<exists>f. vols s' r = Some (FS f)"
proof -
  have "vols s (nextRef s) = None" using assms(1) by (simp add: held_def fresh_refs_def)
  then have r: "r \<noteq> nextRef s" using assms(3) by auto
  have m: "vMutex s = RWFree" using assms(1) by (simp add: held_def)
  obtain v where v: "vols s r = Some v" "getBolt v = None" "getRefcount v = 0" "getState v = stateCreated"
    using assms(1,4) by (auto simp: held_def elim: vcached.inv_free)
  then show ?thesis
    using assms(2-4) m r by (auto simp: newVolume_def newVol_def cache_run split: if_splits)
qed

text \<open>
  C40: A cached snapshot that points to an older structure of its volume crashes the driver:
  every lookup of it panics.
\<close>

theorem stale_snapshot_panics:
  assumes "quiescent s" "SnapshotIdFromString i = Inr sid"
    "VolumeIdFromString (VolumeId_String (sidVolumeId sid)) = Inr vid"
    "map_of (vHash s) (vidName vid) = Some r" "map_of (sHash s) (sidName sid) = Some z"
    "map_option zVol (snaps s z) \<noteq> Some r"
  shows "fst (lookupSnapshot env c t i s) = Panic ''snapshot id and volume source inconsistent''"
proof -
  have h: "held {} {} c s" using assms(1) quiescent_held by blast
  obtain v where l: "lookupVolume env c t (VolumeId_String (sidVolumeId sid)) s =
      (Done (Inr r), putVol r (vlock.acquired c v) s)"
    using lookupVolume_cached [OF h assms(3,4)] by blast
  obtain o1 where o1: "snaps s z = Some o1"
    by (rule cached_snapshot [OF h assms(5)])
  have "sMutex s = RWFree" using h by (simp add: held_def)
  then show ?thesis
    using assms(2,5,6) l o1 by (simp add: lookupSnapshot_def cache_run getSnap_def)
qed

theorem stale_snapshot_panics_witness:
  "fst (lookupSnapshot script_env (Some 1) 0 ''/mnt/z/p/q/f/s'' stale_state) =
     Panic ''snapshot id and volume source inconsistent''"
proof -
  let ?v = "\<lparr>vidType = ''mnt'', vidZfssa = ''z'', vidPool = ''p'', vidProject = ''q'', vidName = ''f''\<rparr>"
  have i: "SnapshotIdFromString ''/mnt/z/p/q/f/s'' = Inr \<lparr>sidVolumeId = ?v, sidName = ''s''\<rparr>"
    by code_simp
  have v: "VolumeIdFromString (VolumeId_String (sidVolumeId \<lparr>sidVolumeId = ?v, sidName = ''s''\<rparr>)) = Inr ?v"
    by code_simp
  show ?thesis
    by (rule stale_snapshot_panics [OF stale_quiescent i v, where r = 1 and z = 2])
      (simp_all add: stale_state_def newSnapshot_struct_def)
qed

text \<open>
  How a snapshot becomes stale: a creation that finds its volume cached and fails with
  anything but a conflict drops the existing volume from the cache, and leaves the snapshots
  of it there.
\<close>

theorem failed_create_drops_cached_volume:
  assumes "quiescent s" "map_of (vHash s) (cvName req) = Some r" "vols s r = Some (FS f)"
    "newVolume c pool project (cvName req) block s = (Done (Inr r), s0)"
    "CreateFilesystem env t (cvName req) (getVolumeSize (cvCapacityRange req))
       (params_default ''shareNFS'' ''on'' (params_default ''restrictChown'' ''false'' (cvParameters req))) s0
     = (Done (code, Inl e), s1)" "code \<noteq> StatusConflict"
    "deferG (releaseVolume c r) (zvol_create env t r req) s0 = (res, s')"
  shows "res = Done (Inl e) \<and> map_of (vHash s') (cvName req) = None \<and> sHash s' = sHash s"
proof -
  have h: "held {} {} c s" using assms(1) quiescent_held by blast
  obtain s2 where s2: "newVolume c pool project (cvName req) block s = (Done (Inr r), s2)"
      "got_volume {} {} c (cvName req) r s2"
    using newVolume_cached [OF h assms(2)] by blast
  then have h0: "held {r} {} c s0" "map_of (vHash s0) (cvName req) = Some r"
    using assms(4) by (simp_all add: got_volume_def)
  have kind: "\<exists>f. vols s0 r = Some (FS f)"
    by (rule newVolume_kind [OF h assms(4,3,2)])
  have more: "rest.more s1 = rest.more s0" by (rule rest_op_more [OF rest_op_api(1) assms(5)])
  have run: "zvol_create env t r req s0 =
      (Done (Inl e), s1\<lparr>vols := (vols s1)(r := map_option (onFS (\<lambda>fs. fs\<lparr>vState := stateDeleted\<rparr>)) (vols s1 r))\<rparr>)"
    (is "_ = (_, ?s)")
    using kind assms(5,6) by (auto simp: zvol_create_def zvol_call_def fs_create_def Let_def modFS_def)
  have held: "held {r} {} c ?s"
    using under_run(3) [OF under_zvol(1) [OF singletonI] h0(1) run] by simp
  have src: "not_source {} r ?s" by (simp add: not_source_def)
  have out: "\<not> created r ?s" "map_of (vHash ?s) (cvName req) = Some r" "sHash ?s = sHash s0"
    using kind h0(2) driver_more [OF more] by (auto simp: created_def)
  obtain s3 where s3: "releaseVolume c r ?s = (Done (), s3)"
      "\<And>k. map_of (vHash s3) k = (if map_of (vHash ?s) k = Some r \<and> \<not> created r ?s then None
         else map_of (vHash ?s) k)"
    by (rule releaseVolume_held [OF held singletonI src]) blast
  have gone: "map_of (vHash s3) (cvName req) = None"
    using out(1,2) by (simp only: s3(2) simp_thms if_True)
  have "deferG (releaseVolume c r) (zvol_create env t r req) s0 = (Done (Inl e), s3)"
    by (rule deferG_Done, rule run, rule s3)
  then have res: "res = Done (Inl e)" "s' = s3" using assms(7) by simp_all
  have "sHash s' = sHash s0"
    using keepsD [OF keeps_sHash_volume(1) s3(1)] out(3) res(2) by (simp add: same_def)
  moreover have "sHash s0 = sHash s" using keepsD [OF keeps_sHash_volume(2) assms(4)] by (simp add: same_def)
  ultimately show ?thesis using res gone by simp
qed

theorem failed_create_drops_cached_volume_witness:
  "\<exists>s0 s'. newVolume (Some 1) ''p'' ''q'' ''f'' False stale_state = (Done (Inr 1), s0) \<and>
     deferG (releaseVolume (Some 1) 1) (zvol_create script_env 0 1 demo_create_f) s0 =
       (Done (Inl (GStatus UnknownCode ''client.do call failed'')), s') \<and>
     map_of (vHash s') ''f'' = None \<and> sHash s' = [(''s'', 2)]"
proof -
  have h: "held {} {} (Some 1) stale_state" using stale_quiescent quiescent_held by blast
  have n: "map_of (vHash stale_state) (cvName demo_create_f) = Some 1"
    by (simp add: stale_state_def demo_create_f_def)
  obtain f where f: "vols stale_state 1 = Some (FS f)"
    by (simp add: stale_state_def demo_volume_def newFilesystem_def)
  obtain s0 where s0: "newVolume (Some 1) ''p'' ''q'' (cvName demo_create_f) False stale_state = (Done (Inr 1), s0)"
    using newVolume_cached [OF h n] by blast
  have s0': "s0 = snd (newVolume (Some 1) ''p'' ''q'' (cvName demo_create_f) False stale_state)"
    using s0 by simp
  let ?m = "CreateFilesystem script_env 0 (cvName demo_create_f) (getVolumeSize (cvCapacityRange demo_create_f))
       (params_default ''shareNFS'' ''on'' (params_default ''restrictChown'' ''false'' (cvParameters demo_create_f))) s0"
  have "fst ?m = Done (0, Inl (GStatus UnknownCode ''client.do call failed''))"
    unfolding s0' by code_simp
  then obtain s1 where s1: "?m = (Done (0, Inl (GStatus UnknownCode ''client.do call failed'')), s1)"
    by (cases ?m) simp
  obtain res s' where r: "deferG (releaseVolume (Some 1) 1) (zvol_create script_env 0 1 demo_create_f) s0 = (res, s')"
    by fastforce
  from failed_create_drops_cached_volume [OF stale_quiescent n f s0 s1 _ r] s0 r show ?thesis
    by (auto simp: StatusConflict_def demo_create_f_def stale_state_def)
qed

end
