(* ===== verification/ControllerProperties.thy ===== *)
theory ControllerProperties
  imports CacheProperties
begin

text \<open>
  What the handlers of the controller promise: sizes and capacities, pages of lists, and the
  guards that protect published LUNs and cloned snapshots; and where they do not keep a
  promise.
\<close>

section \<open>Sizes and capacities\<close>

text \<open>
  The size the driver asks for satisfies the check it makes on the size it gets, for every
  capacity range that is satisfiable: not negative, and with a limit that is zero or at least
  the required size.
\<close>

theorem getVolumeSize_in_range:
  assumes "0 \<le> RequiredBytes r" "0 \<le> LimitBytes r" "LimitBytes r = 0 \<or> RequiredBytes r \<le> LimitBytes r"
  shows "compareCapacityRange (Some r) (getVolumeSize (Some r)) \<and> 0 < getVolumeSize (Some r)"
  using assms by (auto simp: compareCapacityRange_def getVolumeSize_def DefaultVolumeSizeBytes_def)

theorem getVolumeSize_in_range_witness:
  "compareCapacityRange (Some \<lparr>RequiredBytes = 0, LimitBytes = 7\<rparr>) (getVolumeSize (Some \<lparr>RequiredBytes = 0, LimitBytes = 7\<rparr>))"
  by (rule getVolumeSize_in_range [THEN conjunct1]) simp_all

lemma wrap64_add: "wrap64 (wrap64 a + b) = wrap64 (a + b)"
proof -
  have "((a + 2 ^ 63) mod 2 ^ 64 + b) mod 2 ^ 64 = (a + 2 ^ 63 + b) mod (2 ^ 64 :: int)"
    by (rule mod_add_left_eq)
  then show ?thesis by (simp add: wrap64_def algebra_simps)
qed

lemma fold_wrap64:
  "fold (\<lambda>p a. wrap64 (a + f p)) ps (wrap64 a) = wrap64 (a + (\<Sum>p\<leftarrow>ps. f p))"
  by (induction ps arbitrary: a) (simp_all add: wrap64_add add.assoc)

text \<open>
  Without a pool and a project, \<open>GetCapacity\<close> answers the space of all pools the appliance
  lists, added in 64 bits: the exact sum whenever that fits.
\<close>

theorem GetCapacity_sums_pools:
  assumes "quiescent s" "map_of ps ''project'' = None" "map_of ps ''pool'' = None"
    "GetCapacity env caps ps s = (Done (Inr n), s')"
  shows "\<exists>pools. (pools = [] \<or> (\<exists>b. decPoolList env b = Some pools)) \<and>
    n = wrap64 (\<Sum>p\<leftarrow>pools. puAvailable (poUsage p)) \<and>
    (int64_range (\<Sum>p\<leftarrow>pools. puAvailable (poUsage p)) \<longrightarrow> n = (\<Sum>p\<leftarrow>pools. puAvailable (poUsage p)))"
proof -
  let ?sum = "\<lambda>pools. fold (\<lambda>pool sum. wrap64 (sum + puAvailable (poUsage pool))) pools 0"
  have h: "held {} {} None s" using assms(1) by (simp add: quiescent_def)
  have "with_token env None (\<lambda>t. tryG (GetPools env t) (\<lambda>pools. retG (Inr (?sum pools)))) s = (Done (Inr n), s')"
    using assms(2-4) by (auto simp: GetCapacity_def param_def Let_def split: if_splits)
  then obtain t s1 where s1: "tryG (GetPools env t) (\<lambda>pools. retG (Inr (?sum pools))) s1 = (Done (Inr n), s')"
      and h1: "held {} {} None s1"
    by (rule with_token_DoneD [OF _ h])
  obtain pools s2 where p: "GetPools env t s1 = (Done (Inr pools), s2)" "n = ?sum pools"
    using tryG_DoneD [OF s1] by auto
  have "pools = [] \<or> (\<exists>b. decPoolList env b = Some pools)"
    using triple_Done [OF list_request_answer _ p(1) [unfolded GetPools_def]] h1 by (simp add: held_def)
  moreover have "wrap64 0 = 0" by (simp add: wrap64_def)
  then have "n = wrap64 (\<Sum>p\<leftarrow>pools. puAvailable (poUsage p))"
    using p(2) fold_wrap64 [of "\<lambda>p. puAvailable (poUsage p)" pools 0] by simp
  ultimately show ?thesis by auto
qed

theorem GetCapacity_sums_pools_witness:
  "\<exists>pools :: Pool list. fst (GetCapacity script_env [] [] (boot_token [ok_answer 200 ''{[p]}''])) =
     Done (Inr (wrap64 (\<Sum>p\<leftarrow>pools. puAvailable (poUsage p))))"
proof -
  let ?m = "GetCapacity script_env [] [] (boot_token [ok_answer 200 ''{[p]}''])"
  have r: "fst ?m = Done (Inr 12)" by code_simp
  obtain s' where m: "?m = (Done (Inr 12), s')" using r by (cases ?m) simp
  have none: "map_of [] ''project'' = None" "map_of [] ''pool'' = None" by simp_all
  obtain pools :: "Pool list" where "12 = wrap64 (\<Sum>p\<leftarrow>pools. puAvailable (poUsage p))"
    using GetCapacity_sums_pools [OF boot_quiescent(2) none m] by blast
  with r show ?thesis by (intro exI [of _ pools]) simp
qed

section \<open>Pages\<close>

text \<open>A client that follows the tokens until it gets the token of the last page.\<close>

fun fetch :: "nat \<Rightarrow> 'a list \<Rightarrow> int \<Rightarrow> string \<Rightarrow> 'a list option" where
  "fetch fuel xs n token = (case page_start token of
     None \<Rightarrow> None
   | Some i \<Rightarrow> (case fst (page xs i (page_end i n) ()) of
       Done (token', l) \<Rightarrow>
         if token' = ''0'' then Some l
         else (case fuel of 0 \<Rightarrow> None | Suc fuel' \<Rightarrow> map_option ((@) l) (fetch fuel' xs n token'))
     | _ \<Rightarrow> None))"

declare fetch.simps [simp del]

lemma Itoa_not_0: "0 < i \<Longrightarrow> int64_range i \<Longrightarrow> Itoa i \<noteq> ''0''"
proof
  assume i: "0 < i" "int64_range i" "Itoa i = ''0''"
  have "Atoi (Itoa i) = Some i" using i(2) by (rule Atoi_Itoa)
  moreover have "Atoi ''0'' = Some 0" by code_simp
  ultimately show False using i(1,3) by simp
qed

lemma Itoa_nonempty [simp]: "Itoa i \<noteq> []"
  by (simp add: Itoa_def)

lemma page_start_Itoa: "int64_range i \<Longrightarrow> page_start (Itoa i) = Some i"
  by (simp add: page_start_def Atoi_Itoa)

lemma fetch_from:
  assumes "page_start token = Some (int i)" "length xs - i \<le> fuel" "0 < n" "n < 2 ^ 31"
    "length xs < 2 ^ 31"
  shows "fetch fuel xs n token = Some (drop i xs)"
  using assms(1,2)
proof (induction fuel arbitrary: i token)
  case 0
  then show ?case by (subst fetch.simps) (simp add: page_def)
next
  case (Suc fuel)
  show ?case
  proof (cases "int i + n < int (length xs)")
    case True
    let ?m = "int i + n"
    have r: "int64_range ?m" using True assms(3,5) by (simp add: int64_range_def)
    have m: "?m = int (i + nat n)" using assms(3) by simp
    have IH: "fetch fuel xs n (Itoa ?m) = Some (drop (i + nat n) xs)"
    proof (rule Suc.IH)
      show "page_start (Itoa ?m) = Some (int (i + nat n))"
        using page_start_Itoa [OF r] unfolding m .
      have "1 \<le> nat n" using assms(3) by simp
      then show "length xs - (i + nat n) \<le> fuel" using Suc.prems(2) by linarith
    qed
    have p: "fst (page xs (int i) (page_end (int i) n) ()) = Done (Itoa ?m, take (nat n) (drop i xs))"
      using True assms(3) r by (simp add: page_def page_end_def sliceG_def)
    have "take (nat n) (drop i xs) @ drop (i + nat n) xs = drop i xs"
      by (metis append_take_drop_id drop_drop add.commute)
    moreover have "Itoa ?m \<noteq> ''0''" using r assms(3) by (intro Itoa_not_0) simp_all
    ultimately show ?thesis using Suc.prems(1) p IH by (subst fetch.simps) simp
  next
    case False
    have "fst (page xs (int i) (page_end (int i) n) ()) = Done (''0'', drop i xs)"
    proof (cases "int i < int (length xs)")
      case True
      then have "int64_range (int i + n)" using assms(3-5) by (simp add: int64_range_def)
      then have "page_end (int i) n = int i + n" using assms(3) by (simp add: page_end_def)
      with True False show ?thesis by (simp add: page_def sliceG_def)
    next
      case long: False
      then show ?thesis by (simp add: page_def)
    qed
    with Suc.prems(1) show ?thesis by (subst fetch.simps) simp
  qed
qed

text \<open>
  C23: The pages of a list, fetched with any page size one after the other, are the list: no
  entry is lost or repeated at the boundaries.
\<close>

theorem pages_cover:
  assumes "0 < n" "n < 2 ^ 31" "length xs < 2 ^ 31"
  shows "fetch (length xs) xs n [] = Some xs"
  using fetch_from [of "[]" 0 xs "length xs" n] assms by (simp add: page_start_def)

theorem pages_cover_witness:
  "fetch (length [1, 2, 3, 4, 5 :: nat]) [1, 2, 3, 4, 5 :: nat] 2 [] = Some [1, 2, 3, 4, 5]"
  by (rule pages_cover) simp_all

text \<open>
  The next token of \<open>ListVolumes\<close> is never empty and always accepted: the last page says
  \<open>0\<close>, which starts over.  A client for which an empty token ends the list never ends.
\<close>

theorem ListVolumes_never_ends:
  assumes "ListVolumes env c token n s = (Done (Inr (token', l)), s')"
  shows "token' \<noteq> [] \<and> (\<exists>i. page_start token' = Some i)"
proof -
  obtain i entries s1 where p: "page entries i (page_end i n) s1 = (Done (token', l), s')"
    using assms unfolding ListVolumes_def
    by (auto split: option.splits if_splits dest!: tryG_DoneD bindG_DoneD)
  have "int64_range (page_end i n)" by (cases "n > 0") (simp_all add: page_end_def, simp add: int64_range_def)
  moreover have "page_start ''0'' = Some 0" by code_simp
  ultimately show ?thesis
    using p page_start_Itoa
    by (auto simp: page_def Let_def sliceG_def split: if_splits)
qed

theorem ListVolumes_never_ends_witness:
  "\<exists>tk i. fst (ListVolumes script_env (Some 1) [] 0 (boot_token [ok_answer 200 ''{[]}'', ok_answer 200 ''{[]}''])) =
     Done (Inr (tk, [Some (''/mnt/z/p/q/f'', 0)])) \<and> tk \<noteq> [] \<and> page_start tk = Some i"
proof -
  let ?m = "ListVolumes script_env (Some 1) [] 0 (boot_token [ok_answer 200 ''{[]}'', ok_answer 200 ''{[]}''])"
  have r: "fst ?m = Done (Inr (''0'', [Some (''/mnt/z/p/q/f'', 0)]))" by code_simp
  obtain s' where m: "?m = (Done (Inr (''0'', [Some (''/mnt/z/p/q/f'', 0)])), s')"
    using r by (cases ?m) simp
  from ListVolumes_never_ends [OF m] r show ?thesis by blast
qed

section \<open>Guards\<close>

text \<open>
  C32: Publishing never takes a LUN away from another node: unless the LUN is masked from
  everybody, and from nobody else, the request to change its initiator group is not sent.
\<close>

theorem publish_keeps_published_LUN:
  assumes "vols s r = Some (LUN l)"
    "GetInitiatorGroupList env t (vidPool (vId l)) (vidProject (vId l)) (vidName (vId l)) s = (Done (Inr gs), s1)"
    "gs \<noteq> [MaskAll]" "lun_controllerPublishVolume env t r nodeName s = (res, s')"
  shows "s' = s1 \<and> (\<forall>x. res \<noteq> Done (Inr x)) \<and>
    (gs \<noteq> [] \<longrightarrow> res = Done (Inl (GStatus FailedPrecondition ''Volume (%s:%s) may already be published'')))"
proof -
  let ?k = "\<lambda>l'. bindG (indexG l' 0) (\<lambda>l0.
     if length l' \<noteq> 1 \<or> l0 \<noteq> MaskAll
     then failG FailedPrecondition
       (if length l' > 0 then ''Volume (%s:%s) may already be published''
        else ''Volume (%s) did not return an initiator group list'')
     else bindG (SetInitiatorGroupList env t (vidPool (vId l)) (vidProject (vId l)) (vidName (vId l)) nodeName)
       (\<lambda>(_, err). case err of Some e \<Rightarrow> retG (Inl e) | None \<Rightarrow> retG (Inr ())))"
  have "lun_controllerPublishVolume env t r nodeName s = ?k gs s1"
    using assms(1,2) by (simp add: lun_controllerPublishVolume_def getLUN_def Let_def)
  moreover have "length gs \<noteq> 1 \<or> gs ! 0 \<noteq> MaskAll"
    using assms(3) by (cases gs) auto
  ultimately show ?thesis
    using assms(4) by (cases "gs = []") (auto simp: indexG_def)
qed

text \<open>A LUN \<open>l\<close> of \<open>p/q\<close> with the reference 1, and an appliance with one answer left.\<close>

definition lun_state :: "http_result \<Rightarrow> http_result list driver" where
  "lun_state a = (boot_token [a])\<lparr>vols := [1 \<mapsto> newLUN (NewVolumeId BlockVolume ''z'' ''p'' ''q'' ''l'')]\<rparr>"

theorem publish_keeps_published_LUN_witness:
  "fst (lun_controllerPublishVolume script_env 0 1 ''node-b'' (lun_state (ok_answer 200 ''node-a''))) =
     Done (Inl (GStatus FailedPrecondition ''Volume (%s:%s) may already be published''))"
proof -
  obtain l where l: "vols (lun_state (ok_answer 200 ''node-a'')) 1 = Some (LUN l)"
      "l = (case newLUN (NewVolumeId BlockVolume ''z'' ''p'' ''q'' ''l'') of LUN x \<Rightarrow> x)"
    by (simp add: lun_state_def newLUN_def)
  let ?g = "GetInitiatorGroupList script_env 0 (vidPool (vId l)) (vidProject (vId l)) (vidName (vId l))
     (lun_state (ok_answer 200 ''node-a''))"
  have "fst ?g = Done (Inr [''node-a''])" unfolding l(2) by code_simp
  then obtain s1 where g: "?g = (Done (Inr [''node-a'']), s1)" by (cases ?g) simp
  obtain res s' where p: "lun_controllerPublishVolume script_env 0 1 ''node-b''
      (lun_state (ok_answer 200 ''node-a'')) = (res, s')" by fastforce
  from publish_keeps_published_LUN [OF l(1) g _ p] p show ?thesis by (simp add: MaskAll_def)
qed

text \<open>
  C37: Creating a LUN that exists never succeeds.  When the appliance answers with a conflict,
  a volume without access modes, as every LUN structure of the driver is, leads to an error or
  a panic, also when the existing LUN is the one asked for.
\<close>

theorem create_existing_LUN_fails:
  assumes "vols s r = Some (LUN l)" "vAccessModes l = []" "tokens_settled s"
    "CreateLUN env t (cvName req) (getVolumeSize (cvCapacityRange req)) (cvParameters req) s =
       (Done (StatusConflict, Inl e), s1)" "lun_create env t r req s = (res, s')"
  shows "\<forall>x. res \<noteq> Done (Inr x)"
proof -
  let ?P = "\<lambda>s. (\<lambda>hv. \<exists>l. hv r = Some (LUN l) \<and> vAccessModes l = []) (vols s) \<and> tokens_settled s"
  let ?Q = "\<lambda>(x :: gerror + CreateVolumeResponse) (s :: ('a, 'b) driver_scheme). \<forall>y. x \<noteq> Inr y"
  have no_modes: "triple True P (bindG (compareCapabilities caps [] True) (\<lambda>ok.
         if \<not> ok then failG AlreadyExists msg else panicG p)) ?Q"
    for P :: "('a, 'b) driver_scheme \<Rightarrow> bool" and caps :: "capability list" and msg p
    by (rule triple_bindG [where R = "\<lambda>_ _. True"], cases caps) (auto simp: triple_def)
  have rest: "triple True ?P (bindG (getLUN r) (\<lambda>lun.
         if \<not> compareCapacityRange (cvCapacityRange req) (vCapacity lun)
         then failG AlreadyExists m1
         else
         bindG (compareCapabilities (cvVolumeCapabilities req) (vAccessModes lun) True) (\<lambda>ok.
         if \<not> ok then failG AlreadyExists m2 else panicG p))) ?Q" for m1 m2 p
  proof (rule tripleI, goal_cases)
    case (1 s)
    then obtain l where l: "vols s r = Some (LUN l)" "vAccessModes l = []" by blast
    show ?case
      using no_modes [unfolded triple_def, rule_format, OF TrueI, of "cvVolumeCapabilities req" m2 p s] l
      by (simp add: getLUN_def)
  qed
  have s1: "?P s1"
  proof -
    have "vols s1 = vols s" using driver_more [OF rest_op_more [OF rest_op_api(7) assms(4)]] by simp
    moreover have "tokens_settled s1"
      using assms(3,4) rest_op_api(7) by (fastforce simp: rest_op_def dest: triple_Done)
    ultimately show ?thesis using assms(1,2) by simp
  qed
  have get: "triple True ?P (bindG (GetLun env t p q n) (\<lambda>(_, res'). case res' of
                    Inl err' \<Rightarrow> retG (Inl err')
                  | Inr luninfo \<Rightarrow> seqG (lun_setInfo r (LunInfo luninfo)) (retG (Inr ()))))
      (\<lambda>_. ?P)" for p q n
    by (rule triple_bindG [OF rest_op_keeps_vols], rule rest_ops, intro triple_prod triple_sum,
        rule triple_retG_weak, simp, rule triple_seqG [where R = ?P],
        auto simp: triple_def lun_setInfo_def modLUN_def)
  have "triple True ?P (bindG (getLUN r) (\<lambda>lun.
         tryG (if vState lun = stateCreated
               then bindG (GetLun env t (param (cvParameters req) ''pool'')
                             (param (cvParameters req) ''project'') (cvName req))
                 (\<lambda>(_, res'). case res' of
                    Inl err' \<Rightarrow> retG (Inl err')
                  | Inr luninfo \<Rightarrow> seqG (lun_setInfo r (LunInfo luninfo)) (retG (Inr ())))
               else retG (Inr ()))
         (\<lambda>_.
         bindG (getLUN r) (\<lambda>lun.
         if \<not> compareCapacityRange (cvCapacityRange req) (vCapacity lun)
         then failG AlreadyExists ''Volume (%s) is already on target (%s), capacity range incompatible (%v), requested (%v/%v)''
         else
         bindG (compareCapabilities (cvVolumeCapabilities req) (vAccessModes lun) True) (\<lambda>ok.
         if \<not> ok
         then failG AlreadyExists ''Volume (%s) is already on target (%s), accessModes are incompatible''
         else panicG ''nil pointer dereference''))))) ?Q" (is "triple True _ ?m _")
    unfolding getLUN_def [of r]
    by (rule triple_bindG [OF triple_deref], rule triple_tryG [where R = "\<lambda>_. ?P"],
        intro triple_if get triple_retG_weak, simp_all add: rest [unfolded getLUN_def])
  moreover have "?m s1 = (res, s')"
    using assms(1,4,5) by (simp add: lun_create_def)
  ultimately show ?thesis
    using triple_run s1 by fastforce
qed

theorem create_existing_LUN_fails_witness:
  "\<exists>res. fst (lun_create script_env 0 1 (demo_create_f\<lparr>cvName := ''l''\<rparr>) (lun_state (ok_answer 409 ''x''))) = res \<and>
     (\<forall>x. res \<noteq> Done (Inr x))"
proof -
  let ?s = "lun_state (ok_answer 409 ''x'')" and ?r = "demo_create_f\<lparr>cvName := ''l''\<rparr>"
  obtain l where l: "vols ?s 1 = Some (LUN l)" "vAccessModes l = []"
    by (simp add: lun_state_def newLUN_def)
  have t: "tokens_settled ?s"
    using boot_settled(2) [of "[ok_answer 409 ''x'']"] by (simp add: lun_state_def)
  let ?c = "CreateLUN script_env 0 (cvName ?r) (getVolumeSize (cvCapacityRange ?r)) (cvParameters ?r) ?s"
  have "fst ?c = Done (StatusConflict, Inl (GStatus UnknownCode ''Unknown Error Occurred on target appliance: %s''))"
    by code_simp
  then obtain s1 where c: "?c = (Done (StatusConflict,
      Inl (GStatus UnknownCode ''Unknown Error Occurred on target appliance: %s'')), s1)" by (cases ?c) simp
  obtain res s' where p: "lun_create script_env 0 1 ?r ?s = (res, s')" by fastforce
  from create_existing_LUN_fails [OF l t c p] p show ?thesis by simp
qed



text \<open>
  \<open>DeleteSnapshot\<close> answers success whenever the lookup fails, also when the snapshot exists
  and the appliance could not be reached.
\<close>

theorem DeleteSnapshot_swallows_errors:
  assumes "i \<noteq> []" "getUserLogin env secrets s = (Done (Inr (user, password)), s1)"
    "LookUpToken user password s1 = (Done t, s2)" "lookupSnapshot env c t i s2 = (Done (Inl e), s')"
  shows "DeleteSnapshot env c i secrets s = (Done (Inr ()), s')"
  using assms by (simp add: DeleteSnapshot_def with_token_def)

theorem DeleteSnapshot_swallows_errors_witness:
  "fst (DeleteSnapshot script_env (Some 1) ''/mnt/z/p/q/f/s'' None (boot_token [])) = Done (Inr ())"
proof -
  let ?s = "boot_token []"
  let ?l = "getUserLogin script_env None ?s"
  have l: "?l = (Done (Inr (''root'', ''secret'')), ?s)"
    by (simp add: login_defs go_defs read_credentials_def script_env_def isUsernameValid_def
        UsernameLength_def letter_def)
  have t: "LookUpToken ''root'' ''secret'' ?s = (Done 0, ?s)"
    by (simp add: LookUpToken_def boot_token_def)
  let ?m = "lookupSnapshot script_env (Some 1) 0 ''/mnt/z/p/q/f/s'' ?s"
  have "fst ?m = Done (Inl (GStatus UnknownCode ''client.do call failed''))" by code_simp
  then obtain s' where m: "?m = (Done (Inl (GStatus UnknownCode ''client.do call failed'')), s')"
    by (cases ?m) simp
  show ?thesis using DeleteSnapshot_swallows_errors [OF _ l t m] by simp
qed

text \<open>
  The account of a request without one in its secrets is that of the credentials file, and
  only if its name is valid; nothing is changed on the way.
\<close>

theorem account_of_file_is_valid:
  assumes "map_of secrets ''username'' = None"
    "getUserLogin env (Some secrets) s = (Done (Inr (user, password)), s')"
  shows "isUsernameValid user \<and> read_credentials env s = Inr (user, password) \<and> s' = s"
proof -
  have "getUserLogin env None s = (Done (Inr (user, password)), s')"
    using assms by (simp add: getUserLogin_def)
  then show ?thesis by (rule getUserLogin_file)
qed

theorem account_of_file_is_valid_witness:
  "isUsernameValid ''root'' \<and> read_credentials script_env (boot []) = Inr (''root'', ''secret'')"
proof -
  have "getUserLogin script_env (Some [(''password'', ''x'')]) (boot []) =
      (Done (Inr (''root'', ''secret'')), boot [])"
    by (simp add: login_defs go_defs read_credentials_def script_env_def isUsernameValid_def
        UsernameLength_def letter_def)
  from account_of_file_is_valid [OF _ this] show ?thesis by simp
qed



end
