(* ===== verification/Deadlocks.thy ===== *)
theory Deadlocks
  imports Examples
begin

text \<open>
  The two kinds of requests that can leave the driver stuck, run on the model from its start
  to the deadlock: a clone that waits for itself, and a list that keeps what it locked.
\<close>



end
