(* ===== verification/Evolution.thy ===== *)
theory Evolution
  imports Service
begin

text \<open>
  What never changes: the ID and the kind of a volume structure, the ID and the source of a
  snapshot structure, and that the structure of a LUN has no access modes.  \<open>evolves\<close> relates
  the states before and after any operation; it is a frame, so it holds of every composition
  of operations, whatever the appliance answers and also when the driver panics.
\<close>

named_theorems evolve_rules \<open>operations that keep identities\<close>

definition lun_modes :: "('w, 'b) driver_scheme \<Rightarrow> bool" where
  "lun_modes s \<longleftrightarrow> (\<forall>r l. vols s r = Some (LUN l) \<longrightarrow> vAccessModes l = [])"

definition same_vol :: "zVolumeInterface \<Rightarrow> zVolumeInterface \<Rightarrow> bool" where
  "same_vol v v' \<longleftrightarrow> getVolumeID v' = getVolumeID v \<and> isBlockVol v' = isBlockVol v"

definition same_snap :: "zSnapshot \<Rightarrow> zSnapshot \<Rightarrow> bool" where
  "same_snap z z' \<longleftrightarrow> zId z' = zId z \<and> zVol z' = zVol z"

definition evolves :: "('w, 'b) driver_scheme \<Rightarrow> ('w, 'b) driver_scheme \<Rightarrow> bool" where
  "evolves s t \<longleftrightarrow> (fresh_refs (nextRef s) (vols s) (snaps s) \<longrightarrow>
     fresh_refs (nextRef t) (vols t) (snaps t) \<and>
     (\<forall>r v. vols s r = Some v \<longrightarrow> (\<exists>v'. vols t r = Some v' \<and> same_vol v v')) \<and>
     (\<forall>r z. snaps s r = Some z \<longrightarrow> (\<exists>z'. snaps t r = Some z' \<and> same_snap z z')) \<and>
     (lun_modes s \<longrightarrow> lun_modes t))"

interpretation evolve: go_frame evolves
proof
  show "evolves s s" for s :: "('a, 'b) driver_scheme"
    by (auto simp: evolves_def same_vol_def same_snap_def)
  show "evolves s u" if "evolves s t" "evolves t u" for s t u :: "('a, 'b) driver_scheme"
    unfolding evolves_def
  proof (intro impI conjI allI)
    assume fs: "fresh_refs (nextRef s) (vols s) (snaps s)"
    note st = that(1) [unfolded evolves_def, rule_format, OF fs]
    note tu = that(2) [unfolded evolves_def, rule_format, OF conjunct1 [OF st]]
    show "fresh_refs (nextRef u) (vols u) (snaps u)" using tu by blast
    show "lun_modes s \<Longrightarrow> lun_modes u" using st tu by blast
    show "\<exists>v'. vols u r = Some v' \<and> same_vol v v'" if "vols s r = Some v" for r v
      using st tu that unfolding same_vol_def by metis
    show "\<exists>z'. snaps u r = Some z' \<and> same_snap z z'" if "snaps s r = Some z" for r z
      using st tu that unfolding same_snap_def by metis
  qed
qed

lemmas [evolve_rules] = evolve.keeps_rules

section \<open>Single operations\<close>

lemma keeps_rest: "rest_op m \<Longrightarrow> keeps evolves m"
proof (rule keepsI)
  fix s :: "('a, 'b) driver_scheme" assume "rest_op m"
  then have "rest.more (snd (m s)) = rest.more s"
    by (rule rest_op_more) (rule prod.collapse [symmetric])
  then show "evolves s (snd (m s))"
    using driver_more [of "snd (m s)" s] by (auto simp: evolves_def same_vol_def same_snap_def lun_modes_def)
qed

lemma evolves_upd_vol:
  assumes "vols s r = Some v" "same_vol v v'" "\<And>l'. v' = LUN l' \<Longrightarrow> \<exists>l. v = LUN l \<and> vAccessModes l' = vAccessModes l"
  shows "evolves s (putVol r v' s)"
  using assms by (fastforce simp: evolves_def same_vol_def same_snap_def lun_modes_def fresh_refs_def)

lemma evolves_upd_snap:
  assumes "snaps s r = Some z" "same_snap z z'"
  shows "evolves s (putSnap r z' s)"
  using assms by (fastforce simp: evolves_def same_vol_def same_snap_def lun_modes_def fresh_refs_def)

lemma evolves_other [simp]:
  "evolves s (s\<lparr>vHash := a\<rparr>)" "evolves s (s\<lparr>sHash := a\<rparr>)" "evolves s (s\<lparr>vMutex := m\<rparr>)"
  "evolves s (s\<lparr>sMutex := m\<rparr>)" "evolves s s"
  by (simp_all add: evolves_def same_vol_def same_snap_def lun_modes_def)

lemma setBolt_same [simp]: "same_vol v (setBolt b v)" "same_vol v (setRefcount n v)"
  by (cases v; simp add: same_vol_def)+

lemma setBolt_LUN:
  "setBolt b v = LUN l' \<Longrightarrow> \<exists>l. v = LUN l \<and> vAccessModes l' = vAccessModes l"
  "setRefcount n v = LUN l' \<Longrightarrow> \<exists>l. v = LUN l \<and> vAccessModes l' = vAccessModes l"
  by (cases v; auto)+

lemma keeps_vol_lock [evolve_rules]:
  "keeps evolves (vol_hold r)" "keeps evolves (vol_lock c r)" "keeps evolves (vol_unlock c r)"
  "keeps evolves (vol_release r)"
proof -
  show "keeps evolves (vol_hold r)"
    by (rule keepsI) (case_tac "vols s r"; simp add: vlock.hold_law vol_hold_def evolves_upd_vol setBolt_LUN)
  show "keeps evolves (vol_lock c r)"
    by (rule keepsI) (case_tac "vols s r"; simp add: vol_lock_def evolves_upd_vol setBolt_LUN split: option.split)
  show "keeps evolves (vol_unlock c r)"
    by (rule keepsI) (case_tac "vols s r"; simp add: vol_unlock_def evolves_upd_vol setBolt_LUN split: option.split)
  show "keeps evolves (vol_release r)"
    by (rule keepsI) (case_tac "vols s r"; simp add: vol_release_def Let_def evolves_upd_vol setBolt_LUN)
qed

lemma keeps_snap_lock [evolve_rules]:
  "keeps evolves (snap_hold r)" "keeps evolves (snap_lock c r)" "keeps evolves (snap_unlock c r)"
  "keeps evolves (snap_release r)"
proof -
  show "keeps evolves (snap_hold r)"
    by (rule keepsI) (case_tac "snaps s r"; simp add: snap_hold_def evolves_upd_snap same_snap_def)
  show "keeps evolves (snap_lock c r)"
    by (rule keepsI) (case_tac "snaps s r"; simp add: snap_lock_def evolves_upd_snap same_snap_def split: option.split)
  show "keeps evolves (snap_unlock c r)"
    by (rule keepsI) (case_tac "snaps s r"; simp add: snap_unlock_def evolves_upd_snap same_snap_def split: option.split)
  show "keeps evolves (snap_release r)"
    by (rule keepsI) (case_tac "snaps s r"; simp add: snap_release_def Let_def evolves_upd_snap same_snap_def)
qed

lemma keeps_tables [evolve_rules]:
  "keeps evolves vCache_Lock" "keeps evolves vCache_Unlock" "keeps evolves vCache_RLock"
  "keeps evolves vCache_RUnlock" "keeps evolves (vCache_add k r)" "keeps evolves (vCache_delete k)"
  "keeps evolves (vCache_lookup k)"
  "keeps evolves sCache_Lock" "keeps evolves sCache_Unlock" "keeps evolves sCache_RLock"
  "keeps evolves sCache_RUnlock" "keeps evolves (sCache_add k r)" "keeps evolves (sCache_delete k)"
  "keeps evolves (sCache_lookup k)"
  by (auto simp: keeps_def vCache_Lock_def vCache_Unlock_def vCache_RLock_def vCache_RUnlock_def
      vCache_mutex_def vCache_add_def vCache_delete_def vCache_lookup_def
      sCache_Lock_def sCache_Unlock_def sCache_RLock_def sCache_RUnlock_def
      sCache_mutex_def sCache_add_def sCache_delete_def sCache_lookup_def go_defs split: option.split)

lemma keeps_modFS [evolve_rules]:
  assumes "\<And>v. vId (f v) = vId v"
  shows "keeps evolves (modFS r f)"
proof (rule keepsI)
  fix s :: "('a, 'b) driver_scheme"
  show "evolves s (snd (modFS r f s))"
  proof (cases "vols s r")
    case None
    then have "(vols s)(r := None) = vols s" by auto
    then show ?thesis using None by (simp add: modFS_def)
  next
    case (Some v)
    have "evolves s (putVol r (onFS f v) s)"
      by (rule evolves_upd_vol [OF Some]; cases v) (auto simp: same_vol_def assms)
    then show ?thesis using Some by (simp add: modFS_def)
  qed
qed

lemma keeps_modLUN [evolve_rules]:
  assumes "\<And>v. vId (f v) = vId v" "\<And>v. vAccessModes (f v) = vAccessModes v"
  shows "keeps evolves (modLUN r f)"
proof (rule keepsI)
  fix s :: "('a, 'b) driver_scheme"
  show "evolves s (snd (modLUN r f s))"
  proof (cases "vols s r")
    case None
    then have "(vols s)(r := None) = vols s" by auto
    then show ?thesis using None by (simp add: modLUN_def)
  next
    case (Some v)
    have "evolves s (putVol r (onLUN f v) s)"
      by (rule evolves_upd_vol [OF Some]; cases v) (auto simp: same_vol_def assms)
    then show ?thesis using Some by (simp add: modLUN_def)
  qed
qed

lemma keeps_modSnap [evolve_rules]:
  assumes "\<And>z. zId (f z) = zId z" "\<And>z. zVol (f z) = zVol z"
  shows "keeps evolves (modSnap r f)"
proof (rule keepsI)
  fix s :: "('a, 'b) driver_scheme"
  show "evolves s (snd (modSnap r f s))"
  proof (cases "snaps s r")
    case None
    then have "(snaps s)(r := None) = snaps s" by auto
    then show ?thesis using None by (simp add: modSnap_def)
  next
    case (Some z)
    have "evolves s (putSnap r (f z) s)"
      by (rule evolves_upd_snap [OF Some]) (simp add: same_snap_def assms)
    then show ?thesis using Some by (simp add: modSnap_def)
  qed
qed

lemma same_refl [simp]: "same_vol v v" "same_snap z z"
  by (simp_all add: same_vol_def same_snap_def)

lemma keeps_newVol [evolve_rules]: "keeps evolves (newVol (if b then newLUN i else newFilesystem j))"
  by (rule keepsI)
    (auto simp: newVol_def evolves_def lun_modes_def fresh_refs_def newLUN_def newFilesystem_def)

lemma keeps_newSnap [evolve_rules]: "keeps evolves (newSnap z)"
  by (rule keepsI) (auto simp: newSnap_def evolves_def lun_modes_def fresh_refs_def)

section \<open>Methods\<close>

lemma keeps_vol_case [evolve_rules]:
  "(\<And>f. keeps evolves (g f)) \<Longrightarrow> (\<And>l. keeps evolves (h l)) \<Longrightarrow>
     keeps evolves (case v of FS f \<Rightarrow> g f | LUN l \<Rightarrow> h l)"
  by (cases v) simp_all

lemma keeps_info_case [evolve_rules]:
  "(\<And>f. keeps evolves (g f)) \<Longrightarrow> (\<And>l. keeps evolves (h l)) \<Longrightarrow>
     keeps evolves (case info of FilesystemInfo f \<Rightarrow> g f | LunInfo l \<Rightarrow> h l)"
  by (cases info) simp_all

lemma keeps_source_case [evolve_rules]:
  "(\<And>x. keeps evolves (g x)) \<Longrightarrow> (\<And>x. keeps evolves (h x)) \<Longrightarrow> keeps evolves k \<Longrightarrow>
     keeps evolves (case src of SnapshotSource x \<Rightarrow> g x | VolumeSource x \<Rightarrow> h x | NoSourceType \<Rightarrow> k)"
  by (cases src) simp_all

lemmas [evolve_rules] = keeps_state_case [of evolves]

lemma keeps_let [evolve_rules]: "(\<And>x. keeps evolves (f x)) \<Longrightarrow> keeps evolves (let x = y in f x)"
  by simp

lemma keeps_forG [evolve_rules]:
  assumes "\<And>x. keeps evolves (f x)"
  shows "keeps evolves (forG xs f)"
proof (induction xs)
  case Nil
  show ?case unfolding forG.simps by (intro evolve_rules)
next
  case (Cons x xs)
  show ?case unfolding forG.simps by (intro evolve_rules Cons assms)
qed

lemma keeps_mapG [evolve_rules]:
  assumes "\<And>x. keeps evolves (f x)"
  shows "keeps evolves (mapG f xs)"
proof (induction xs)
  case Nil
  show ?case unfolding mapG.simps by (intro evolve_rules)
next
  case (Cons x xs)
  show ?case unfolding mapG.simps by (intro evolve_rules Cons assms)
qed

lemma rest_op_pure [rest_ops]:
  "rest_op (sliceG xs i j)" "rest_op (indexG xs k)" "rest_op (DateToUnix tz date)"
proof -
  show slice: "rest_op (sliceG xs i j)" for xs :: "'x list" and i j
    unfolding sliceG_def by (intro rest_ops)
  show "rest_op (indexG xs k)" unfolding indexG_def by (intro rest_ops)
  show "rest_op (DateToUnix tz date)" unfolding DateToUnix_def by (intro rest_ops slice)
qed

lemma rest_op_caps [rest_ops]:
  "rest_op (hasSupport cap cs block)" "rest_op (compareCapabilities req cur block)"
proof -
  show has: "rest_op (hasSupport cap cs block)" for cap cs
  proof (induction cs)
    case Nil
    show ?case unfolding hasSupport.simps by (intro rest_ops)
  next
    case (Cons x xs)
    then show ?case unfolding hasSupport.simps by (intro rest_ops)
  qed
  show "rest_op (compareCapabilities req cur block)"
  proof (induction req)
    case Nil
    show ?case unfolding compareCapabilities.simps by (intro rest_ops)
  next
    case (Cons x xs)
    then show ?case unfolding compareCapabilities.simps by (intro rest_ops has)
  qed
qed

lemma keeps_api [evolve_rules]:
  "keeps evolves (getFS r)" "keeps evolves (getLUN r)" "keeps evolves (getSnap z)"
  "keeps evolves (hasSupport cap cs block)" "keeps evolves (compareCapabilities req cur block)"
  "keeps evolves (sliceG xs i j)" "keeps evolves (indexG xs k)" "keeps evolves (DateToUnix tz date)"
  "keeps evolves (getUserLogin env secrets)" "keeps evolves (LookUpToken user password)"
  unfolding getFS_def getLUN_def getSnap_def by (rule keeps_rest, intro rest_ops)+

lemmas [evolve_rules] = rest_op_api [THEN keeps_rest] rest_op_validateCreate [THEN keeps_rest]

lemma keeps_snapshot_list [evolve_rules]:
  "keeps evolves (zfssaSnapshotList2csiSnapshotList env zfssa l)"
proof (induction l)
  case Nil
  show ?case unfolding zfssaSnapshotList2csiSnapshotList.simps by (intro evolve_rules)
next
  case (Cons x xs)
  show ?case unfolding zfssaSnapshotList2csiSnapshotList.simps by (intro evolve_rules Cons)
qed

lemma keeps_setInfo [evolve_rules]:
  "keeps evolves (fs_setInfo r info)" "keeps evolves (lun_setInfo r info)"
  unfolding fs_setInfo_def lun_setInfo_def by (intro evolve_rules; simp)+

lemma keeps_fs [evolve_rules]:
  "keeps evolves (fs_create env t r req)" "keeps evolves (fs_cloneSnapshot env t r req z)"
  "keeps evolves (fs_delete env t r)" "keeps evolves (fs_getDetails env t r)"
  "keeps evolves (fs_controllerExpandVolume env t r rng)"
  "keeps evolves fs_cloneVolume" "keeps evolves fs_controllerPublishVolume"
  "keeps evolves fs_controllerUnpublishVolume" "keeps evolves (fs_validateVolumeCapabilities caps)"
  unfolding fs_defs by ((intro evolve_rules; simp)+)

lemma keeps_lun [evolve_rules]:
  "keeps evolves (lun_create env t r req)" "keeps evolves (lun_cloneSnapshot env t r req z)"
  "keeps evolves (lun_delete env t r)" "keeps evolves (lun_getDetails env t r)"
  "keeps evolves (lun_controllerPublishVolume env t r n)"
  "keeps evolves (lun_controllerUnpublishVolume env t r)"
  "keeps evolves lun_controllerExpandVolume" "keeps evolves lun_cloneVolume"
  "keeps evolves (lun_validateVolumeCapabilities caps)"
  unfolding lun_defs by ((intro evolve_rules; simp)+)


lemma keeps_zvol_call [evolve_rules]:
  "keeps evolves m \<Longrightarrow> keeps evolves k \<Longrightarrow> keeps evolves (zvol_call r m k)"
  unfolding zvol_call_def by (intro evolve_rules)

lemma keeps_zvol [evolve_rules]:
  "keeps evolves (zvol_create env t r req)" "keeps evolves (zvol_cloneSnapshot env t r req z)"
  "keeps evolves (zvol_cloneVolume r)" "keeps evolves (zvol_delete env t r)"
  "keeps evolves (zvol_controllerPublishVolume env t r n)"
  "keeps evolves (zvol_controllerUnpublishVolume env t r)"
  "keeps evolves (zvol_validateVolumeCapabilities r caps)"
  "keeps evolves (zvol_controllerExpandVolume env t r rng)"
  "keeps evolves (zvol_getDetails env t r)" "keeps evolves (zvol_setInfo r info)"
  "keeps evolves (zvol_getSnapshotsList env t r)"
  unfolding zvol_create_def zvol_cloneSnapshot_def zvol_cloneVolume_def zvol_delete_def
    zvol_controllerPublishVolume_def zvol_controllerUnpublishVolume_def
    zvol_validateVolumeCapabilities_def zvol_controllerExpandVolume_def zvol_getDetails_def
    zvol_setInfo_def zvol_getSnapshotsList_def
  by (intro evolve_rules)+

lemma keeps_snap_setInfo [evolve_rules]:
  "keeps evolves (snap_setInfo env z info)" "keeps evolves (source_href z)"
  unfolding snap_setInfo_def source_href_def by (intro evolve_rules; simp)+

lemma keeps_snap [evolve_rules]:
  "keeps evolves (snap_create env t z)" "keeps evolves (snap_refreshDetails env t z)"
  "keeps evolves (snap_delete env t z)" "keeps evolves (snap_getDetails env t z)"
  unfolding snap_create_def snap_refreshDetails_def snap_delete_def snap_getDetails_def Let_def
  by (intro evolve_rules; simp)+

section \<open>The cache\<close>

lemma keeps_releaseVolume [evolve_rules]: "keeps evolves (releaseVolume c r)"
  unfolding releaseVolume_def by (intro evolve_rules)

lemma keeps_newVolume [evolve_rules]: "keeps evolves (newVolume c pool project name block)"
  unfolding newVolume_def by (intro evolve_rules)

lemma keeps_lookupVolume [evolve_rules]: "keeps evolves (lookupVolume env c t i)"
  unfolding lookupVolume_def by (intro evolve_rules)

lemma keeps_releaseSnapshot [evolve_rules]: "keeps evolves (releaseSnapshot c z)"
  unfolding releaseSnapshot_def Let_def by (intro evolve_rules)

lemma keeps_newSnapshot [evolve_rules]: "keeps evolves (newSnapshot env c t name src)"
  unfolding newSnapshot_def Let_def by (intro evolve_rules)

lemma keeps_lookupSnapshot [evolve_rules]: "keeps evolves (lookupSnapshot env c t i)"
  unfolding lookupSnapshot_def by (intro evolve_rules)

lemma keeps_updates [evolve_rules]:
  "keeps evolves (updateFilesystemList env c)" "keeps evolves (updateLunList env c)"
  "keeps evolves (updateSnapshotList env c)"
  unfolding updateFilesystemList_def updateLunList_def updateSnapshotList_def
  by (intro evolve_rules)+

lemma keeps_lists [evolve_rules]:
  "keeps evolves (getVolumesList env c)" "keeps evolves (getSnapshotList env c)"
  unfolding getVolumesList_def updateVolumeList_def getSnapshotList_def by (intro evolve_rules)+

section \<open>The handlers\<close>

lemma keeps_with_token [evolve_rules]:
  "(\<And>t. keeps evolves (k t)) \<Longrightarrow> keeps evolves (with_token env secrets k)"
  unfolding with_token_def by (intro evolve_rules)

lemma keeps_page [evolve_rules]: "keeps evolves (page entries i j)"
  unfolding page_def Let_def by (intro evolve_rules)

lemma keeps_GetNodeName [evolve_rules]: "keeps evolves (GetNodeName env n)"
  unfolding GetNodeName_def CoreV1_def by (intro evolve_rules)

lemma keeps_volume_handlers [evolve_rules]:
  "keeps evolves (CreateVolume env c req)" "keeps evolves (DeleteVolume env c i sec)"
  "keeps evolves (ControllerPublishVolume env c preq)"
  "keeps evolves (ControllerUnpublishVolume env c i sec)"
  "keeps evolves (ValidateVolumeCapabilities env c i caps sec)"
  "keeps evolves (ControllerExpandVolume env c i rng sec)"
  "keeps evolves (ControllerGetVolume env c i)" "keeps evolves (GetCapacity env caps ps)"
  "keeps evolves (ListVolumes env c token n)"
  unfolding CreateVolume_def DeleteVolume_def ControllerPublishVolume_def
    ControllerUnpublishVolume_def ValidateVolumeCapabilities_def ControllerExpandVolume_def
    ControllerGetVolume_def GetCapacity_def ListVolumes_def Let_def
  by (intro evolve_rules)+

lemma keeps_snapshot_handlers [evolve_rules]:
  "keeps evolves (CreateSnapshot env c src name sec)" "keeps evolves (DeleteSnapshot env c i sec)"
  "keeps evolves (ListSnapshots env c lreq)" "keeps evolves ControllerGetCapabilities"
  unfolding CreateSnapshot_def DeleteSnapshot_def ListSnapshots_def list_snapshots_def
    ControllerGetCapabilities_def Let_def
  by (intro evolve_rules)+

lemma keeps_reply [evolve_rules]: "keeps evolves m \<Longrightarrow> keeps evolves (reply f m)"
  unfolding reply_def by (intro evolve_rules)

lemma keeps_serve [evolve_rules]: "keeps evolves (serve env c rq)"
  by (cases rq) (simp_all only: serve.simps, (intro evolve_rules)+)

lemma keeps_serve_all [evolve_rules]: "keeps evolves (serve_all env l)"
  unfolding serve_all_def by (intro evolve_rules)

end
