(* ===== verification/Machine.thy ===== *)
theory Machine
  imports Login
begin

text \<open>
  The machine the driver runs on, as a record of everything outside the repository that the
  node service and the start of the driver use: the files and environment variables behind
  the package \<open>os\<close>, the commands behind \<open>os/exec\<close>, the mount table behind
  \<open>k8s.io/utils/mount\<close>, the iSCSI library and the cluster.  Each operation is a function on
  the world, which it may change.  The lexical functions on paths of \<open>path/filepath\<close> are
  defined here.
\<close>

section \<open>Errors of the machine\<close>

text \<open>An error with the class that \<open>os.IsNotExist\<close>, \<open>os.IsExist\<close> and \<open>os.IsPermission\<close> test.\<close>

datatype os_error = ErrNotExist string | ErrExist string | ErrPermission string | ErrOther string

fun os_text :: "os_error \<Rightarrow> string" where
  "os_text (ErrNotExist e) = e" | "os_text (ErrExist e) = e"
| "os_text (ErrPermission e) = e" | "os_text (ErrOther e) = e"

fun IsNotExist :: "os_error option \<Rightarrow> bool" where
  "IsNotExist (Some (ErrNotExist _)) = True" | "IsNotExist _ = False"

fun IsExist :: "os_error option \<Rightarrow> bool" where
  "IsExist (Some (ErrExist _)) = True" | "IsExist _ = False"

fun IsPermission :: "os_error option \<Rightarrow> bool" where
  "IsPermission (Some (ErrPermission _)) = True" | "IsPermission _ = False"

text \<open>
  A command that ran: starting it failed, or it was waited for; with its output.  The dynamic
  type of the error is \<open>*exec.ExitError\<close> only for a command that ran and ended with a code.
\<close>

datatype exec_error = ExitError int string | StartError string

datatype command_run = Started "exec_error option" string | NotStarted exec_error string

text \<open>What the driver sets of the connector and the secrets of the iSCSI library.\<close>

record Secrets =
  SecretsType :: string
  UserName :: string
  Password :: string
  UserNameIn :: string
  PasswordIn :: string

definition zero_Secrets :: Secrets where
  "zero_Secrets = \<lparr>SecretsType = [], UserName = [], Password = [], UserNameIn = [], PasswordIn = []\<rparr>"

record Connector =
  conVolumeName :: string
  conTargetIqn :: string
  conTargetPortals :: "string list"
  conLun :: int
  conSessionSecrets :: Secrets
  conDiscoverySecrets :: Secrets

datatype cluster_init = NotInCluster | NoClientset | InCluster

record 'w os =
  osLookupEnv :: "string \<Rightarrow> 'w \<Rightarrow> string option"
  osStat :: "string \<Rightarrow> 'w \<Rightarrow> os_error option"
  osMkdir :: "string \<Rightarrow> 'w \<Rightarrow> os_error option \<times> 'w"
  osMkdirAll :: "string \<Rightarrow> 'w \<Rightarrow> os_error option \<times> 'w"
  osOpenCreate :: "string \<Rightarrow> 'w \<Rightarrow> os_error option \<times> 'w"
  osRemove :: "string \<Rightarrow> 'w \<Rightarrow> os_error option \<times> 'w"
  osRemoveAll :: "string \<Rightarrow> 'w \<Rightarrow> os_error option \<times> 'w"
  osRun :: "string list \<Rightarrow> 'w \<Rightarrow> command_run \<times> 'w"
  mntIsLikelyNotMountPoint :: "string \<Rightarrow> 'w \<Rightarrow> bool \<times> os_error option"
  mntMount :: "string \<Rightarrow> string \<Rightarrow> string \<Rightarrow> string list \<Rightarrow> 'w \<Rightarrow> os_error option \<times> 'w"
  mntUnmount :: "string \<Rightarrow> 'w \<Rightarrow> os_error option \<times> 'w"
  mntGetDeviceName :: "string \<Rightarrow> 'w \<Rightarrow> string \<times> int \<times> os_error option"
  mntPathExists :: "string \<Rightarrow> 'w \<Rightarrow> bool \<times> os_error option"
  iscsiConnect :: "Connector \<Rightarrow> 'w \<Rightarrow> (string + string) \<times> 'w"
  iscsiPersistConnector :: "Connector \<Rightarrow> string \<Rightarrow> 'w \<Rightarrow> string option \<times> 'w"
  iscsiGetConnectorFromFile :: "string \<Rightarrow> 'w \<Rightarrow> string + Connector"
  iscsiDisconnect :: "string \<Rightarrow> string list \<Rightarrow> 'w \<Rightarrow> 'w"
  decStringMap :: "string \<Rightarrow> params option"
  decStringList :: "string \<Rightarrow> string + string list"
  yamlMap :: "string \<Rightarrow> params option"
  clusterInit :: "'w \<Rightarrow> cluster_init"

text \<open>An operation that changes the machine, and a question that does not.\<close>

definition osG :: "('w \<Rightarrow> 'a \<times> 'w) \<Rightarrow> (('w, 'b) rest_scheme, 'a) go" where
  "osG f = (\<lambda>s. let (r, w) = f (world s) in (Done r, s\<lparr>world := w\<rparr>))"

definition askG :: "('w \<Rightarrow> 'a) \<Rightarrow> (('w, 'b) rest_scheme, 'a) go" where
  "askG f = getG (\<lambda>s. f (world s))"

lemma rest_op_osG [rest_ops]: "rest_op (osG f)"
  by (auto simp: rest_op_def osG_def keeps_def same_def triple_def tokens_settled_def split: prod.split)

lemma rest_op_askG [rest_ops]: "rest_op (askG f)"
  unfolding askG_def by (intro rest_ops)

lemma askG_apply [simp]: "askG f s = (Done (f (world s)), s)"
  by (simp add: askG_def)

lemma osG_apply [simp]: "f (world s) = (r, w) \<Longrightarrow> osG f s = (Done r, s\<lparr>world := w\<rparr>)"
  by (simp add: osG_def)

section \<open>Paths\<close>

text \<open>
  \<open>filepath.Clean\<close> on Unix: empty and \<open>.\<close> components are dropped, \<open>..\<close> removes the
  component before it, and at the root it is dropped too.  The stack is kept in reverse.
\<close>

fun clean_step :: "bool \<Rightarrow> string \<Rightarrow> string list \<Rightarrow> string list" where
  "clean_step rooted c stack =
     (if c = [] \<or> c = ''.'' then stack
      else if c = ''..'' then
        (case stack of
           [] \<Rightarrow> if rooted then [] else [''..'']
         | d # ds \<Rightarrow> if d = ''..'' then ''..'' # stack else ds)
      else c # stack)"

definition rooted :: "string \<Rightarrow> bool" where
  "rooted path \<longleftrightarrow> path \<noteq> [] \<and> hd path = CHR ''/''"

definition path_components :: "string \<Rightarrow> string list" where
  "path_components path = rev (fold (clean_step (rooted path)) (split_on CHR ''/'' path) [])"

definition path_Clean :: "string \<Rightarrow> string" where
  "path_Clean path =
     (let p = (if rooted path then ''/'' else []) @ join_with CHR ''/'' (path_components path)
      in if p = [] then ''.'' else p)"

text \<open>\<open>filepath.Dir\<close> cleans what is before the last separator, with it; \<open>path.Join\<close> of two.\<close>

definition path_Dir :: "string \<Rightarrow> string" where
  "path_Dir path = path_Clean (rev (dropWhile (\<lambda>c. c \<noteq> CHR ''/'') (rev path)))"

definition path_Join :: "string \<Rightarrow> string \<Rightarrow> string" where
  "path_Join a b =
     (if a = [] \<and> b = [] then [] else if a = [] then path_Clean b
      else if b = [] then path_Clean a else path_Clean (a @ ''/'' @ b))"

end
