(* ===== verification/Iscsi.thy ===== *)
theory Iscsi
  imports Machine
begin

text \<open>
  \<open>iscsi.go\<close>: the iSCSI disk described by a volume context, its secrets, the connector handed
  to the iSCSI library, and attaching and detaching a disk.  Errors made with \<open>fmt.Errorf\<close>
  are plain errors with their format string.
\<close>

section \<open>Secrets and portals\<close>

text \<open>A portal without a port gets the default one.\<close>

definition portalMounter :: "string \<Rightarrow> string" where
  "portalMounter portal =
     (if \<not> str_contains portal '':'' then portal @ '':3260'' else portal)"

text \<open>A secret that cannot be decoded is the nil map.\<close>

definition parseSecret :: "'w os \<Rightarrow> string \<Rightarrow> params" where
  "parseSecret os secretParams = (case decStringMap os secretParams of None \<Rightarrow> [] | Some m \<Rightarrow> m)"

definition parseSessionSecret :: "params \<Rightarrow> gerror + Secrets" where
  "parseSessionSecret secretParams =
     (if length secretParams = 0 then Inr zero_Secrets
      else case map_of secretParams ''node.session.auth.username'' of
        None \<Rightarrow> Inl (GPlain ''node.session.auth.username not found in secret'')
      | Some user \<Rightarrow> (case map_of secretParams ''node.session.auth.password'' of
        None \<Rightarrow> Inl (GPlain ''node.session.auth.password not found in secret'')
      | Some pass \<Rightarrow> (case map_of secretParams ''node.session.auth.username_in'' of
        None \<Rightarrow> Inl (GPlain ''node.session.auth.username_in not found in secret'')
      | Some userIn \<Rightarrow> (case map_of secretParams ''node.session.auth.password_in'' of
        None \<Rightarrow> Inl (GPlain ''node.session.auth.password_in not found in secret'')
      | Some passIn \<Rightarrow> Inr \<lparr>SecretsType = ''chap'', UserName = user, Password = pass,
          UserNameIn = userIn, PasswordIn = passIn\<rparr>))))"

definition parseDiscoverySecret :: "params \<Rightarrow> gerror + Secrets" where
  "parseDiscoverySecret secretParams =
     (if length secretParams = 0 then Inr zero_Secrets
      else case map_of secretParams ''node.sendtargets.auth.username'' of
        None \<Rightarrow> Inl (GPlain ''node.sendtargets.auth.username not found in secret'')
      | Some user \<Rightarrow> (case map_of secretParams ''node.sendtargets.auth.password'' of
        None \<Rightarrow> Inl (GPlain ''node.sendtargets.auth.password not found in secret'')
      | Some pass \<Rightarrow> (case map_of secretParams ''node.sendtargets.auth.username_in'' of
        None \<Rightarrow> Inl (GPlain ''node.sendtargets.auth.username_in not found in secret'')
      | Some userIn \<Rightarrow> (case map_of secretParams ''node.sendtargets.auth.password_in'' of
        None \<Rightarrow> Inl (GPlain ''node.sendtargets.auth.password_in not found in secret'')
      | Some passIn \<Rightarrow> Inr \<lparr>SecretsType = ''chap'', UserName = user, Password = pass,
          UserNameIn = userIn, PasswordIn = passIn\<rparr>))))"

section \<open>The disk\<close>

record iscsiDisk =
  Portals :: "string list"
  Iqn :: string
  diskLun :: int
  Iface :: string
  chapDiscovery :: bool
  chapSession :: bool
  diskSecret :: params
  sessionSecret :: Secrets
  discoverySecret :: Secrets
  InitiatorName :: string
  VolName :: string

text \<open>
  The two functions differ in the message for missing target information only.  \<open>vc\<close> is the
  volume context of the request.
\<close>

definition GetISCSIInfo ::
  "'w os \<Rightarrow> VolumeId \<Rightarrow> params \<Rightarrow> string \<Rightarrow> int \<Rightarrow> gerror + iscsiDisk" where
  "GetISCSIInfo os vid vc targetIqn assignedLunNumber =
     (let tp = param vc ''targetPortal''; iqn = targetIqn in
     if tp = [] \<or> iqn = []
     then Inl (GPlain ''iSCSI target information is missing (portal=%v), (iqn=%v)'')
     else
     let portalList = (if param vc ''portals'' = [] then ''[]'' else param vc ''portals'');
         secret = parseSecret os (param vc ''secret'') in
     case parseSessionSecret secret of Inl err \<Rightarrow> Inl err | Inr session \<Rightarrow>
     (case parseDiscoverySecret secret of Inl err \<Rightarrow> Inl err | Inr discovery \<Rightarrow>
     (let bkportal = [portalMounter tp] in
     case decStringList os portalList of Inl err \<Rightarrow> Inl (GPlain err) | Inr portals \<Rightarrow>
     Inr \<lparr>Portals = bkportal @ map portalMounter portals, Iqn = iqn, diskLun = assignedLunNumber,
       Iface = param vc ''iscsiInterface'',
       chapDiscovery = (param vc ''discoveryCHAPAuth'' = ''true''),
       chapSession = (param vc ''sessionCHAPAuth'' = ''true''),
       diskSecret = secret, sessionSecret = session, discoverySecret = discovery,
       InitiatorName = param vc ''initiatorName'', VolName = vidName vid\<rparr>)))"

definition GetNodeISCSIInfo ::
  "'w os \<Rightarrow> VolumeId \<Rightarrow> params \<Rightarrow> string \<Rightarrow> int \<Rightarrow> gerror + iscsiDisk" where
  "GetNodeISCSIInfo os vid vc targetIqn assignedLunNumber =
     (let tp = param vc ''targetPortal''; iqn = targetIqn in
     if tp = [] \<or> iqn = []
     then Inl (GPlain ''iSCSI target information is missing'')
     else
     let portalList = (if param vc ''portals'' = [] then ''[]'' else param vc ''portals'');
         secret = parseSecret os (param vc ''secret'') in
     case parseSessionSecret secret of Inl err \<Rightarrow> Inl err | Inr session \<Rightarrow>
     (case parseDiscoverySecret secret of Inl err \<Rightarrow> Inl err | Inr discovery \<Rightarrow>
     (let bkportal = [portalMounter tp] in
     case decStringList os portalList of Inl err \<Rightarrow> Inl (GPlain err) | Inr portals \<Rightarrow>
     Inr \<lparr>Portals = bkportal @ map portalMounter portals, Iqn = iqn, diskLun = assignedLunNumber,
       Iface = param vc ''iscsiInterface'',
       chapDiscovery = (param vc ''discoveryCHAPAuth'' = ''true''),
       chapSession = (param vc ''sessionCHAPAuth'' = ''true''),
       diskSecret = secret, sessionSecret = session, discoverySecret = discovery,
       InitiatorName = param vc ''initiatorName'', VolName = vidName vid\<rparr>)))"

text \<open>The secrets of the discovery are passed on only with those of the session.\<close>

definition buildISCSIConnector :: "iscsiDisk \<Rightarrow> Connector" where
  "buildISCSIConnector iscsiInfo =
     (let c = \<lparr>conVolumeName = VolName iscsiInfo, conTargetIqn = Iqn iscsiInfo,
        conTargetPortals = Portals iscsiInfo, conLun = diskLun iscsiInfo,
        conSessionSecrets = zero_Secrets, conDiscoverySecrets = zero_Secrets\<rparr> in
     if sessionSecret iscsiInfo \<noteq> zero_Secrets
     then
       (let c = c\<lparr>conSessionSecrets := sessionSecret iscsiInfo\<rparr> in
        if discoverySecret iscsiInfo \<noteq> zero_Secrets
        then c\<lparr>conDiscoverySecrets := discoverySecret iscsiInfo\<rparr> else c)
     else c)"

text \<open>The handles of the mount and device libraries in the two structures are left out.\<close>

record iscsiDiskMounter = iscsiDisk +
  dmReadOnly :: bool
  dmFsType :: string
  dmMountOptions :: "string list"
  dmTargetPath :: string
  dmConnector :: Connector

definition GetISCSIDiskMounter ::
  "iscsiDisk \<Rightarrow> bool \<Rightarrow> string \<Rightarrow> string list \<Rightarrow> string \<Rightarrow> iscsiDiskMounter" where
  "GetISCSIDiskMounter iscsiInfo readOnly fsType mountOptions targetPath =
     iscsiDisk.extend iscsiInfo \<lparr>dmReadOnly = readOnly, dmFsType = fsType,
       dmMountOptions = mountOptions, dmTargetPath = targetPath,
       dmConnector = buildISCSIConnector iscsiInfo\<rparr>"

definition zero_iscsiDisk :: iscsiDisk where
  "zero_iscsiDisk = \<lparr>Portals = [], Iqn = [], diskLun = 0, Iface = [], chapDiscovery = False,
     chapSession = False, diskSecret = [], sessionSecret = zero_Secrets,
     discoverySecret = zero_Secrets, InitiatorName = [], VolName = []\<rparr>"

definition GetISCSIDiskUnmounter :: "VolumeId \<Rightarrow> iscsiDisk" where
  "GetISCSIDiskUnmounter volumeId = zero_iscsiDisk\<lparr>VolName := vidName volumeId\<rparr>"

section \<open>Connecting\<close>

definition ISCSI_ERR_NO_OBJS_FOUND :: int where "ISCSI_ERR_NO_OBJS_FOUND = 21"

text \<open>
  \<open>err.(*exec.ExitError)\<close> panics on any other error.  That no session was found is no error.
\<close>

definition iscsiadm_error :: "exec_error \<Rightarrow> string \<Rightarrow> ('s, string \<times> gerror option) go" where
  "iscsiadm_error err stdout = (case err of
     ExitError exitCode msg \<Rightarrow>
       retG (stdout, if exitCode = ISCSI_ERR_NO_OBJS_FOUND then None
                     else Some (GPlain ''iscsiadm error: %s (%s)''))
   | StartError _ \<Rightarrow> panicG ''interface conversion: error is not *exec.ExitError'')"

definition Rescan :: "'w os \<Rightarrow> (('w, 'b) rest_scheme, string \<times> gerror option) go" where
  "Rescan os =
     bindG (osG (osRun os [''iscsiadm'', ''-m'', ''session'', ''--rescan''])) (\<lambda>run. case run of
       NotStarted err stdout \<Rightarrow> iscsiadm_error err stdout
     | Started err stdout \<Rightarrow> (case err of
         Some err \<Rightarrow> iscsiadm_error err stdout
       | None \<Rightarrow> retG (stdout, None)))"

definition ConnectDisk ::
  "'w os \<Rightarrow> iscsiDiskMounter \<Rightarrow> (('w, 'b) rest_scheme, gerror + string) go" where
  "ConnectDisk os b =
     bindG (Rescan os) (\<lambda>(_, err). case err of
       Some err \<Rightarrow> retG (Inl err)
     | None \<Rightarrow>
     bindG (osG (iscsiConnect os (dmConnector b))) (\<lambda>res. case res of
       Inl err \<Rightarrow> retG (Inl (GPlain err))
     | Inr devicePath \<Rightarrow>
         if devicePath = [] then retG (Inl (GPlain ''connect reported success, but no path returned''))
         else retG (Inr devicePath)))"

definition AttachDisk ::
  "'w os \<Rightarrow> iscsiDiskMounter \<Rightarrow> string \<Rightarrow> (('w, 'b) rest_scheme, gerror + string) go" where
  "AttachDisk os b devicePath =
     tryG (if length devicePath = 0 then ConnectDisk os b else retG (Inr devicePath)) (\<lambda>devicePath.
     let mntPath = dmTargetPath b in
     bindG (askG (mntIsLikelyNotMountPoint os mntPath)) (\<lambda>(notMnt, err).
     if err \<noteq> None \<and> \<not> IsNotExist err
     then retG (Inl (GPlain ''heuristic determination of mount point failed: %v''))
     else if \<not> notMnt then retG (Inr [])
     else
     bindG (osG (osMkdirAll os mntPath)) (\<lambda>err. case err of
       Some e \<Rightarrow> retG (Inl (GPlain (os_text e)))
     | None \<Rightarrow>
     let file = path_Join mntPath (VolName b @ ''.json'') in
     bindG (osG (iscsiPersistConnector os (dmConnector b) file)) (\<lambda>err. case err of
       Some e \<Rightarrow> retG (Inl (GPlain e))
     | None \<Rightarrow>
     let options = [''bind''] @ [if dmReadOnly b then ''ro'' else ''rw''] @ dmMountOptions b in
     bindG (osG (mntMount os devicePath mntPath [] options)) (\<lambda>err. case err of
       Some e \<Rightarrow> retG (Inl (GPlain (os_text e)))
     | None \<Rightarrow> retG (Inr devicePath))))))"

text \<open>The result of \<open>iscsi_lib.Disconnect\<close> is not looked at.\<close>

definition DetachDisk ::
  "'w os \<Rightarrow> iscsiDisk \<Rightarrow> string \<Rightarrow> (('w, 'b) rest_scheme, gerror option) go" where
  "DetachDisk os c targetPath =
     bindG (askG (mntGetDeviceName os targetPath)) (\<lambda>(_, cnt, err). case err of
       Some e \<Rightarrow> retG (Some (GPlain (os_text e)))
     | None \<Rightarrow>
     bindG (askG (mntPathExists os targetPath)) (\<lambda>(pathExists, pathErr).
     if pathErr \<noteq> None then retG (Some (GPlain ''Error checking if path exists: %v''))
     else if \<not> pathExists then retG None
     else
     bindG (osG (mntUnmount os targetPath)) (\<lambda>err. case err of
       Some e \<Rightarrow> retG (Some (GPlain (os_text e)))
     | None \<Rightarrow>
     let cnt = cnt - 1 in
     if cnt \<noteq> 0 then retG None
     else
     let file = path_Join targetPath (VolName c @ ''.json'') in
     bindG (askG (iscsiGetConnectorFromFile os file)) (\<lambda>res. case res of
       Inl e \<Rightarrow> retG (Some (GPlain e))
     | Inr connector \<Rightarrow>
     seqG (osG (\<lambda>w. ((), iscsiDisconnect os (conTargetIqn connector) (conTargetPortals connector) w)))
     (bindG (osG (osRemoveAll os targetPath)) (\<lambda>err. case err of
       Some e \<Rightarrow> retG (Some (GPlain (os_text e)))
     | None \<Rightarrow> retG None))))))"

end
