(* ===== verification/Node.thy ===== *)
theory Node
  imports Iscsi
begin

text \<open>
  The node service: \<open>node.go\<close>, the filesystem volumes of \<open>node_fs.go\<close> and the block volumes
  of \<open>node_block.go\<close>.  A call of \<open>err.Error()\<close> on a nil error panics; the code does so in
  three places.
\<close>

section \<open>Mounter\<close>

text \<open>\<open>mount.go\<close>.  Closing a file that could not be opened does nothing.\<close>

definition MakeFile :: "'w os \<Rightarrow> string \<Rightarrow> (('w, 'b) rest_scheme, os_error option) go" where
  "MakeFile os pathname = bindG (osG (osOpenCreate os pathname)) (\<lambda>err.
     if err \<noteq> None \<and> \<not> IsExist err then retG err else retG None)"

definition ExistsPath :: "'w os \<Rightarrow> string \<Rightarrow> (('w, 'b) rest_scheme, bool \<times> os_error option) go" where
  "ExistsPath os pathname =
     bindG (askG (osStat os pathname)) (\<lambda>err.
     bindG (askG (osStat os pathname)) (\<lambda>err'.
     retG (\<not> IsNotExist err', err)))"

text \<open>\<open>err.Error()\<close>\<close>

definition error_text :: "os_error option \<Rightarrow> ('s, string) go" where
  "error_text err = (case err of
     None \<Rightarrow> panicG ''nil pointer dereference'' | Some e \<Rightarrow> retG (os_text e))"

fun err_text :: "gerror \<Rightarrow> string" where
  "err_text (GStatus _ e) = e" | "err_text (GPlain e) = e"

text \<open>
  The end of the three operations that unmount a target: ask whether it is still a mount
  point and remove it if not.  \<open>err\<close> is the error of the unmount, whose text the log line
  takes when the question fails.
\<close>

definition remove_unmounted ::
  "'w os \<Rightarrow> string \<Rightarrow> os_error option \<Rightarrow> (('w, 'b) rest_scheme, gerror + unit) go" where
  "remove_unmounted os target err =
     bindG (askG (mntIsLikelyNotMountPoint os target)) (\<lambda>(notMnt, mntErr).
     if mntErr \<noteq> None
     then bindG (error_text err) (\<lambda>txt. retG (Inl (GStatus Internal txt)))
     else if notMnt
     then bindG (osG (osRemove os target)) (\<lambda>err. case err of
       Some e \<Rightarrow> retG (Inl (GStatus Internal (os_text e)))
     | None \<Rightarrow> retG (Inr ()))
     else retG (Inr ()))"

section \<open>Requests\<close>

text \<open>The access type of a capability, which is nil-safe to read; the file system type and the flags of a mount.\<close>

datatype access_type = AccessBlock | AccessMount string "string list" | NoAccessType

fun cap_fs_type :: "access_type \<Rightarrow> string" where
  "cap_fs_type (AccessMount fsType _) = fsType" | "cap_fs_type _ = []"

fun cap_mount_flags :: "access_type \<Rightarrow> string list" where
  "cap_mount_flags (AccessMount _ flags) = flags" | "cap_mount_flags _ = []"

record NodePublishVolumeRequest =
  npVolumeId :: string
  npStagingTargetPath :: string
  npTargetPath :: string
  npVolumeCapability :: "access_type option"
  npReadonly :: bool
  npSecrets :: "params option"
  npVolumeContext :: params

section \<open>Filesystem volumes\<close>

definition nodePublishFileSystem ::
  "'w os \<Rightarrow> NodePublishVolumeRequest \<Rightarrow> string list \<Rightarrow> (('w, 'b) rest_scheme, gerror + unit) go" where
  "nodePublishFileSystem os req mountOptions =
     (let targetPath = npTargetPath req in
     bindG (askG (mntIsLikelyNotMountPoint os targetPath)) (\<lambda>(notMnt, err).
     tryG (case err of
         None \<Rightarrow> retG (Inr notMnt)
       | Some e \<Rightarrow>
           if IsNotExist err
           then bindG (osG (osMkdirAll os targetPath)) (\<lambda>err. case err of
             Some e \<Rightarrow> retG (Inl (GStatus Internal (os_text e)))
           | None \<Rightarrow> retG (Inr True))
           else retG (Inl (GStatus Internal (os_text e))))
     (\<lambda>notMnt.
     if \<not> notMnt then retG (Inr ())
     else
     let s = param (npVolumeContext req) ''nfsServer'';
         ep = (case map_of (npVolumeContext req) ''mountpoint'' of
                 Some ep \<Rightarrow> ep | None \<Rightarrow> param (npVolumeContext req) ''share'');
         source = s @ '':'' @ ep in
     bindG (osG (mntMount os source targetPath ''nfs'' mountOptions)) (\<lambda>err. case err of
       Some e \<Rightarrow>
         if IsPermission err then retG (Inl (GStatus PermissionDenied (os_text e)))
         else if str_contains (os_text e) ''invalid argument''
         then retG (Inl (GStatus InvalidArgument (os_text e)))
         else retG (Inl (GStatus Internal (os_text e)))
     | None \<Rightarrow> retG (Inr ())))))"

definition nodeUnpublishFilesystemVolume ::
  "'w os \<Rightarrow> string \<Rightarrow> (('w, 'b) rest_scheme, gerror + unit) go" where
  "nodeUnpublishFilesystemVolume os targetPath =
     (if length targetPath = 0 then failG InvalidArgument ''Target path not provided''
     else
     bindG (askG (osStat os targetPath)) (\<lambda>pathErr.
     if IsNotExist pathErr then retG (Inr ())
     else
     bindG (osG (mntUnmount os targetPath)) (\<lambda>err.
     tryG (case err of
         Some e \<Rightarrow> if \<not> str_contains (os_text e) ''not mounted''
           then retG (Inl (GStatus Internal (os_text e))) else retG (Inr ())
       | None \<Rightarrow> retG (Inr ()))
     (\<lambda>_. remove_unmounted os targetPath err))))"

section \<open>Block volumes\<close>

definition attachBlockVolume ::
  "'w env \<Rightarrow> 'w os \<Rightarrow> nat \<Rightarrow> NodePublishVolumeRequest \<Rightarrow> VolumeId \<Rightarrow>
     (('w, 'b) rest_scheme, gerror + string) go" where
  "attachBlockVolume env os t req vid =
     bindG (GetLun env t (vidPool vid) (vidProject vid) (vidName vid)) (\<lambda>(_, res). case res of
       Inl err \<Rightarrow> retG (Inl err)
     | Inr lunInfo \<Rightarrow>
     tryG (GetTargetGroup env t ''iscsi'' (lunTargetGroup lunInfo)) (\<lambda>targetInfo.
     bindG (indexG (tgTargets targetInfo) 0) (\<lambda>target.
     bindG (indexG (lunAssignedNumber lunInfo) 0) (\<lambda>number.
     case GetISCSIInfo os vid (npVolumeContext req) target number of
       Inl err \<Rightarrow> retG (Inl (GStatus Internal (err_text err)))
     | Inr iscsiInfo \<Rightarrow>
     let cap = (case npVolumeCapability req of None \<Rightarrow> NoAccessType | Some cap \<Rightarrow> cap);
         diskMounter = GetISCSIDiskMounter iscsiInfo False (cap_fs_type cap) (cap_mount_flags cap) [] in
     bindG (ConnectDisk os diskMounter) (\<lambda>res. case res of
       Inl err \<Rightarrow> retG (Inl (GStatus Internal (err_text err)))
     | Inr devicePath \<Rightarrow> retG (Inr devicePath))))))"

text \<open>After a failure the target file is removed; an error of that hides the first one.\<close>

definition remove_target ::
  "'w os \<Rightarrow> string \<Rightarrow> string \<Rightarrow> (('w, 'b) rest_scheme, gerror + unit) go" where
  "remove_target os target msg = bindG (osG (osRemove os target)) (\<lambda>removeErr.
     if removeErr \<noteq> None then failG Internal ''Could not remove mount target %q: %v''
     else failG Internal msg)"

definition nodePublishBlockVolume ::
  "'w env \<Rightarrow> 'w os \<Rightarrow> nat \<Rightarrow> NodePublishVolumeRequest \<Rightarrow> VolumeId \<Rightarrow> string list \<Rightarrow>
     (('w, 'b) rest_scheme, gerror + unit) go" where
  "nodePublishBlockVolume env os t req vid mountOptions =
     (let target = npTargetPath req in
     tryG (attachBlockVolume env os t req vid) (\<lambda>devicePath.
     bindG (ExistsPath os devicePath) (\<lambda>(_, err). case err of
       Some e \<Rightarrow> retG (Inl (GPlain (os_text e)))
     | None \<Rightarrow>
     let globalMountPath = path_Dir target in
     bindG (askG (osStat os globalMountPath)) (\<lambda>err.
     tryG (if IsNotExist err
         then bindG (osG (osMkdir os globalMountPath)) (\<lambda>err.
           if err \<noteq> None then failG Internal ''Could not create dir %q: %v'' else retG (Inr ()))
         else if err \<noteq> None then failG Internal ''Could not check if path exists %q: %v''
         else retG (Inr ()))
     (\<lambda>_.
     bindG (MakeFile os target) (\<lambda>err.
     if err \<noteq> None then remove_target os target ''Could not create file %q: %v''
     else
     bindG (osG (mntMount os devicePath target [] mountOptions)) (\<lambda>err.
     if err \<noteq> None then remove_target os target ''Could not mount %q at %q: %v''
     else retG (Inr ()))))))))"

definition nodeUnpublishBlockVolume ::
  "'w os \<Rightarrow> string \<Rightarrow> (('w, 'b) rest_scheme, gerror + unit) go" where
  "nodeUnpublishBlockVolume os targetPath =
     (if length targetPath = 0 then failG InvalidArgument ''Target path not provided''
     else
     bindG (osG (mntUnmount os targetPath)) (\<lambda>err. case err of
       Some e \<Rightarrow> retG (Inl (GStatus Internal (os_text e)))
     | None \<Rightarrow> remove_unmounted os targetPath err))"

text \<open>Staging of block volumes; not called by the handlers.\<close>

definition NodeStageBlockVolume :: "('s, gerror + unit) go" where
  "NodeStageBlockVolume = retG (Inr ())"

definition NodeUnstageBlockVolume ::
  "'w os \<Rightarrow> string \<Rightarrow> (('w, 'b) rest_scheme, gerror + unit) go" where
  "NodeUnstageBlockVolume os target =
     (if length target = 0 then failG InvalidArgument ''Staging target not provided''
     else
     bindG (askG (mntGetDeviceName os target)) (\<lambda>(_, refCount, err).
     if err \<noteq> None then failG Internal ''failed to check if volume is mounted: %v''
     else if refCount = 0 then retG (Inr ())
     else
     bindG (osG (mntUnmount os target)) (\<lambda>err.
     if err \<noteq> None then failG Internal ''Could not unmount target %q: %v'' else retG (Inr ()))))"

section \<open>The handlers\<close>

definition NodeStageVolume :: "string \<Rightarrow> string \<Rightarrow> access_type option \<Rightarrow> ('s, gerror + unit) go" where
  "NodeStageVolume volumeId targetPath reqCap =
     (if length volumeId = 0 then failG InvalidArgument ''Volume ID not provided''
     else if length targetPath = 0 then failG InvalidArgument ''Target path not provided''
     else if reqCap = None then failG InvalidArgument ''Capability not provided''
     else retG (Inr ()))"

definition NodeUnstageVolume ::
  "'w os \<Rightarrow> string \<Rightarrow> string \<Rightarrow> (('w, 'b) rest_scheme, gerror + unit) go" where
  "NodeUnstageVolume os volumeId target =
     (if length volumeId = 0 then failG InvalidArgument ''Volume ID not provided''
     else if length target = 0 then failG InvalidArgument ''Staging target not provided''
     else
     bindG (askG (mntGetDeviceName os target)) (\<lambda>(_, refCount, err).
     if err \<noteq> None then failG Internal ''failed to check if volume is mounted: %v''
     else if refCount = 0 then retG (Inr ())
     else
     bindG (osG (mntUnmount os target)) (\<lambda>err.
     if err \<noteq> None then failG Internal ''Cannot unmount staging target %q: %v''
     else remove_unmounted os target err)))"

definition NodePublishVolume ::
  "'w env \<Rightarrow> 'w os \<Rightarrow> NodePublishVolumeRequest \<Rightarrow> (('w, 'b) driver_scheme, gerror + unit) go" where
  "NodePublishVolume env os req =
     (if length (npVolumeId req) = 0 then failG InvalidArgument ''Volume ID not provided''
     else case VolumeIdFromString (npVolumeId req) of
       Inl _ \<Rightarrow> failG InvalidArgument ''Volume ID invalid''
     | Inr zVolumeId \<Rightarrow>
     if length (npStagingTargetPath req) = 0
     then failG InvalidArgument ''Staging target not provided''
     else if length (npTargetPath req) = 0 then failG InvalidArgument ''Target path not provided''
     else case npVolumeCapability req of
       None \<Rightarrow> failG InvalidArgument ''Volume capability not provided''
     | Some volCap \<Rightarrow>
     bindG (getUserLogin env (npSecrets req)) (\<lambda>login. case login of
       Inl _ \<Rightarrow> failG Unauthenticated ''Invalid credentials''
     | Inr (user, password) \<Rightarrow>
     bindG (LookUpToken user password) (\<lambda>t.
     let mountOptions = (if npReadonly req then [''ro''] else []) in
     case volCap of
       AccessBlock \<Rightarrow> nodePublishBlockVolume env os t req zVolumeId (mountOptions @ [''bind''])
     | AccessMount _ _ \<Rightarrow> nodePublishFileSystem os req mountOptions
     | NoAccessType \<Rightarrow> failG InvalidArgument ''Invalid access type'')))"

definition NodeUnpublishVolume ::
  "'w env \<Rightarrow> 'w os \<Rightarrow> string \<Rightarrow> string \<Rightarrow> (('w, 'b) driver_scheme, gerror + unit) go" where
  "NodeUnpublishVolume env os volumeID targetPath =
     (if length targetPath = 0 then failG InvalidArgument ''Target path not provided''
     else if length volumeID = 0 then failG InvalidArgument ''Volume ID not provided''
     else case VolumeIdFromString volumeID of
       Inl err \<Rightarrow> retG (Inl err)
     | Inr zVolumeId \<Rightarrow>
     bindG (getUserLogin env None) (\<lambda>login. case login of
       Inl _ \<Rightarrow> failG Unauthenticated ''Invalid credentials''
     | Inr (user, password) \<Rightarrow>
     bindG (LookUpToken user password) (\<lambda>t.
     if VolumeId_IsBlock zVolumeId then nodeUnpublishBlockVolume os targetPath
     else nodeUnpublishFilesystemVolume os targetPath)))"

definition NodeGetVolumeStats :: "('s, gerror + unit) go" where
  "NodeGetVolumeStats = failG Unimplemented []"

definition NodeExpandVolume :: "('s, gerror + unit) go" where
  "NodeExpandVolume = failG Unimplemented []"

datatype node_capability = STAGE_UNSTAGE_VOLUME | NODE_UNKNOWN

definition nodeCaps :: "node_capability list" where
  "nodeCaps = [STAGE_UNSTAGE_VOLUME, NODE_UNKNOWN]"

definition NodeGetCapabilities :: "('s, gerror + node_capability list) go" where
  "NodeGetCapabilities = retG (Inr nodeCaps)"

end
