(* ===== verification/Startup.thy ===== *)
theory Startup
  imports Node Controller
begin

text \<open>
  \<open>service.go\<close>: the configuration of the driver from the environment, its creation and its
  run, \<open>identity.go\<close>, \<open>cluster.go\<close>, \<open>parser_utils.go\<close> and the answer of \<open>node.go\<close> that
  depends on the configuration.  \<open>zfssa_driver\<close> extends the state of the services by the
  rest of the driver structure.
\<close>

section \<open>Strings\<close>

text \<open>\<open>strings.TrimSpace\<close>: the white space of Unicode, in UTF-8.\<close>

definition white_spaces :: "string list" where
  "white_spaces = [
     [CHR 0x09], [CHR 0x0A], [CHR 0x0B], [CHR 0x0C], [CHR 0x0D], [CHR 0x20],
     [CHR 0xC2, CHR 0x85], [CHR 0xC2, CHR 0xA0], [CHR 0xE1, CHR 0x9A, CHR 0x80],
     [CHR 0xE2, CHR 0x80, CHR 0x80], [CHR 0xE2, CHR 0x80, CHR 0x81], [CHR 0xE2, CHR 0x80, CHR 0x82],
     [CHR 0xE2, CHR 0x80, CHR 0x83], [CHR 0xE2, CHR 0x80, CHR 0x84], [CHR 0xE2, CHR 0x80, CHR 0x85],
     [CHR 0xE2, CHR 0x80, CHR 0x86], [CHR 0xE2, CHR 0x80, CHR 0x87], [CHR 0xE2, CHR 0x80, CHR 0x88],
     [CHR 0xE2, CHR 0x80, CHR 0x89], [CHR 0xE2, CHR 0x80, CHR 0x8A], [CHR 0xE2, CHR 0x80, CHR 0xA8],
     [CHR 0xE2, CHR 0x80, CHR 0xA9], [CHR 0xE2, CHR 0x80, CHR 0xAF], [CHR 0xE2, CHR 0x81, CHR 0x9F],
     [CHR 0xE3, CHR 0x80, CHR 0x80]]"

fun trim_left :: "string list \<Rightarrow> nat \<Rightarrow> string \<Rightarrow> string" where
  "trim_left ws 0 s = s"
| "trim_left ws (Suc n) s = (case List.find (\<lambda>w. prefix w s) ws of
     None \<Rightarrow> s | Some w \<Rightarrow> trim_left ws n (drop (length w) s))"

definition TrimSpace :: "string \<Rightarrow> string" where
  "TrimSpace s = (let l = trim_left white_spaces (length s) s in
     rev (trim_left (map rev white_spaces) (length l) (rev l)))"

text \<open>\<open>strings.ToLower\<close> on ASCII; no other letter has a lower case in \<open>true\<close> or \<open>false\<close>.\<close>

definition ToLower :: "string \<Rightarrow> string" where
  "ToLower = map (\<lambda>c. case map_of (zip ''ABCDEFGHIJKLMNOPQRSTUVWXYZ'' ''abcdefghijklmnopqrstuvwxyz'') c of
     None \<Rightarrow> c | Some d \<Rightarrow> d)"

text \<open>What follows the first occurrence of a separator: \<open>strings.SplitN(s, sep, 2)[1]\<close>.\<close>

fun after :: "string \<Rightarrow> string \<Rightarrow> string option" where
  "after sep s = (if prefix sep s then Some (drop (length sep) s)
     else case s of [] \<Rightarrow> None | _ # cs \<Rightarrow> after sep cs)"

declare after.simps [simp del]

section \<open>The driver structure\<close>

record 'w zfssa_driver = "'w driver" +
  drvName :: string
  drvVersion :: string
  cfgUser :: string
  cfgEndpoint :: string
  cfgHostIp :: string
  cfgNodeName :: string
  cfgPodIp :: string
  cfgSecure :: bool
  cfgLogLevel :: string
  cfgCertificate :: string
  cfgCertLocation :: string

definition DefaultLogLevel :: string where "DefaultLogLevel = ''3''"
definition DefaultCertPath :: string where "DefaultCertPath = ''/mnt/certs/zfssa.crt''"
definition DefaultCredPath :: string where "DefaultCredPath = ''/mnt/zfssa/zfssa.yaml''"
definition DefaultConfigPath :: string where "DefaultConfigPath = ''/mnt/config/config.yaml''"

lemmas default_defs = DefaultLogLevel_def DefaultCertPath_def DefaultCredPath_def DefaultConfigPath_def

definition getEnvFallback ::
  "'w os \<Rightarrow> string \<Rightarrow> string \<Rightarrow> (('w, 'b) rest_scheme, string) go" where
  "getEnvFallback os key fallback = bindG (askG (osLookupEnv os key)) (\<lambda>v. case v of
     Some value \<Rightarrow> retG value | None \<Rightarrow> retG fallback)"

text \<open>\<open>yamlMap\<close> is \<open>yaml.Unmarshal\<close> into a map, with its values printed.\<close>

definition GetValueFromYAML ::
  "'w env \<Rightarrow> 'w os \<Rightarrow> string \<Rightarrow> string \<Rightarrow> (('w, 'b) rest_scheme, gerror + string) go" where
  "GetValueFromYAML env os yamlFilePath key =
     bindG (askG (envReadFile env yamlFilePath)) (\<lambda>yamlData. case yamlData of
       None \<Rightarrow> retG (Inl (GPlain ''the file <%s> could not be read from: <%s>''))
     | Some yamlData \<Rightarrow> (case yamlMap os yamlData of
         None \<Rightarrow> retG (Inl (GPlain ''the file <%s> could not be parsed: <%s>''))
       | Some m \<Rightarrow> (case map_of m key of
           None \<Rightarrow> retG (Inl (GPlain ''key: <%s> could not be retrieved from <%s> : <%s>''))
         | Some value \<Rightarrow> retG (Inr value))))"

section \<open>Configuration\<close>

abbreviation errorG :: "string \<Rightarrow> ('s, gerror option) go" where
  "errorG msg \<equiv> retG (Some (GPlain msg))"

text \<open>The steps of \<open>getConfig\<close> in their order; each returns an error or goes on.\<close>

definition config_secure :: "'w os \<Rightarrow> (('w, 'b) zfssa_driver_scheme, gerror option) go" where
  "config_secure os =
     bindG (getEnvFallback os ''ZFSSA_INSECURE'' ''False'') (\<lambda>v.
     let b = ToLower (TrimSpace v) in
       if b = ''true'' then seqG (modG (\<lambda>s. s\<lparr>cfgSecure := False\<rparr>)) (retG None)
       else if b = ''false'' then seqG (modG (\<lambda>s. s\<lparr>cfgSecure := True\<rparr>)) (retG None)
       else errorG ''ZFSSA_INSECURE value is invalid'')"

definition config_certificate ::
  "'w env \<Rightarrow> 'w os \<Rightarrow> (('w, 'b) zfssa_driver_scheme, gerror option) go" where
  "config_certificate env os =
     bindG (getG cfgSecure) (\<lambda>secure.
     if \<not> secure then retG None
     else
     bindG (getEnvFallback os ''ZFSSA_CERT'' DefaultCertPath) (\<lambda>cert.
     let certfile = TrimSpace cert in
     if length certfile = 0 then errorG ''a certificate is required''
     else
     bindG (askG (osStat os certfile)) (\<lambda>err.
     if IsNotExist err then errorG ''certificate does not exits''
     else
     seqG (modG (\<lambda>s. s\<lparr>cfgCertLocation := certfile\<rparr>))
     (bindG (askG (envReadFile env certfile)) (\<lambda>pem. case pem of
        None \<Rightarrow> errorG ''failed to read certificate''
      | Some pem \<Rightarrow> seqG (modG (\<lambda>s. s\<lparr>cfgCertificate := pem\<rparr>)) (retG None))))))"

definition config_endpoint :: "'w os \<Rightarrow> (('w, 'b) zfssa_driver_scheme, gerror option) go" where
  "config_endpoint os =
     bindG (getEnvFallback os ''CSI_ENDPOINT'' []) (\<lambda>endpoint.
     seqG (modG (\<lambda>s. s\<lparr>cfgEndpoint := endpoint\<rparr>))
     (if endpoint = [] then errorG ''endpoint is required''
      else if \<not> prefix ''unix://'' endpoint then errorG ''endpoint is invalid''
      else
      bindG (derefG (\<lambda>_. after ''://'' endpoint)) (\<lambda>s1.
      seqG (modG (\<lambda>s. s\<lparr>cfgEndpoint := ''/'' @ s1\<rparr>))
      (bindG (osG (osRemoveAll os (''/'' @ s1))) (\<lambda>err.
       if err \<noteq> None \<and> \<not> IsNotExist err then errorG ''failed to remove endpoint path''
       else retG None)))))"

definition config_appliance ::
  "'w env \<Rightarrow> 'w os \<Rightarrow> (('w, 'b) zfssa_driver_scheme, gerror option) go" where
  "config_appliance env os =
     bindG (GetValueFromYAML env os DefaultConfigPath ''ZFSSA_TARGET'') (\<lambda>res.
     let zfssaHost = (case res of Inl _ \<Rightarrow> [] | Inr v \<Rightarrow> v) in
     bindG (getEnvFallback os ''ZFSSA_TARGET'' zfssaHost) (\<lambda>appliance.
     seqG (modG (\<lambda>s. s\<lparr>cfgAppliance := TrimSpace appliance\<rparr>))
     (if TrimSpace appliance = ''not-set'' then errorG ''appliance name required'' else retG None)))"

definition config_credentials ::
  "'w env \<Rightarrow> 'w os \<Rightarrow> (('w, 'b) zfssa_driver_scheme, gerror option) go" where
  "config_credentials env os =
     bindG (getEnvFallback os ''ZFSSA_CRED'' DefaultCredPath) (\<lambda>cred.
     let credfile = TrimSpace cred in
     if length credfile = 0
     then errorG ''a ZFSSA credentials file location is required, current value: <%s>''
     else
     seqG (modG (\<lambda>s. s\<lparr>cfgCredLocation := credfile\<rparr>))
     (bindG (askG (osStat os credfile)) (\<lambda>err.
      if IsNotExist err then errorG ''the ZFSSA credentials file is not present at location: <%s>''
      else
      bindG (GetUsernameFromCred env) (\<lambda>user. case user of
        Inl _ \<Rightarrow> seqG (modG (\<lambda>s. s\<lparr>cfgUser := []\<rparr>)) (errorG ''Cannot get ZFSSA username: %s'')
      | Inr user \<Rightarrow> seqG (modG (\<lambda>s. s\<lparr>cfgUser := user\<rparr>)) (retG None)))))"

text \<open>\<open>if err := m(); err != nil { return err }; k()\<close>\<close>

definition thenG :: "('s, gerror option) go \<Rightarrow> ('s, gerror option) go \<Rightarrow> ('s, gerror option) go" where
  "thenG m k = bindG m (\<lambda>err. case err of Some e \<Rightarrow> retG (Some e) | None \<Rightarrow> k)"

definition getConfig ::
  "'w env \<Rightarrow> 'w os \<Rightarrow> (('w, 'b) zfssa_driver_scheme, gerror option) go" where
  "getConfig env os =
     thenG (config_credentials env os)
     (thenG (config_appliance env os)
     (bindG (getEnvFallback os ''NODE_NAME'' []) (\<lambda>nodeName.
      seqG (modG (\<lambda>s. s\<lparr>cfgNodeName := nodeName\<rparr>))
      (if nodeName = [] then errorG ''node name required''
       else
       thenG (config_endpoint os)
       (thenG (config_secure os)
       (thenG (config_certificate env os)
       (bindG (getEnvFallback os ''HOST_IP'' ''0.0.0.0'') (\<lambda>hostIp.
        bindG (getEnvFallback os ''POD_IP'' ''0.0.0.0'') (\<lambda>podIp.
        bindG (getEnvFallback os ''LOG_LEVEL'' DefaultLogLevel) (\<lambda>logLevel.
        seqG (modG (\<lambda>s. s\<lparr>cfgHostIp := hostIp, cfgPodIp := podIp, cfgLogLevel := logLevel\<rparr>))
        (if Atoi logLevel = None then errorG ''invalid debug level'' else retG None)))))))))))"

section \<open>Creation and run\<close>

definition InitClusterInterface :: "'w os \<Rightarrow> (('w, 'b) driver_scheme, gerror option) go" where
  "InitClusterInterface os = bindG (askG (clusterInit os)) (\<lambda>c. case c of
     NotInCluster \<Rightarrow> retG None
   | NoClientset \<Rightarrow> retG (Some (GPlain ''could not get Clientset for Kubernetes work''))
   | InCluster \<Rightarrow> seqG (modG (\<lambda>s. s\<lparr>clientset := True\<rparr>)) (retG None))"

text \<open>
  The new driver structure, all zero, is the state; the heaps and the variables of the REST
  package are global and stay.  A nil table and an empty one are the same here.
\<close>

definition zero_driver :: "('w, 'b) zfssa_driver_scheme \<Rightarrow> ('w, 'b) zfssa_driver_scheme" where
  "zero_driver s = s\<lparr>drvName := [], drvVersion := [], cfgUser := [], cfgEndpoint := [], cfgHostIp := [],
     cfgNodeName := [], cfgPodIp := [], cfgSecure := False, cfgLogLevel := [], cfgCertificate := [],
     cfgCertLocation := [], cfgAppliance := [], cfgCredLocation := [], vMutex := RWFree, vHash := [],
     sMutex := RWFree, sHash := []\<rparr>"

definition NewZFSSADriver ::
  "'w env \<Rightarrow> 'w os \<Rightarrow> string \<Rightarrow> string \<Rightarrow> (('w, 'b) zfssa_driver_scheme, gerror option) go" where
  "NewZFSSADriver env os driverName version =
     seqG (modG zero_driver)
     (seqG (modG (\<lambda>s. s\<lparr>drvName := driverName, drvVersion := version\<rparr>))
     (thenG (getConfig env os)
     (seqG (modG (\<lambda>s. s\<lparr>vHash := [], sHash := []\<rparr>))
     (thenG (bindG (getG (\<lambda>s. (cfgAppliance s, cfgCertLocation s, cfgSecure s)))
        (\<lambda>(appliance, cert, secure). InitREST env appliance cert secure))
     (InitClusterInterface os)))))"

text \<open>
  \<open>Run\<close>: refresh the caches, whose errors are ignored, serve requests until a termination
  signal comes, and remove the socket.  \<open>requests\<close> are those the gRPC server dispatches in
  the meantime, one after the other.
\<close>

definition Run ::
  "'w env \<Rightarrow> 'w os \<Rightarrow> (nat \<times> csi_request) list \<Rightarrow> (('w, 'b) zfssa_driver_scheme, unit) go" where
  "Run env os requests =
     seqG (bindG (updateVolumeList env None) (\<lambda>_. retG ()))
     (seqG (bindG (updateSnapshotList env None) (\<lambda>_. retG ()))
     (seqG (bindG (serve_all env requests) (\<lambda>_. retG ()))
     (bindG (getG cfgEndpoint) (\<lambda>endpoint.
      bindG (osG (osRemoveAll os endpoint)) (\<lambda>_. retG ())))))"

text \<open>\<open>Wait\<close>: the first of the four termination signals ends the loop over the channel.\<close>

datatype signal = SIGTERM | SIGHUP | SIGINT | SIGQUIT | OtherSignal

definition sigList :: "signal list" where "sigList = [SIGTERM, SIGHUP, SIGINT, SIGQUIT]"

fun Wait :: "signal list \<Rightarrow> signal option" where
  "Wait [] = None"
| "Wait (sig # ch) = (if sig \<in> set sigList then Some sig else Wait ch)"

section \<open>Identity and node information\<close>

definition GetPluginInfo :: "(('w, 'b) zfssa_driver_scheme, gerror + string \<times> string) go" where
  "GetPluginInfo = getG (\<lambda>s. Inr (drvName s, drvVersion s))"

datatype plugin_capability = CONTROLLER_SERVICE | VolumeExpansion_ONLINE

definition GetPluginCapabilities :: "('s, gerror + plugin_capability list) go" where
  "GetPluginCapabilities = retG (Inr [CONTROLLER_SERVICE, VolumeExpansion_ONLINE])"

text \<open>The answer, if any, and the error; a failure has both.\<close>

definition Probe ::
  "'w env \<Rightarrow> (('w, 'b) driver_scheme, bool option \<times> gerror option) go" where
  "Probe env = bindG (getUserLogin env None) (\<lambda>login. case login of
     Inl _ \<Rightarrow> retG (None, Some (GStatus Unauthenticated ''Invalid credentials''))
   | Inr (user, password) \<Rightarrow>
     bindG (LookUpToken user password) (\<lambda>t.
     bindG (GetServices env t) (\<lambda>res. case res of
       Inl _ \<Rightarrow> retG (Some False, Some (GStatus FailedPrecondition ''Failure creating token''))
     | Inr _ \<Rightarrow> retG (Some True, None))))"

definition NodeGetInfo :: "(('w, 'b) zfssa_driver_scheme, gerror + string) go" where
  "NodeGetInfo = getG (\<lambda>s. Inr (cfgNodeName s))"

end
