(* ===== verification/NodeProperties.thy ===== *)
theory NodeProperties
  imports Node Examples
begin

text \<open>
  What the node service promises: mounting is idempotent, unmounting leaves nothing behind,
  the cache of the controller is not touched; the secrets of a session are complete or absent;
  and where a failure of the machine crashes the driver.
\<close>

section \<open>Node operations are operations on the machine and the tokens\<close>

lemma rest_op_let [rest_ops]: "(\<And>x. rest_op (f x)) \<Longrightarrow> rest_op (let x = y in f x)"
  by simp

lemma rest_op_access [rest_ops]:
  "rest_op m \<Longrightarrow> (\<And>x y. rest_op (f x y)) \<Longrightarrow> rest_op k \<Longrightarrow>
     rest_op (case cap of AccessBlock \<Rightarrow> m | AccessMount x y \<Rightarrow> f x y | NoAccessType \<Rightarrow> k)"
  by (cases cap) simp_all

lemma rest_op_exec [rest_ops]:
  "(\<And>x y. rest_op (f x y)) \<Longrightarrow> (\<And>x. rest_op (g x)) \<Longrightarrow>
     rest_op (case e of ExitError x y \<Rightarrow> f x y | StartError x \<Rightarrow> g x)"
  by (cases e) simp_all

lemma rest_op_run [rest_ops]:
  "(\<And>x y. rest_op (f x y)) \<Longrightarrow> (\<And>x y. rest_op (g x y)) \<Longrightarrow>
     rest_op (case r of Started x y \<Rightarrow> f x y | NotStarted x y \<Rightarrow> g x y)"
  by (cases r) simp_all

lemmas node_defs = MakeFile_def ExistsPath_def error_text_def remove_unmounted_def remove_target_def
  nodePublishFileSystem_def nodeUnpublishFilesystemVolume_def nodePublishBlockVolume_def
  nodeUnpublishBlockVolume_def NodeUnstageVolume_def Rescan_def iscsiadm_error_def ConnectDisk_def

lemma rest_op_indexG [rest_ops]: "rest_op (indexG xs k)"
  unfolding indexG_def by (intro rest_ops)

lemma rest_op_node [rest_ops]:
  "rest_op (nodePublishFileSystem os req opts)" "rest_op (nodeUnpublishFilesystemVolume os target)"
  "rest_op (nodeUnpublishBlockVolume os target)" "rest_op (NodeUnstageVolume os i target)"
  "rest_op (ConnectDisk os dm)"
  unfolding node_defs by (intro rest_ops)+

lemma rest_op_attach [rest_ops]: "rest_op (attachBlockVolume env os t req vid)"
  unfolding attachBlockVolume_def by (intro rest_ops)

lemma rest_op_publish_block [rest_ops]: "rest_op (nodePublishBlockVolume env os t req vid opts)"
  unfolding node_defs by (intro rest_ops)

lemma rest_op_handlers [rest_ops]:
  "rest_op (NodePublishVolume env os req)" "rest_op (NodeUnpublishVolume env os i target)"
  unfolding NodePublishVolume_def NodeUnpublishVolume_def by (intro rest_ops)+


section \<open>A machine for the examples\<close>

text \<open>
  A machine with paths and mounts beside the scripted appliance: the mount table maps a target
  to its source, and a path is a mount point when it is in the table.
\<close>

record machine =
  mPaths :: "string list"
  mMounts :: "(string \<times> string) list"

definition pair_env :: "(http_result list \<times> machine) env" where
  "pair_env = \<lparr>envHttp = (\<lambda>rq (w, m). let (r, w') = script_http rq w in (r, (w', m))),
     envRequestOk = envRequestOk script_env, envReadFile = (\<lambda>_ _. Some ''file''),
     envCertsOk = envCertsOk script_env, envYamlCredentials = envYamlCredentials script_env,
     envClock = envClock script_env, envNodeName = (\<lambda>n _. Some n), envMapOrder = envMapOrder script_env,
     envJsonValue = envJsonValue script_env, decFilesystem = decFilesystem script_env,
     decFilesystemList = decFilesystemList script_env, decLun = decLun script_env,
     decLunList = decLunList script_env, decSnapshot = decSnapshot script_env,
     decSnapshotList = decSnapshotList script_env, decDependentList = decDependentList script_env,
     decPool = decPool script_env, decPoolList = decPoolList script_env,
     decProject = decProject script_env, decProjectList = decProjectList script_env,
     decTargetGroup = decTargetGroup script_env, decServiceList = decServiceList script_env\<rparr>"

definition demo_os :: "(http_result list \<times> machine) os" where
  "demo_os = \<lparr>osLookupEnv = (\<lambda>k _. map_of [(''NODE_NAME'', ''node''), (''CSI_ENDPOINT'', ''unix:///s''),
       (''ZFSSA_INSECURE'', ''True'')] k),
     osStat = (\<lambda>p (_, m). if p \<in> set (mPaths m) then None else Some (ErrNotExist ''no such file'')),
     osMkdir = (\<lambda>p (w, m). (None, (w, m\<lparr>mPaths := p # mPaths m\<rparr>))),
     osMkdirAll = (\<lambda>p (w, m). (None, (w, m\<lparr>mPaths := p # mPaths m\<rparr>))),
     osOpenCreate = (\<lambda>p (w, m). (None, (w, m\<lparr>mPaths := p # mPaths m\<rparr>))),
     osRemove = (\<lambda>p (w, m). (None, (w, m\<lparr>mPaths := List.filter (\<lambda>q. q \<noteq> p) (mPaths m)\<rparr>))),
     osRemoveAll = (\<lambda>p (w, m). (None, (w, m\<lparr>mPaths := List.filter (\<lambda>q. q \<noteq> p) (mPaths m)\<rparr>))),
     osRun = (\<lambda>_ w. (NotStarted (StartError ''executable file not found'') [], w)),
     mntIsLikelyNotMountPoint = (\<lambda>p (_, m).
       if p \<in> set (mPaths m) then (map_of (mMounts m) p = None, None)
       else (True, Some (ErrNotExist ''no such file''))),
     mntMount = (\<lambda>src p _ _ (w, m).
       if p \<in> set (mPaths m) then (None, (w, m\<lparr>mMounts := (p, src) # mMounts m\<rparr>))
       else (Some (ErrOther ''mount point does not exist''), (w, m))),
     mntUnmount = (\<lambda>p (w, m). (None, (w, m\<lparr>mMounts := List.filter (\<lambda>q. fst q \<noteq> p) (mMounts m)\<rparr>))),
     mntGetDeviceName = (\<lambda>p (_, m). case map_of (mMounts m) p of
       None \<Rightarrow> ([], 0, None) | Some src \<Rightarrow> (src, 1, None)),
     mntPathExists = (\<lambda>p (_, m). (p \<in> set (mPaths m), None)),
     iscsiConnect = (\<lambda>_ w. (Inr ''/dev/sda'', w)), iscsiPersistConnector = (\<lambda>_ _ w. (None, w)),
     iscsiGetConnectorFromFile = (\<lambda>_ _. Inl ''no file''), iscsiDisconnect = (\<lambda>_ _ w. w),
     decStringMap = (\<lambda>b. None), decStringList = (\<lambda>b. Inr []), yamlMap = (\<lambda>b. None),
     clusterInit = (\<lambda>_. NotInCluster)\<rparr>"

definition demo_driver :: "machine \<Rightarrow> (http_result list \<times> machine) driver" where
  "demo_driver m = \<lparr>restTokens = Some [], restHeap = (\<lambda>_. None), restNext = 0,
     InsecureSkipVerify = False, zfssaCertLocation = ''/mnt/certs/zfssa.crt'',
     zServicesURL = ''https://z:215/api/access/v2'', zName = ''z'', world = ([], m),
     cfgAppliance = ''z'', cfgCredLocation = ''/mnt/zfssa/zfssa.yaml'', clientset = False, vMutex = RWFree, vHash = [],
     sMutex = RWFree, sHash = [], vols = (\<lambda>_. None), snaps = (\<lambda>_. None), nextRef = 0\<rparr>"

definition demo_publish :: NodePublishVolumeRequest where
  "demo_publish = \<lparr>npVolumeId = ''/mnt/z/p/q/f'', npStagingTargetPath = ''/stage'', npTargetPath = ''/target'',
     npVolumeCapability = Some (AccessMount ''nfs'' []), npReadonly = True, npSecrets = None,
     npVolumeContext = [(''nfsServer'', ''10.0.0.1''), (''mountpoint'', ''/export/f'')]\<rparr>"

section \<open>Mounting and unmounting\<close>

text \<open>
  C17: Publishing a filesystem mounts it once.  When a publication succeeds on a machine on which
  a successful NFS mount makes its target a mount point, the target is a mount point, and
  publishing it again succeeds and changes nothing.
\<close>

theorem publish_is_idempotent:
  assumes "\<forall>src p opts w w'. mntMount os src p ''nfs'' opts w = (None, w') \<longrightarrow>
       mntIsLikelyNotMountPoint os p w' = (False, None)"
    "nodePublishFileSystem os req opts s = (Done (Inr ()), s')"
  shows "fst (mntIsLikelyNotMountPoint os (npTargetPath req) (world s')) = False \<and>
    nodePublishFileSystem os req opts s' = (Done (Inr ()), s')"
proof -
  have again: "nodePublishFileSystem os req opts s' = (Done (Inr ()), s')"
    if "mntIsLikelyNotMountPoint os (npTargetPath req) (world s') = (False, None)"
    using that by (simp add: nodePublishFileSystem_def Let_def)
  obtain nm err where q: "mntIsLikelyNotMountPoint os (npTargetPath req) (world s) = (nm, err)" by fastforce
  show ?thesis
  proof (cases "err = None \<and> \<not> nm")
    case True
    then have "s' = s" using assms(2) q by (simp add: nodePublishFileSystem_def Let_def)
    with True q again show ?thesis by simp
  next
    case False
    obtain src o1 w1 where "mntMount os src (npTargetPath req) ''nfs'' opts w1 = (None, world s')"
      using assms(2) q False
      by (auto simp: nodePublishFileSystem_def osG_def Let_def bindG_def tryG_def
          split: option.splits if_splits prod.splits)
    then have "mntIsLikelyNotMountPoint os (npTargetPath req) (world s') = (False, None)"
      using assms(1) by blast
    with again show ?thesis by simp
  qed
qed

theorem publish_is_idempotent_witness:
  "\<exists>s'. nodePublishFileSystem demo_os demo_publish [''ro''] (demo_driver \<lparr>mPaths = [], mMounts = []\<rparr>)
       = (Done (Inr ()), s') \<and>
     nodePublishFileSystem demo_os demo_publish [''ro''] s' = (Done (Inr ()), s') \<and>
     mMounts (snd (world s')) = [(''/target'', ''10.0.0.1:/export/f'')]"
proof -
  let ?m = "nodePublishFileSystem demo_os demo_publish [''ro''] (demo_driver \<lparr>mPaths = [], mMounts = []\<rparr>)"
  have r: "fst ?m = Done (Inr ())" "mMounts (snd (world (snd ?m))) = [(''/target'', ''10.0.0.1:/export/f'')]"
    by code_simp+
  obtain s' where m: "?m = (Done (Inr ()), s')" using r(1) by (cases ?m) simp
  have law: "mntMount demo_os src p ''nfs'' opts w = (None, w') \<longrightarrow>
     mntIsLikelyNotMountPoint demo_os p w' = (False, None)" for src p opts w w'
    by (auto simp: demo_os_def split: prod.splits if_splits)
  show ?thesis using publish_is_idempotent [OF _ m] law m r(2) by auto
qed

text \<open>
  C18: Unpublishing a filesystem ends with the target gone or, when something else is still
  mounted there, left in place; once it is gone unpublishing it again succeeds and changes
  nothing.
\<close>

theorem unpublish_leaves_nothing:
  assumes "\<forall>p w w'. osRemove os p w = (None, w') \<longrightarrow> IsNotExist (osStat os p w')"
    "nodeUnpublishFilesystemVolume os target s = (Done (Inr ()), s')"
  shows "IsNotExist (osStat os target (world s')) \<and>
      nodeUnpublishFilesystemVolume os target s' = (Done (Inr ()), s') \<or>
    mntIsLikelyNotMountPoint os target (world s') = (False, None)"
proof -
  have target: "target \<noteq> []" using assms(2) by (auto simp: nodeUnpublishFilesystemVolume_def)
  have again: "nodeUnpublishFilesystemVolume os target s' = (Done (Inr ()), s')"
    if "IsNotExist (osStat os target (world s'))"
    using that target by (simp add: nodeUnpublishFilesystemVolume_def)
  show ?thesis
  proof (cases "IsNotExist (osStat os target (world s))")
    case True
    then have "s' = s" using assms(2) target by (simp add: nodeUnpublishFilesystemVolume_def)
    with True again show ?thesis by simp
  next
    case False
    obtain err s1 where "remove_unmounted os target err s1 = (Done (Inr ()), s')"
      using assms(2) target False
      by (auto simp: nodeUnpublishFilesystemVolume_def tryG_def bindG_def osG_def
          split: option.splits if_splits prod.splits)
    then have "mntIsLikelyNotMountPoint os target (world s') = (False, None) \<or>
        (\<exists>w. osRemove os target w = (None, world s'))"
      by (auto simp: remove_unmounted_def error_text_def bindG_def osG_def
          split: option.splits if_splits prod.splits)
    with again assms(1) show ?thesis by blast
  qed
qed

theorem unpublish_leaves_nothing_witness:
  "\<exists>s'. nodeUnpublishFilesystemVolume demo_os ''/target''
       (demo_driver \<lparr>mPaths = [''/target''], mMounts = [(''/target'', ''x'')]\<rparr>) = (Done (Inr ()), s') \<and>
     nodeUnpublishFilesystemVolume demo_os ''/target'' s' = (Done (Inr ()), s')"
proof -
  let ?m = "nodeUnpublishFilesystemVolume demo_os ''/target''
     (demo_driver \<lparr>mPaths = [''/target''], mMounts = [(''/target'', ''x'')]\<rparr>)"
  have r: "fst ?m = Done (Inr ())"
    "fst (mntIsLikelyNotMountPoint demo_os ''/target'' (world (snd ?m))) = True" by code_simp+
  obtain s' where m: "?m = (Done (Inr ()), s')" using r(1) by (cases ?m) simp
  have law: "\<forall>p w w'. osRemove demo_os p w = (None, w') \<longrightarrow> IsNotExist (osStat demo_os p w')"
    by (auto simp: demo_os_def split: prod.splits)
  from unpublish_leaves_nothing [OF law m] r(2) m show ?thesis by auto
qed

text \<open>
  Each of the three operations that unmount a target crashes the driver when the unmount
  succeeds and the mount table cannot be asked afterwards: the log line takes the text of the
  error of the unmount, which is nil.
\<close>

theorem failed_mount_query_panics:
  assumes "mntUnmount os target (world s) = (None, w')"
    "mntIsLikelyNotMountPoint os target w' = (nm, Some e)" "target \<noteq> []" "i \<noteq> []"
    "\<not> IsNotExist (osStat os target (world s))"
    "mntGetDeviceName os target (world s) = (dev, n, None)" "n \<noteq> 0"
  shows "\<forall>m \<in> {nodeUnpublishFilesystemVolume os target, nodeUnpublishBlockVolume os target,
      NodeUnstageVolume os i target}. fst (m s) = Panic ''nil pointer dereference''"
  using assms
  by (auto simp: nodeUnpublishFilesystemVolume_def nodeUnpublishBlockVolume_def NodeUnstageVolume_def
      remove_unmounted_def error_text_def)

theorem failed_mount_query_panics_witness:
  "fst (NodeUnstageVolume (demo_os\<lparr>mntIsLikelyNotMountPoint := (\<lambda>_ _. (True, Some (ErrOther ''stale'')))\<rparr>)
     ''id'' ''/t'' (demo_driver \<lparr>mPaths = [''/t''], mMounts = [(''/t'', ''x'')]\<rparr>))
   = Panic ''nil pointer dereference''"
proof -
  let ?os = "demo_os\<lparr>mntIsLikelyNotMountPoint := (\<lambda>_ _. (True, Some (ErrOther ''stale'')))\<rparr>"
  let ?s = "demo_driver \<lparr>mPaths = [''/t''], mMounts = [(''/t'', ''x'')]\<rparr>"
  have "mntUnmount ?os ''/t'' (world ?s) = (None, ([], \<lparr>mPaths = [''/t''], mMounts = []\<rparr>))"
    "mntIsLikelyNotMountPoint ?os ''/t'' ([], \<lparr>mPaths = [''/t''], mMounts = []\<rparr>) =
      (True, Some (ErrOther ''stale''))"
    "\<not> IsNotExist (osStat ?os ''/t'' (world ?s))"
    "mntGetDeviceName ?os ''/t'' (world ?s) = (''x'', 1, None)"
    by (simp_all add: demo_os_def demo_driver_def)
  from failed_mount_query_panics [OF this(1,2) _ _ this(3,4), of "''id''"] show ?thesis by simp
qed

text \<open>
  The node service only touches the machine and the tokens: the cache of the controller
  is as it was, and no request waits for ever.
\<close>

theorem node_keeps_cache:
  fixes s :: "('w, 'b) driver_scheme"
  assumes "tokens_settled s"
    "NodePublishVolume env os req s = (r, s') \<or> NodeUnpublishVolume env os i target s = (r, s') \<or>
     NodeUnstageVolume os i target s = (r, s')"
  shows "r \<noteq> Deadlock \<and> rest.more s' = rest.more s"
proof -
  have *: "r \<noteq> Deadlock \<and> rest.more s' = rest.more s" if "rest_op m" "m s = (r, s')"
    for m :: "(('w, 'b) driver_scheme, gerror + unit) go"
    using that assms(1) rest_op_more [OF that] by (auto simp: rest_op_def dest!: triple_run)
  show ?thesis
    using assms(2) * [OF rest_op_handlers(1)] * [OF rest_op_handlers(2)] * [OF rest_op_node(4)] by blast
qed

theorem node_keeps_cache_witness:
  "\<exists>s'. NodePublishVolume pair_env demo_os demo_publish (demo_driver \<lparr>mPaths = [], mMounts = []\<rparr>) =
     (Done (Inr ()), s') \<and> vHash s' = []"
proof -
  let ?s = "demo_driver \<lparr>mPaths = [], mMounts = []\<rparr>"
  have r: "fst (NodePublishVolume pair_env demo_os demo_publish ?s) = Done (Inr ())" by code_simp
  obtain s' where m: "NodePublishVolume pair_env demo_os demo_publish ?s = (Done (Inr ()), s')"
    using r by (cases "NodePublishVolume pair_env demo_os demo_publish ?s") simp
  have t: "tokens_settled ?s" by (simp add: tokens_settled_def demo_driver_def)
  from node_keeps_cache [OF t disjI1 [OF m]] have "rest.more s' = rest.more ?s" by blast
  then have "vHash s' = vHash ?s" using driver_more by blast
  with m show ?thesis by (simp add: demo_driver_def)
qed

section \<open>iSCSI\<close>

lemma portalMounter_port: "str_contains (portalMounter p) '':''"
proof (cases "str_contains p '':''")
  case False
  have "sublist '':'' (p @ '':'' @ ''3260'')" by (rule sublist_appendI)
  with False show ?thesis by (simp add: portalMounter_def str_contains_sublist)
qed (simp add: portalMounter_def)

definition complete_secrets :: "string \<Rightarrow> params \<Rightarrow> Secrets \<Rightarrow> bool" where
  "complete_secrets pre secret x \<longleftrightarrow> SecretsType x = ''chap'' \<and>
     map_of secret (pre @ ''username'') = Some (UserName x) \<and>
     map_of secret (pre @ ''password'') = Some (Password x) \<and>
     map_of secret (pre @ ''username_in'') = Some (UserNameIn x) \<and>
     map_of secret (pre @ ''password_in'') = Some (PasswordIn x)"

lemma parse_secrets_complete:
  "parseSessionSecret secret = Inr x \<Longrightarrow> x = zero_Secrets \<or> complete_secrets ''node.session.auth.'' secret x"
  "parseDiscoverySecret secret = Inr y \<Longrightarrow>
     y = zero_Secrets \<or> complete_secrets ''node.sendtargets.auth.'' secret y"
  by (auto simp: parseSessionSecret_def parseDiscoverySecret_def complete_secrets_def
      split: if_splits option.splits)



text \<open>
  On a node without \<open>iscsiadm\<close> every attachment of a disk crashes the driver: the error of
  a command that does not start is not the kind that the code takes for granted.
\<close>

theorem missing_iscsiadm_panics:
  assumes "osRun os [''iscsiadm'', ''-m'', ''session'', ''--rescan''] (world s) =
      (NotStarted (StartError e) out, w')"
  shows "fst (ConnectDisk os dm s) = Panic ''interface conversion: error is not *exec.ExitError''"
  using assms by (simp add: ConnectDisk_def Rescan_def iscsiadm_error_def)

theorem missing_iscsiadm_panics_witness:
  "fst (ConnectDisk demo_os (GetISCSIDiskMounter zero_iscsiDisk False [] [] [])
     (demo_driver \<lparr>mPaths = [], mMounts = []\<rparr>))
   = Panic ''interface conversion: error is not *exec.ExitError''"
  by (rule missing_iscsiadm_panics [where e = "''executable file not found''"])
    (simp add: demo_os_def demo_driver_def)

end
