(* ===== verification/StartupProperties.thy ===== *)
theory StartupProperties
  imports Startup NodeProperties
begin

text \<open>
  What a driver that started is: its configuration is complete, its caches are empty and its
  locks free.  And where a start goes wrong: without a name for the appliance, and with an
  insecure connection.
\<close>

section \<open>The steps of the configuration\<close>

lemma thenG_Done: "thenG m k s = (Done None, s') \<Longrightarrow> \<exists>s1. m s = (Done None, s1) \<and> k s1 = (Done None, s')"
  by (auto simp: thenG_def bindG_def retG_def split: prod.splits outcome.splits option.splits)

definition env_value :: "'w os \<Rightarrow> string \<Rightarrow> string \<Rightarrow> 'w \<Rightarrow> string" where
  "env_value os key fallback w = (case osLookupEnv os key w of None \<Rightarrow> fallback | Some v \<Rightarrow> v)"

lemma getEnvFallback_bind [simp]:
  "bindG (getEnvFallback os key fallback) k s = k (env_value os key fallback (world s)) s"
  by (simp add: getEnvFallback_def env_value_def go_defs askG_def split: option.split)

lemma seqG_modG: "seqG (modG f) k s = k (f s)"
  by (simp add: go_defs)

lemma bindG_getG [simp]: "bindG (getG f) k s = k (f s) s"
  by (simp add: go_defs)

lemma GetUsernameFromCred_run:
  "GetUsernameFromCred env s = (Done (Inr user), s') \<Longrightarrow> isUsernameValid user \<and> s' = s"
  by (auto simp: GetUsernameFromCred_def go_defs split: sum.splits prod.splits if_splits)

lemma GetUsernameFromCred_returns: "\<exists>r. GetUsernameFromCred env s = (Done r, s)"
  by (auto simp: GetUsernameFromCred_def go_defs split: sum.split prod.split)

lemma config_credentials_Done:
  assumes "config_credentials env os s = (Done None, s')"
  shows "isUsernameValid (cfgUser s') \<and> cfgCredLocation s' \<noteq> []"
proof -
  define cred where "cred = TrimSpace (env_value os ''ZFSSA_CRED'' DefaultCredPath (world s))"
  define s1 where "s1 = s\<lparr>cfgCredLocation := cred\<rparr>"
  have c: "cred \<noteq> []" "\<not> IsNotExist (osStat os cred (world s1))"
    using assms by (auto simp: config_credentials_def Let_def cred_def s1_def split: if_splits)
  obtain r where r: "GetUsernameFromCred env s1 = (Done r, s1)"
    using GetUsernameFromCred_returns by blast
  have "(case r of Inl _ \<Rightarrow> (Done (Some (GPlain ''Cannot get ZFSSA username: %s'')), s1\<lparr>cfgUser := []\<rparr>)
      | Inr user \<Rightarrow> (Done None, s1\<lparr>cfgUser := user\<rparr>)) = (Done None, s')"
    using assms c r by (cases r) (simp_all add: config_credentials_def Let_def cred_def s1_def)
  then obtain user where "r = Inr user" "s' = s1\<lparr>cfgUser := user\<rparr>" by (auto split: sum.splits)
  moreover have "isUsernameValid user" using GetUsernameFromCred_run r \<open>r = Inr user\<close> by blast
  ultimately show ?thesis using c(1) by (simp add: s1_def)
qed

lemma GetValueFromYAML_returns: "\<exists>r. GetValueFromYAML env os f k s = (Done r, s)"
  by (auto simp: GetValueFromYAML_def split: option.split)

lemma config_appliance_Done:
  assumes "config_appliance env os s = (Done None, s')"
  shows "\<exists>r. GetValueFromYAML env os DefaultConfigPath ''ZFSSA_TARGET'' s = (Done r, s) \<and>
    (let a = TrimSpace (env_value os ''ZFSSA_TARGET'' (case r of Inl _ \<Rightarrow> [] | Inr v \<Rightarrow> v) (world s))
     in a \<noteq> ''not-set'' \<and> s' = s\<lparr>cfgAppliance := a\<rparr>)"
proof -
  obtain r where "GetValueFromYAML env os DefaultConfigPath ''ZFSSA_TARGET'' s = (Done r, s)"
    using GetValueFromYAML_returns by blast
  with assms show ?thesis by (auto simp: config_appliance_def Let_def split: if_splits option.splits)
qed

lemma after_prefix: "prefix ''unix://'' e \<Longrightarrow> after ''://'' e = Some (drop 7 e)"
  by (auto simp: prefix_def after.simps [of _ "CHR ''u'' # _"] after.simps [of _ "CHR ''n'' # _"]
      after.simps [of _ "CHR ''i'' # _"] after.simps [of _ "CHR ''x'' # _"] after.simps [of _ "CHR '':'' # _"])

lemma config_endpoint_Done:
  assumes "config_endpoint os s = (Done None, s')"
  shows "\<exists>e w. env_value os ''CSI_ENDPOINT'' [] (world s) = ''unix://'' @ e \<and>
    s' = s\<lparr>cfgEndpoint := ''/'' @ e, world := w\<rparr>"
proof -
  obtain e where e: "env_value os ''CSI_ENDPOINT'' [] (world s) = e" "prefix ''unix://'' e"
    using assms by (auto simp: config_endpoint_def split: if_splits)
  define s1 where "s1 = s\<lparr>cfgEndpoint := ''/'' @ drop 7 e\<rparr>"
  obtain err w where r: "osRemoveAll os (''/'' @ drop 7 e) (world s1) = (err, w)" by fastforce
  have "s' = s1\<lparr>world := w\<rparr>"
    using assms e r by (auto simp: config_endpoint_def after_prefix s1_def split: if_splits)
  with e show ?thesis by (auto simp: prefix_def s1_def)
qed

lemma config_secure_Done:
  assumes "config_secure os s = (Done None, s')"
  shows "s' = s\<lparr>cfgSecure := True\<rparr> \<or> s' = s\<lparr>cfgSecure := False\<rparr>"
proof -
  obtain b where m: "(if b = ''true'' then seqG (modG (\<lambda>s. s\<lparr>cfgSecure := False\<rparr>)) (retG None)
       else if b = ''false'' then seqG (modG (\<lambda>s. s\<lparr>cfgSecure := True\<rparr>)) (retG None)
       else errorG ''ZFSSA_INSECURE value is invalid'') s = (Done None, s')"
    using assms unfolding config_secure_def Let_def getEnvFallback_bind by blast
  consider "b = ''true''" | "b = ''false''" | "b \<noteq> ''true''" "b \<noteq> ''false''" by blast
  then show ?thesis using m by cases (auto simp: seqG_modG)
qed

lemma config_certificate_Done:
  assumes "config_certificate env os s = (Done None, s')" "cfgSecure s"
  shows "\<exists>cert pem. cert \<noteq> [] \<and> envReadFile env cert (world s) = Some pem \<and>
      s' = s\<lparr>cfgCertLocation := cert, cfgCertificate := pem\<rparr>"
proof -
  let ?cert = "TrimSpace (env_value os ''ZFSSA_CERT'' DefaultCertPath (world s))"
  let ?read = "\<lambda>pem. case pem of None \<Rightarrow> errorG ''failed to read certificate''
     | Some pem \<Rightarrow> seqG (modG (\<lambda>s. s\<lparr>cfgCertificate := pem\<rparr>)) (retG None)"
  have m: "(if length ?cert = 0 then errorG ''a certificate is required''
     else
     bindG (askG (osStat os ?cert)) (\<lambda>err.
     if IsNotExist err then errorG ''certificate does not exits''
     else seqG (modG (\<lambda>s. s\<lparr>cfgCertLocation := ?cert\<rparr>)) (bindG (askG (envReadFile env ?cert)) ?read))) s
     = (Done None, s')"
    using assms unfolding config_certificate_def Let_def bindG_getG by simp
  have c: "?cert \<noteq> []" using m by (cases "?cert = []") simp_all
  define s1 where "s1 = s\<lparr>cfgCertLocation := ?cert\<rparr>"
  have "?read (envReadFile env ?cert (world s1)) s1 = (Done None, s')"
    using m c unfolding s1_def by (cases "IsNotExist (osStat os ?cert (world s))") (simp_all add: seqG_modG askG_def)
  then obtain pem where "envReadFile env ?cert (world s1) = Some pem" "s' = s1\<lparr>cfgCertificate := pem\<rparr>"
    by (cases "envReadFile env ?cert (world s1)") (simp_all add: seqG_modG)
  with c show ?thesis by (auto simp: s1_def)
qed

lemma config_certificate_insecure: "\<not> cfgSecure s \<Longrightarrow> config_certificate env os s = (Done None, s)"
  by (simp add: config_certificate_def bindG_getG)

section \<open>The configuration\<close>

lemma getConfig_steps:
  assumes "getConfig env os s = (Done None, s')"
  obtains s1 s2 s3 s4 s5 s6 where
    "config_credentials env os s = (Done None, s1)" "config_appliance env os s1 = (Done None, s2)"
    "s3 = s2\<lparr>cfgNodeName := env_value os ''NODE_NAME'' [] (world s2)\<rparr>" "cfgNodeName s3 \<noteq> []"
    "config_endpoint os s3 = (Done None, s4)" "config_secure os s4 = (Done None, s5)"
    "config_certificate env os s5 = (Done None, s6)"
    "s' = s6\<lparr>cfgHostIp := env_value os ''HOST_IP'' ''0.0.0.0'' (world s6),
       cfgPodIp := env_value os ''POD_IP'' ''0.0.0.0'' (world s6),
       cfgLogLevel := env_value os ''LOG_LEVEL'' DefaultLogLevel (world s6)\<rparr>"
    "Atoi (cfgLogLevel s') \<noteq> None"
proof -
  obtain s1 s2 where s1: "config_credentials env os s = (Done None, s1)"
      "config_appliance env os s1 = (Done None, s2)"
      and rest: "bindG (getEnvFallback os ''NODE_NAME'' []) (\<lambda>nodeName.
      seqG (modG (\<lambda>s. s\<lparr>cfgNodeName := nodeName\<rparr>))
      (if nodeName = [] then errorG ''node name required''
       else
       thenG (config_endpoint os)
       (thenG (config_secure os)
       (thenG (config_certificate env os)
       (bindG (getEnvFallback os ''HOST_IP'' ''0.0.0.0'') (\<lambda>hostIp.
        bindG (getEnvFallback os ''POD_IP'' ''0.0.0.0'') (\<lambda>podIp.
        bindG (getEnvFallback os ''LOG_LEVEL'' DefaultLogLevel) (\<lambda>logLevel.
        seqG (modG (\<lambda>s. s\<lparr>cfgHostIp := hostIp, cfgPodIp := podIp, cfgLogLevel := logLevel\<rparr>))
        (if Atoi logLevel = None then errorG ''invalid debug level'' else retG None))))))))) s2 = (Done None, s')"
    using assms unfolding getConfig_def by (auto dest!: thenG_Done)
  define s3 where "s3 = s2\<lparr>cfgNodeName := env_value os ''NODE_NAME'' [] (world s2)\<rparr>"
  have node: "cfgNodeName s3 \<noteq> []" using rest by (auto simp: s3_def split: if_splits)
  then obtain s4 s5 s6 where "config_endpoint os s3 = (Done None, s4)"
      "config_secure os s4 = (Done None, s5)" "config_certificate env os s5 = (Done None, s6)"
      "s' = s6\<lparr>cfgHostIp := env_value os ''HOST_IP'' ''0.0.0.0'' (world s6),
         cfgPodIp := env_value os ''POD_IP'' ''0.0.0.0'' (world s6),
         cfgLogLevel := env_value os ''LOG_LEVEL'' DefaultLogLevel (world s6)\<rparr>"
      "Atoi (cfgLogLevel s') \<noteq> None"
    using rest by (auto simp: s3_def dest!: thenG_Done split: if_splits)
  with s1 node show thesis by (rule that [OF _ _ s3_def])
qed

text \<open>
  C20: A configuration that is accepted names a node, has a valid user, an absolute socket path
  made from a \<open>unix\<close> URL, a numeric log level and, unless the connection is insecure, a
  certificate that was read.
\<close>

theorem getConfig_complete:
  assumes "getConfig env os s = (Done None, s')"
  shows "isUsernameValid (cfgUser s') \<and> cfgNodeName s' \<noteq> [] \<and> cfgAppliance s' \<noteq> ''not-set'' \<and>
    prefix ''/'' (cfgEndpoint s') \<and> Atoi (cfgLogLevel s') \<noteq> None \<and>
    (cfgSecure s' \<longrightarrow> cfgCertLocation s' \<noteq> [] \<and>
       envReadFile env (cfgCertLocation s') (world s') = Some (cfgCertificate s'))"
proof -
  obtain s1 s2 s3 s4 s5 s6 where
    steps: "config_credentials env os s = (Done None, s1)" "config_appliance env os s1 = (Done None, s2)"
      "config_endpoint os s3 = (Done None, s4)" "config_secure os s4 = (Done None, s5)"
      "config_certificate env os s5 = (Done None, s6)"
    and s3: "s3 = s2\<lparr>cfgNodeName := env_value os ''NODE_NAME'' [] (world s2)\<rparr>" "cfgNodeName s3 \<noteq> []"
    and last: "s' = s6\<lparr>cfgHostIp := env_value os ''HOST_IP'' ''0.0.0.0'' (world s6),
       cfgPodIp := env_value os ''POD_IP'' ''0.0.0.0'' (world s6),
       cfgLogLevel := env_value os ''LOG_LEVEL'' DefaultLogLevel (world s6)\<rparr>" "Atoi (cfgLogLevel s') \<noteq> None"
    by (rule getConfig_steps [OF assms])
  obtain a where a: "a \<noteq> ''not-set''" "s2 = s1\<lparr>cfgAppliance := a\<rparr>"
    using config_appliance_Done [OF steps(2)] by (auto simp: Let_def)
  obtain e w where e: "s4 = s3\<lparr>cfgEndpoint := ''/'' @ e, world := w\<rparr>"
    using config_endpoint_Done [OF steps(3)] by blast
  have u: "isUsernameValid (cfgUser s1)" using config_credentials_Done [OF steps(1)] by blast
  obtain b where b: "s5 = s4\<lparr>cfgSecure := b\<rparr>" using config_secure_Done [OF steps(4)] by blast
  show ?thesis
    using u s3 a e b last config_certificate_Done [OF steps(5)] config_certificate_insecure [of s5 env os] steps(5)
    by (cases "cfgSecure s5") auto
qed

text \<open>The driver of the examples before its creation, and an environment that is insecure.\<close>

definition demo_process :: "(http_result list \<times> machine) zfssa_driver" where
  "demo_process = driver.extend (driver.truncate (demo_driver \<lparr>mPaths = [DefaultCredPath], mMounts = []\<rparr>)
       \<lparr>restTokens := None\<rparr>)
     \<lparr>drvName = [], drvVersion = [], cfgUser = [], cfgEndpoint = [], cfgHostIp = [], cfgNodeName = [],
      cfgPodIp = [], cfgSecure = False, cfgLogLevel = [], cfgCertificate = [], cfgCertLocation = []\<rparr>"

theorem getConfig_complete_witness:
  "\<exists>s'. getConfig pair_env demo_os demo_process = (Done None, s') \<and> cfgNodeName s' = ''node'' \<and>
     isUsernameValid (cfgUser s') \<and> prefix ''/'' (cfgEndpoint s')"
proof -
  let ?m = "getConfig pair_env demo_os demo_process"
  have r: "fst ?m = Done None" "cfgNodeName (snd ?m) = ''node''" by code_simp+
  obtain s' where m: "?m = (Done None, s')" using r(1) by (cases ?m) simp
  from getConfig_complete [OF m] m r(2) show ?thesis by auto
qed

text \<open>
  An appliance is not required: without \<open>ZFSSA_TARGET\<close> in the environment and without a
  configuration file, an accepted configuration has an empty name for the appliance.  Only
  the name \<open>not-set\<close> is refused.
\<close>

theorem missing_appliance_is_accepted:
  assumes "getConfig env os s = (Done None, s')" "\<forall>w. osLookupEnv os ''ZFSSA_TARGET'' w = None"
    "\<forall>w. envReadFile env DefaultConfigPath w = None"
  shows "cfgAppliance s' = []"
proof -
  obtain s1 s2 s3 s4 s5 s6 where
    steps: "config_appliance env os s1 = (Done None, s2)"
      "config_endpoint os s3 = (Done None, s4)" "config_secure os s4 = (Done None, s5)"
      "config_certificate env os s5 = (Done None, s6)"
    and s3: "s3 = s2\<lparr>cfgNodeName := env_value os ''NODE_NAME'' [] (world s2)\<rparr>"
    and last: "s' = s6\<lparr>cfgHostIp := env_value os ''HOST_IP'' ''0.0.0.0'' (world s6),
       cfgPodIp := env_value os ''POD_IP'' ''0.0.0.0'' (world s6),
       cfgLogLevel := env_value os ''LOG_LEVEL'' DefaultLogLevel (world s6)\<rparr>"
    by (rule getConfig_steps [OF assms(1)])
  have yaml: "GetValueFromYAML env os DefaultConfigPath ''ZFSSA_TARGET'' s1 =
      (Done (Inl (GPlain ''the file <%s> could not be read from: <%s>'')), s1)"
    using assms(3) by (simp add: GetValueFromYAML_def)
  have "cfgAppliance s2 = []"
    using config_appliance_Done [OF steps(1)] assms(2) yaml
    by (auto simp: Let_def env_value_def TrimSpace_def)
  moreover obtain e w where e: "s4 = s3\<lparr>cfgEndpoint := ''/'' @ e, world := w\<rparr>"
    using config_endpoint_Done [OF steps(2)] by blast
  moreover obtain b where b: "s5 = s4\<lparr>cfgSecure := b\<rparr>" using config_secure_Done [OF steps(3)] by blast
  ultimately show ?thesis
    using s3 last config_certificate_Done [OF steps(4)] config_certificate_insecure [of s5 env os] steps(4)
    by (cases "cfgSecure s5") auto
qed

theorem missing_appliance_is_accepted_witness:
  "\<exists>s'. getConfig (pair_env\<lparr>envReadFile := (\<lambda>p _. if p = DefaultConfigPath then None else Some ''file'')\<rparr>)
     demo_os demo_process = (Done None, s') \<and> cfgAppliance s' = []"
proof -
  let ?env = "pair_env\<lparr>envReadFile := (\<lambda>p _. if p = DefaultConfigPath then None else Some ''file'')\<rparr>"
  let ?m = "getConfig ?env demo_os demo_process"
  have "fst ?m = Done None" by code_simp
  then obtain s' where m: "?m = (Done None, s')" by (cases ?m) simp
  have e: "\<forall>w. osLookupEnv demo_os ''ZFSSA_TARGET'' w = None" by (simp add: demo_os_def)
  have f: "\<forall>w. envReadFile ?env DefaultConfigPath w = None" by simp
  from missing_appliance_is_accepted [OF m e f] m show ?thesis by auto
qed

section \<open>The start\<close>

text \<open>The part of the state that the configuration does not touch.\<close>

definition caches where
  "caches s = (restTokens s, restHeap s, vols s, snaps s, nextRef s, vMutex s, sMutex s)"

lemmas caches_rules = same_frame.keeps_rules [of caches]

lemma caches_osG: "keeps (same caches) (osG f)" and caches_askG: "keeps (same caches) (askG g)"
  by (auto simp: keeps_def same_def osG_def askG_def caches_def split: prod.split)

lemma caches_leaves:
  "keeps (same caches) (getEnvFallback os k d)" "keeps (same caches) (GetValueFromYAML env os p k)"
  "keeps (same caches) (GetUsernameFromCred env)"
  unfolding getEnvFallback_def GetValueFromYAML_def GetUsernameFromCred_def
  by (intro caches_rules caches_askG)+

lemma caches_thenG: "keeps (same caches) m \<Longrightarrow> keeps (same caches) k \<Longrightarrow> keeps (same caches) (thenG m k)"
  unfolding thenG_def by (intro caches_rules)

lemma caches_modG: "(\<And>s. caches (f s) = caches s) \<Longrightarrow> keeps (same caches) (modG f)"
  by (simp add: keeps_def same_def)

lemma caches_let: "(\<And>x. keeps (same caches) (f x)) \<Longrightarrow> keeps (same caches) (let x = y in f x)"
  by simp

lemmas config_rules = caches_rules caches_osG caches_askG caches_leaves caches_thenG caches_modG caches_let

lemma caches_config:
  "keeps (same caches) (config_credentials env os)" "keeps (same caches) (config_appliance env os)"
  "keeps (same caches) (config_endpoint os)" "keeps (same caches) (config_secure os)"
  "keeps (same caches) (config_certificate env os)"
  unfolding config_credentials_def config_appliance_def config_endpoint_def config_secure_def
    config_certificate_def
  by (intro config_rules; simp add: caches_def)+

lemma caches_getConfig: "keeps (same caches) (getConfig env os)"
  unfolding getConfig_def by (intro config_rules caches_config; simp add: caches_def)

lemma NewZFSSADriver_steps:
  assumes "NewZFSSADriver env os name version s = (Done None, s')"
  obtains s1 s2 where "getConfig env os ((zero_driver s)\<lparr>drvName := name, drvVersion := version\<rparr>) = (Done None, s1)"
    "InitREST env (cfgAppliance s1) (cfgCertLocation s1) (cfgSecure s1) (s1\<lparr>vHash := [], sHash := []\<rparr>) = (Done None, s2)"
    "s' = s2 \<or> s' = s2\<lparr>clientset := True\<rparr>" "clusterInit os (world s2) = NotInCluster \<Longrightarrow> s' = s2"
proof -
  obtain s1 s2 where s1: "getConfig env os ((zero_driver s)\<lparr>drvName := name, drvVersion := version\<rparr>) = (Done None, s1)"
      "bindG (getG (\<lambda>s. (cfgAppliance s, cfgCertLocation s, cfgSecure s)))
        (\<lambda>(appliance, cert, secure). InitREST env appliance cert secure) (s1\<lparr>vHash := [], sHash := []\<rparr>)
        = (Done None, s2)" "InitClusterInterface os s2 = (Done None, s')"
    using assms unfolding NewZFSSADriver_def seqG_modG by (auto simp: seqG_modG dest!: thenG_Done)
  moreover have "s' = s2 \<or> s' = s2\<lparr>clientset := True\<rparr>" "clusterInit os (world s2) = NotInCluster \<Longrightarrow> s' = s2"
    using s1(3) by (auto simp: InitClusterInterface_def seqG_modG split: cluster_init.splits)
  ultimately show thesis by (intro that [of s1 s2]) simp_all
qed

lemma InitREST_Done:
  assumes "InitREST env name cert secure s = (Done None, s')"
  shows "restTokens s' = (if secure then Some [] else restTokens s) \<and> restHeap s' = restHeap s \<and>
    rest.more s' = rest.more s"
  using assms
  by (auto simp: InitREST_def resetHttpTlsClient_def seqG_modG bindG_assoc split: if_splits option.splits)

lemma NewZFSSADriver_state:
  assumes "NewZFSSADriver env os name version s = (Done None, s')"
  shows "restTokens s' = (if cfgSecure s' then Some [] else restTokens s) \<and> restHeap s' = restHeap s \<and>
    vols s' = vols s \<and> snaps s' = snaps s \<and> nextRef s' = nextRef s \<and> vHash s' = [] \<and> sHash s' = [] \<and>
    vMutex s' = RWFree \<and> sMutex s' = RWFree"
proof -
  obtain s1 s2 where s1: "getConfig env os ((zero_driver s)\<lparr>drvName := name, drvVersion := version\<rparr>) = (Done None, s1)"
      "InitREST env (cfgAppliance s1) (cfgCertLocation s1) (cfgSecure s1) (s1\<lparr>vHash := [], sHash := []\<rparr>) = (Done None, s2)"
      "s' = s2 \<or> s' = s2\<lparr>clientset := True\<rparr>"
    using NewZFSSADriver_steps [OF assms] by metis
  have c: "caches s1 = caches ((zero_driver s)\<lparr>drvName := name, drvVersion := version\<rparr>)"
    using keepsD [OF caches_getConfig s1(1)] by (simp add: same_def)
  note r = InitREST_Done [OF s1(2)]
  have "driver.more s2 = driver.more s1 \<and> vols s2 = vols s1 \<and> snaps s2 = snaps s1 \<and> nextRef s2 = nextRef s1 \<and>
      vHash s2 = [] \<and> sHash s2 = [] \<and> vMutex s2 = vMutex s1 \<and> sMutex s2 = sMutex s1"
    using r by (cases s2; cases s1) simp
  moreover from this have "cfgSecure s2 = cfgSecure s1" by (cases s2; cases s1) simp
  ultimately have "restTokens s2 = (if cfgSecure s2 then Some [] else restTokens s) \<and> restHeap s2 = restHeap s \<and>
    vols s2 = vols s \<and> snaps s2 = snaps s \<and> nextRef s2 = nextRef s \<and> vHash s2 = [] \<and> sHash s2 = [] \<and>
    vMutex s2 = RWFree \<and> sMutex s2 = RWFree"
    using r c by (simp add: caches_def zero_driver_def)
  then show ?thesis using s1(3) by auto
qed



text \<open>
  C35: With \<open>ZFSSA_INSECURE\<close> the driver is created without an error and crashes before it
  serves anything: the refresh of the caches looks up a token in a list that was never made.
\<close>

theorem insecure_driver_crashes:
  assumes "NewZFSSADriver env os name version s = (Done None, s')" "restTokens s = None" "\<not> cfgSecure s'"
  shows "fst (Run env os requests s') = Panic ''assignment to entry in nil map''"
proof -
  have t: "restTokens s' = None" using NewZFSSADriver_state [OF assms(1)] assms(2,3) by simp
  obtain r where l: "getUserLogin env None s' = (Done r, s')"
    using getUserLogin_pure [of env None s'] by auto
  have p: "fst (LookUpToken user password s') = Panic ''assignment to entry in nil map''" for user password
    using t by (simp add: LookUpToken_def)
  have crash: "fst (bindG (LookUpToken user password) k s') = Panic ''assignment to entry in nil map''"
    for user password k
    using p [of user password] by (cases "LookUpToken user password s'") simp
  have "fst (updateFilesystemList env None s') = Panic ''assignment to entry in nil map''"
    using l crash by (cases r) (auto simp: updateFilesystemList_def Let_def split: prod.split)
  then show ?thesis
    by (cases "updateFilesystemList env None s'") (simp add: Run_def updateVolumeList_def)
qed

theorem insecure_driver_crashes_witness:
  "fst (Run pair_env demo_os [] (snd (NewZFSSADriver pair_env demo_os ''zfssa-csi-driver'' ''1.2.0'' demo_process)))
   = Panic ''assignment to entry in nil map''"
proof -
  let ?m = "NewZFSSADriver pair_env demo_os ''zfssa-csi-driver'' ''1.2.0'' demo_process"
  have "fst ?m = Done None" and s: "\<not> cfgSecure (snd ?m)" by code_simp+
  then have m: "?m = (Done None, snd ?m)" by (cases ?m) simp
  have "restTokens demo_process = None" by (simp add: demo_process_def demo_driver_def driver.defs)
  from insecure_driver_crashes [OF m this s] show ?thesis .
qed

text \<open>
  Outside a cluster the interface to it is initialised without an error and without a clientset,
  and a valid request to publish a volume then crashes the driver.
\<close>

theorem publish_outside_cluster_panics:
  assumes "clusterInit os (world s) = NotInCluster" "\<not> clientset s" "pubVolumeId req \<noteq> []"
    "pubNodeId req \<noteq> []" "pubVolumeCapability req \<noteq> None"
  shows "InitClusterInterface os s = (Done None, s) \<and>
    ControllerPublishVolume env c req s = (Panic ''nil pointer dereference'', s)"
  using assms by (simp add: InitClusterInterface_def ControllerPublishVolume_def GetNodeName_cases)

theorem publish_outside_cluster_panics_witness:
  "fst (ControllerPublishVolume pair_env (Some 1) \<lparr>pubVolumeId = ''/mnt/z/p/q/f'', pubNodeId = ''n'',
     pubVolumeCapability = Some \<lparr>capBlock = False, capAccessMode = None\<rparr>, pubSecrets = None\<rparr> demo_process)
   = Panic ''nil pointer dereference''"
proof -
  have "clusterInit demo_os (world demo_process) = NotInCluster" "\<not> clientset demo_process"
    by (simp_all add: demo_os_def demo_process_def demo_driver_def driver.defs)
  from publish_outside_cluster_panics [OF this] show ?thesis by simp
qed

end
