(* ===== verification/CacheProtocol.thy ===== *)
theory CacheProtocol
  imports Driver
begin

text \<open>
  The protocol of the volume cache under concurrent requests: \<open>lookupVolume\<close>, \<open>newVolume\<close> and
  \<open>releaseVolume\<close> (\<open>volumes.go\<close>) as a step relation of any number of goroutines.  A goroutine
  here is one use of one volume, from the lookup to the release.  The read-write lock of the
  table, the reference counted, which are changed atomically, and the bolts of the volumes are
  shared; a bolt is the lock that it refines (\<open>Bolt\<close>), and what a goroutine does with a volume
  it owns is a change of its state, any change.  The allocation of a new structure, which the
  code makes before it takes the lock, is part of the step that adds it.  The read-write lock of
  Go keeps new readers out while a writer waits; here they may enter, so that the runs of the
  model include those of the code.
\<close>

section \<open>The state\<close>

text \<open>Where a goroutine is; the name it asks for, then the structure it refers to.\<close>

datatype cpc =
    Idle
  | LkWant string   \<comment> \<open>\<open>lookupVolume\<close>: at \<open>RLock\<close>\<close>
  | LkGot string
  | LkMiss string
  | LkHeld nat
  | NewWant string  \<comment> \<open>\<open>newVolume\<close>: at \<open>Lock\<close>\<close>
  | NewGot string
  | NewHeld nat
  | NewAdded nat
  | NewHolds nat
  | NewLocked nat
  | WaitBolt nat    \<comment> \<open>at \<open>zvol.lock\<close>\<close>
  | Check nat
  | Using nat       \<comment> \<open>the caller has the volume\<close>
  | Rel nat         \<comment> \<open>\<open>releaseVolume\<close>: at \<open>RLock\<close>\<close>
  | RelR nat
  | RelSlow nat
  | RelWant nat     \<comment> \<open>at \<open>Lock\<close>\<close>
  | RelW nat
  | RelW2 nat
  | RelW3
  | RelFast nat
  | RelFast2

record cache_state =
  cTable :: "string \<Rightarrow> nat option"
  cName :: "nat \<Rightarrow> string"
  cRef :: "nat \<Rightarrow> int"
  cSt :: "nat \<Rightarrow> volumeState"
  cBolt :: "nat \<Rightarrow> nat option"
  cNext :: nat
  cWriter :: "nat option"
  cReaders :: "nat set"
  cPc :: "nat \<Rightarrow> cpc"

definition cache_start :: cache_state where
  "cache_start = \<lparr>cTable = Map.empty, cName = (\<lambda>_. []), cRef = (\<lambda>_. 0), cSt = (\<lambda>_. stateCreating),
     cBolt = (\<lambda>_. None), cNext = 0, cWriter = None, cReaders = {}, cPc = (\<lambda>_. Idle)\<rparr>"

section \<open>The steps\<close>

abbreviation moveto :: "cache_state \<Rightarrow> nat \<Rightarrow> cpc \<Rightarrow> cache_state" where
  "moveto c i p \<equiv> c\<lparr>cPc := (cPc c)(i := p)\<rparr>"

abbreviation addRef :: "nat \<Rightarrow> int \<Rightarrow> cache_state \<Rightarrow> cache_state" where
  "addRef r n c \<equiv> c\<lparr>cRef := (cRef c)(r := cRef c r + n)\<rparr>"

abbreviation setOwner :: "nat \<Rightarrow> nat option \<Rightarrow> cache_state \<Rightarrow> cache_state" where
  "setOwner r b c \<equiv> c\<lparr>cBolt := (cBolt c)(r := b)\<rparr>"

abbreviation reading :: "nat \<Rightarrow> cache_state \<Rightarrow> cache_state" where
  "reading i c \<equiv> c\<lparr>cReaders := insert i (cReaders c)\<rparr>"

abbreviation unreading :: "nat \<Rightarrow> cache_state \<Rightarrow> cache_state" where
  "unreading i c \<equiv> c\<lparr>cReaders := cReaders c - {i}\<rparr>"

text \<open>\<open>fresh_volume n c\<close>: a new structure with the name \<open>n\<close>, in the table.\<close>

definition fresh_volume :: "string \<Rightarrow> cache_state \<Rightarrow> cache_state" where
  "fresh_volume n c = c\<lparr>cTable := (cTable c)(n \<mapsto> cNext c), cName := (cName c)(cNext c := n),
     cRef := (cRef c)(cNext c := 0), cSt := (cSt c)(cNext c := stateCreating),
     cBolt := (cBolt c)(cNext c := None), cNext := Suc (cNext c)\<rparr>"

inductive cache_step :: "nat \<Rightarrow> cache_state \<Rightarrow> cache_state \<Rightarrow> bool" where
  call_lookup: "cPc c i = Idle \<Longrightarrow> cache_step i c (moveto c i (LkWant n))"
| call_new: "cPc c i = Idle \<Longrightarrow> cache_step i c (moveto c i (NewWant n))"
| lk_rlock: "cPc c i = LkWant n \<Longrightarrow> cWriter c = None \<Longrightarrow> cache_step i c (moveto (reading i c) i (LkGot n))"
| lk_hold: "cPc c i = LkGot n \<Longrightarrow> cTable c n = Some r \<Longrightarrow> cache_step i c (moveto (addRef r 1 c) i (LkHeld r))"
| lk_miss: "cPc c i = LkGot n \<Longrightarrow> cTable c n = None \<Longrightarrow> cache_step i c (moveto c i (LkMiss n))"
| lk_runlock: "cPc c i = LkHeld r \<Longrightarrow> cache_step i c (moveto (unreading i c) i (WaitBolt r))"
| lk_new: "cPc c i = LkMiss n \<Longrightarrow> cache_step i c (moveto (unreading i c) i (NewWant n))"
| new_lock: "cPc c i = NewWant n \<Longrightarrow> cWriter c = None \<Longrightarrow> cReaders c = {} \<Longrightarrow>
    cache_step i c (moveto (c\<lparr>cWriter := Some i\<rparr>) i (NewGot n))"
| new_hold: "cPc c i = NewGot n \<Longrightarrow> cTable c n = Some r \<Longrightarrow> cache_step i c (moveto (addRef r 1 c) i (NewHeld r))"
| new_unlock_held: "cPc c i = NewHeld r \<Longrightarrow> cache_step i c (moveto (c\<lparr>cWriter := None\<rparr>) i (WaitBolt r))"
| new_add: "cPc c i = NewGot n \<Longrightarrow> cTable c n = None \<Longrightarrow>
    cache_step i c (moveto (fresh_volume n c) i (NewAdded (cNext c)))"
| new_hold_new: "cPc c i = NewAdded r \<Longrightarrow> cache_step i c (moveto (addRef r 1 c) i (NewHolds r))"
| new_bolt: "cPc c i = NewHolds r \<Longrightarrow> cBolt c r = None \<Longrightarrow>
    cache_step i c (moveto (setOwner r (Some i) c) i (NewLocked r))"
| new_unlock: "cPc c i = NewLocked r \<Longrightarrow> cache_step i c (moveto (c\<lparr>cWriter := None\<rparr>) i (Using r))"
| bolt: "cPc c i = WaitBolt r \<Longrightarrow> cBolt c r = None \<Longrightarrow>
    cache_step i c (moveto (setOwner r (Some i) c) i (Check r))"
| check_created: "cPc c i = Check r \<Longrightarrow> cSt c r = stateCreated \<Longrightarrow> cache_step i c (moveto c i (Using r))"
| check_busy: "cPc c i = Check r \<Longrightarrow> cSt c r \<noteq> stateCreated \<Longrightarrow> cache_step i c (moveto c i (Rel r))"
| use_it: "cPc c i = Using r \<Longrightarrow> cache_step i c (c\<lparr>cSt := (cSt c)(r := st)\<rparr>)"
| finish: "cPc c i = Using r \<Longrightarrow> cache_step i c (moveto c i (Rel r))"
| rel_rlock: "cPc c i = Rel r \<Longrightarrow> cWriter c = None \<Longrightarrow> cache_step i c (moveto (reading i c) i (RelR r))"
| rel_last: "cPc c i = RelR r \<Longrightarrow> cRef c r = 1 \<Longrightarrow> cSt c r \<noteq> stateCreated \<Longrightarrow>
    cache_step i c (moveto (addRef r (- 1) c) i (RelSlow r))"
| rel_other: "cPc c i = RelR r \<Longrightarrow> cRef c r \<noteq> 1 \<or> cSt c r = stateCreated \<Longrightarrow>
    cache_step i c (moveto (addRef r (- 1) c) i (RelFast r))"
| rel_runlock: "cPc c i = RelSlow r \<Longrightarrow> cache_step i c (moveto (unreading i c) i (RelWant r))"
| rel_lock: "cPc c i = RelWant r \<Longrightarrow> cWriter c = None \<Longrightarrow> cReaders c = {} \<Longrightarrow>
    cache_step i c (moveto (c\<lparr>cWriter := Some i\<rparr>) i (RelW r))"
| rel_unbolt: "cPc c i = RelW r \<Longrightarrow> cache_step i c (moveto (setOwner r None c) i (RelW2 r))"
| rel_delete: "cPc c i = RelW2 r \<Longrightarrow> cRef c r = 0 \<Longrightarrow> cSt c r \<noteq> stateCreated \<Longrightarrow>
    cache_step i c (moveto (c\<lparr>cTable := (cTable c)(cName c r := None)\<rparr>) i RelW3)"
| rel_keep: "cPc c i = RelW2 r \<Longrightarrow> cRef c r \<noteq> 0 \<or> cSt c r = stateCreated \<Longrightarrow> cache_step i c (moveto c i RelW3)"
| rel_unlock: "cPc c i = RelW3 \<Longrightarrow> cache_step i c (moveto (c\<lparr>cWriter := None\<rparr>) i Idle)"
| rel_unbolt_fast: "cPc c i = RelFast r \<Longrightarrow> cache_step i c (moveto (setOwner r None c) i RelFast2)"
| rel_runlock_fast: "cPc c i = RelFast2 \<Longrightarrow> cache_step i c (moveto (unreading i c) i Idle)"

inductive cache_reachable :: "cache_state \<Rightarrow> bool" where
  cr_start: "cache_reachable cache_start"
| cr_step: "cache_reachable c \<Longrightarrow> cache_step i c c' \<Longrightarrow> cache_reachable c'"

section \<open>Classes of program points\<close>

fun has_read :: "cpc \<Rightarrow> bool" where
  "has_read (LkGot _) = True" | "has_read (LkMiss _) = True" | "has_read (LkHeld _) = True"
| "has_read (RelR _) = True" | "has_read (RelSlow _) = True" | "has_read (RelFast _) = True"
| "has_read RelFast2 = True" | "has_read _ = False"

fun has_write :: "cpc \<Rightarrow> bool" where
  "has_write (NewGot _) = True" | "has_write (NewHeld _) = True" | "has_write (NewAdded _) = True"
| "has_write (NewHolds _) = True" | "has_write (NewLocked _) = True" | "has_write (RelW _) = True"
| "has_write (RelW2 _) = True" | "has_write RelW3 = True" | "has_write _ = False"

text \<open>Counted in the reference count of a structure, between \<open>hold\<close> and \<open>release\<close>.\<close>

fun counted :: "nat \<Rightarrow> cpc \<Rightarrow> bool" where
  "counted r (LkHeld x) = (x = r)" | "counted r (NewHeld x) = (x = r)" | "counted r (NewHolds x) = (x = r)"
| "counted r (NewLocked x) = (x = r)" | "counted r (WaitBolt x) = (x = r)" | "counted r (Check x) = (x = r)"
| "counted r (Using x) = (x = r)" | "counted r (Rel x) = (x = r)" | "counted r (RelR x) = (x = r)"
| "counted r _ = False"

text \<open>Between the return of \<open>Lock\<close> and the call of \<open>Unlock\<close> of the bolt of a structure.\<close>

fun owns :: "nat \<Rightarrow> cpc \<Rightarrow> bool" where
  "owns r (NewLocked x) = (x = r)" | "owns r (Check x) = (x = r)" | "owns r (Using x) = (x = r)"
| "owns r (Rel x) = (x = r)" | "owns r (RelR x) = (x = r)" | "owns r (RelSlow x) = (x = r)"
| "owns r (RelWant x) = (x = r)" | "owns r (RelW x) = (x = r)" | "owns r (RelFast x) = (x = r)"
| "owns r _ = False"

text \<open>Refers to a structure that must be in the table.\<close>

fun refers :: "nat \<Rightarrow> cpc \<Rightarrow> bool" where
  "refers r (NewAdded x) = (x = r)" | "refers r (RelW2 x) = (x = r)"
| "refers r p = (counted r p \<or> owns r p)"

section \<open>The invariants\<close>

definition locks_inv :: "cache_state \<Rightarrow> bool" where
  "locks_inv c \<longleftrightarrow> (\<forall>i. i \<in> cReaders c \<longleftrightarrow> has_read (cPc c i)) \<and>
     (\<forall>i. cWriter c = Some i \<longleftrightarrow> has_write (cPc c i)) \<and> (cWriter c \<noteq> None \<longrightarrow> cReaders c = {})"

definition bolt_owner_inv :: "cache_state \<Rightarrow> bool" where
  "bolt_owner_inv c \<longleftrightarrow> (\<forall>i r. cBolt c r = Some i \<longleftrightarrow> owns r (cPc c i))"

definition active :: "(nat \<Rightarrow> cpc) \<Rightarrow> bool" where
  "active f \<longleftrightarrow> finite {i. f i \<noteq> Idle}"

definition usage :: "(nat \<Rightarrow> cpc) \<Rightarrow> nat \<Rightarrow> int" where
  "usage f r = int (card {i. counted r (f i)})"

definition count_inv :: "cache_state \<Rightarrow> bool" where
  "count_inv c \<longleftrightarrow> active (cPc c) \<and> (\<forall>r. cRef c r = usage (cPc c) r)"

definition table_inv :: "cache_state \<Rightarrow> bool" where
  "table_inv c \<longleftrightarrow> (\<forall>n r. cTable c n = Some r \<longrightarrow> r < cNext c \<and> cName c r = n) \<and>
     (\<forall>i r. refers r (cPc c i) \<longrightarrow> cTable c (cName c r) = Some r)"

text \<open>While a structure may be removed, every owner of it is counted.\<close>

definition removal_inv :: "cache_state \<Rightarrow> bool" where
  "removal_inv c \<longleftrightarrow> (\<forall>i j r. cPc c i = RelW2 r \<longrightarrow> owns r (cPc c j) \<longrightarrow> counted r (cPc c j))"

text \<open>What the invariants say of single goroutines.\<close>

lemma writer_unique: "locks_inv c \<Longrightarrow> has_write (cPc c i) \<Longrightarrow> has_write (cPc c j) \<Longrightarrow> i = j"
  unfolding locks_inv_def by (metis option.inject)

lemma no_reader: "locks_inv c \<Longrightarrow> has_write (cPc c i) \<Longrightarrow> \<not> has_read (cPc c j)"
  unfolding locks_inv_def by (metis empty_iff option.distinct(1))

lemma bolt_owner_unique: "bolt_owner_inv c \<Longrightarrow> owns r (cPc c i) \<Longrightarrow> owns r (cPc c j) \<Longrightarrow> i = j"
  unfolding bolt_owner_inv_def by (metis option.inject)

lemma refers_counted: "counted r p \<Longrightarrow> refers r p" and refers_owns: "owns r p \<Longrightarrow> refers r p"
  by (cases p; simp)+

lemma refers_old: "table_inv c \<Longrightarrow> refers r (cPc c i) \<Longrightarrow> r < cNext c"
  unfolding table_inv_def by blast

lemma fresh_unreferred: "table_inv c \<Longrightarrow> \<not> refers (cNext c) (cPc c i)"
  using refers_old by blast

lemma locks_step:
  assumes "cache_step i c c'" "locks_inv c"
  shows "locks_inv c'"
  using assms(1)
  by cases (use assms(2) writer_unique [OF assms(2), of i] in \<open>auto simp: locks_inv_def fresh_volume_def\<close>)

lemma owner_step:
  assumes "cache_step i c c'" "bolt_owner_inv c" "table_inv c"
  shows "bolt_owner_inv c'"
proof -
  have fresh: "\<not> owns (cNext c) (cPc c j)" for j
    using fresh_unreferred [OF assms(3)] refers_owns by blast
  have free: "cBolt c r = None \<Longrightarrow> \<not> owns r (cPc c j)" for r j
    using assms(2) unfolding bolt_owner_inv_def by (metis option.distinct(1))
  show ?thesis
    using assms(1)
    by cases (use assms(2) bolt_owner_unique [OF assms(2), of _ i] fresh free in
        \<open>auto simp: bolt_owner_inv_def fresh_volume_def\<close>)
qed

text \<open>One goroutine that moves changes the number of those that count by at most one.\<close>

lemma active_upd [simp]: "active (f(i := p)) \<longleftrightarrow> active f"
proof -
  have "{j. (f(i := p)) j \<noteq> Idle} - {i} = {j. f j \<noteq> Idle} - {i}" by auto
  then show ?thesis unfolding active_def by (metis finite_Diff2 finite.emptyI finite_insert)
qed

lemma usage_finite: "active f \<Longrightarrow> finite {j. counted r (f j)}"
  unfolding active_def by (erule rev_finite_subset) auto

lemma usage_upd [simp]:
  assumes "active f"
  shows "usage (f(i := p)) r = usage f r + of_bool (counted r p) - of_bool (counted r (f i))"
proof -
  let ?A = "{j. counted r (f j)}"
  have "{j. counted r ((f(i := p)) j)} = (if counted r p then insert i (?A - {i}) else ?A - {i})" by auto
  moreover have "int (card (?A - {i})) = int (card ?A) - of_bool (counted r (f i))"
    using usage_finite [OF assms]
    by (auto simp: card_Diff_singleton_if int_ops card_gt_0_iff Suc_le_eq of_nat_diff)
  ultimately show ?thesis
    using usage_finite [OF assms] by (simp add: usage_def insert_absorb card_insert_if)
qed

lemma usage_0: "active f \<Longrightarrow> usage f r = 0 \<longleftrightarrow> (\<forall>j. \<not> counted r (f j))"
  using usage_finite [of f r] by (auto simp: usage_def)

lemma count_step:
  assumes "cache_step i c c'" "count_inv c" "table_inv c"
  shows "count_inv c'"
proof -
  have "\<not> counted (cNext c) (cPc c j)" for j
    using fresh_unreferred [OF assms(3)] refers_counted by blast
  then have fresh: "usage (cPc c) (cNext c) = 0"
    using assms(2) by (simp add: usage_0 count_inv_def)
  show ?thesis
    using assms(1)
    by cases (use assms(2) fresh in \<open>auto simp: count_inv_def fresh_volume_def\<close>)
qed

lemma removal_step:
  assumes "cache_step i c c'" "removal_inv c" "locks_inv c" "bolt_owner_inv c"
  shows "removal_inv c'"
proof -
  have inv: "\<forall>k j r. cPc c k = RelW2 r \<longrightarrow> owns r (cPc c j) \<longrightarrow> counted r (cPc c j)"
    using assms(2) by (simp add: removal_inv_def)
  have read: "\<forall>k r. cPc c k = RelW2 r \<longrightarrow> \<not> has_read (cPc c i)"
    using no_reader [OF assms(3)] by (metis has_write.simps(7))
  have mine: "\<forall>k r. cPc c k = RelW2 r \<longrightarrow> owns r (cPc c i) \<longrightarrow> counted r (cPc c i)"
    using inv by blast
  have owner: "\<forall>j r. owns r (cPc c i) \<longrightarrow> owns r (cPc c j) \<longrightarrow> j = i"
    using bolt_owner_unique [OF assms(4)] by blast
  show ?thesis
    using assms(1)
    by cases (use inv read mine owner in \<open>auto simp: removal_inv_def fresh_volume_def\<close>)
qed

text \<open>Nobody but the goroutine that removes a structure refers to it.\<close>

lemma removed_unreferred:
  assumes "locks_inv c" "count_inv c" "removal_inv c" "cPc c i = RelW2 r" "cRef c r = 0" "refers r (cPc c j)"
  shows "j = i"
proof -
  have "\<not> counted r (cPc c j)" using assms(2,5) by (simp add: count_inv_def usage_0)
  moreover from this have "\<not> owns r (cPc c j)" using assms(3,4) unfolding removal_inv_def by blast
  ultimately have "has_write (cPc c j)" using assms(6) by (cases "cPc c j") auto
  then show ?thesis using writer_unique [OF assms(1)] assms(4) by (metis has_write.simps(7))
qed

text \<open>A goroutine may come to refer to what is in the table.\<close>

lemma table_invI:
  assumes "\<And>n r. cTable c n = Some r \<Longrightarrow> r < cNext c" "\<And>n r. cTable c n = Some r \<Longrightarrow> cName c r = n"
    "\<And>i r. refers r (cPc c i) \<Longrightarrow> cTable c (cName c r) = Some r"
  shows "table_inv c"
  unfolding table_inv_def by (intro conjI allI impI) (erule assms)+

lemma table_old: "table_inv c \<Longrightarrow> cTable c n = Some r \<Longrightarrow> r < cNext c"
  and table_name: "table_inv c \<Longrightarrow> cTable c n = Some r \<Longrightarrow> cName c r = n"
  and table_refers: "table_inv c \<Longrightarrow> refers r (cPc c i) \<Longrightarrow> cTable c (cName c r) = Some r"
  unfolding table_inv_def by blast+

lemma table_self: "table_inv c \<Longrightarrow> cTable c n = Some r \<Longrightarrow> cTable c (cName c r) = Some r"
  by (frule (1) table_name) (erule ssubst)

lemma table_move:
  assumes "table_inv c" "cTable c' = cTable c" "cName c' = cName c" "cNext c' = cNext c"
    "\<forall>j. j \<noteq> i \<longrightarrow> cPc c' j = cPc c j"
    "\<And>r. refers r (cPc c' i) \<Longrightarrow> cTable c (cName c r) = Some r"
  shows "table_inv c'"
proof (rule table_invI, unfold assms(2-4))
  show "cTable c n = Some r \<Longrightarrow> r < cNext c" for n r by (rule table_old [OF assms(1)])
  show "cTable c n = Some r \<Longrightarrow> cName c r = n" for n r by (rule table_name [OF assms(1)])
  show "cTable c (cName c r) = Some r" if "refers r (cPc c' j)" for j r
  proof (cases "j = i")
    case True
    with that assms(6) show ?thesis by blast
  next
    case False
    with that assms(5) have "refers r (cPc c j)" by simp
    then show ?thesis by (rule table_refers [OF assms(1)])
  qed
qed

text \<open>The step that adds a structure, and the one that removes it.\<close>

lemma table_add:
  assumes "table_inv c" "cTable c n = None"
  shows "table_inv (moveto (fresh_volume n c) i (NewAdded (cNext c)))"
proof (rule table_invI, unfold fresh_volume_def, simp_all del: fun_upd_apply)
  show "r < Suc (cNext c)" if "((cTable c)(n \<mapsto> cNext c)) m = Some r" for m r
    using that table_old [OF assms(1), of m r] by (cases "m = n") auto
  show "((cName c)(cNext c := n)) r = m" if "((cTable c)(n \<mapsto> cNext c)) m = Some r" for m r
  proof (cases "m = n")
    case True
    with that show ?thesis by simp
  next
    case False
    with that have "cTable c m = Some r" by simp
    then have "r < cNext c" "cName c r = m" by (rule table_old [OF assms(1)], rule table_name [OF assms(1)])
    then show ?thesis by simp
  qed
  show "((cTable c)(n \<mapsto> cNext c)) (((cName c)(cNext c := n)) r) = Some r"
    if "refers r (((cPc c)(i := NewAdded (cNext c))) j)" for j r
  proof (cases "r = cNext c")
    case False
    with that have "refers r (cPc c j)" by (cases "j = i") auto
    then have "cTable c (cName c r) = Some r" by (rule table_refers [OF assms(1)])
    with False assms(2) show ?thesis by (cases "cName c r = n") auto
  qed simp
qed

lemma table_remove:
  assumes "table_inv c" "cPc c i = RelW2 r" "\<And>j. refers r (cPc c j) \<Longrightarrow> j = i"
  shows "table_inv (moveto (c\<lparr>cTable := (cTable c)(cName c r := None)\<rparr>) i RelW3)"
proof (rule table_invI, simp_all del: fun_upd_apply)
  fix m x
  assume "((cTable c)(cName c r := None)) m = Some x"
  then have "cTable c m = Some x" by (cases "m = cName c r") auto
  then show "x < cNext c" "cName c x = m" by (rule table_old [OF assms(1)], rule table_name [OF assms(1)])
next
  fix j x
  assume "refers x (((cPc c)(i := RelW3)) j)"
  then have other: "j \<noteq> i" and refs: "refers x (cPc c j)" by (cases "j = i"; simp)+
  have "cTable c (cName c r) = Some r" using assms(2) by (intro table_refers [OF assms(1), of _ i]) simp
  moreover have "cTable c (cName c x) = Some x" using refs by (rule table_refers [OF assms(1)])
  moreover have "x \<noteq> r" using assms(3) refs other by blast
  ultimately have "cName c x \<noteq> cName c r" by (metis option.inject)
  then show "((cTable c)(cName c r := None)) (cName c x) = Some x"
    using \<open>cTable c (cName c x) = Some x\<close> by simp
qed

lemma table_step:
  assumes "cache_step i c c'" "table_inv c" "locks_inv c" "count_inv c" "removal_inv c"
  shows "table_inv c'"
  using assms(1)
proof cases
  case (rel_delete r)
  have "j = i" if "refers r (cPc c j)" for j
    by (rule removed_unreferred [OF assms(3-5) rel_delete(2,3) that])
  then show ?thesis unfolding rel_delete(1) by (rule table_remove [OF assms(2) rel_delete(2)])
next
  case (new_add n)
  show ?thesis unfolding new_add(1) by (rule table_add [OF assms(2) new_add(3)])
next
  case (lk_hold n r)
  show ?thesis unfolding lk_hold(1)
    by (rule table_move [OF assms(2), of _ i]) (auto intro: table_self [OF assms(2) lk_hold(3)])
next
  case (new_hold n r)
  show ?thesis unfolding new_hold(1)
    by (rule table_move [OF assms(2), of _ i]) (auto intro: table_self [OF assms(2) new_hold(3)])
qed (rule table_move [OF assms(2), of _ i]; (simp; fail)?; use table_refers [OF assms(2), of _ i] in simp)+

end
