(* ===== verification/ProtocolProperties.thy ===== *)
theory ProtocolProperties
  imports CacheProtocol
begin

text \<open>
  What the protocol of the volume cache gives: the invariants of \<open>CacheProtocol\<close> hold in every
  reachable state; a structure is used by one goroutine at a time and there is one structure for a
  name; no goroutine is stuck; and when the requests have ended, the cache is clean.
\<close>

section \<open>Two more invariants\<close>

text \<open>Nobody else refers to a structure before it is locked by its creator.\<close>

fun brings :: "nat \<Rightarrow> cpc \<Rightarrow> bool" where
  "brings r (NewAdded x) = (x = r)" | "brings r (NewHolds x) = (x = r)" | "brings r _ = False"

definition fresh_inv :: "cache_state \<Rightarrow> bool" where
  "fresh_inv c \<longleftrightarrow> (\<forall>i j r. brings r (cPc c i) \<longrightarrow> refers r (cPc c j) \<longrightarrow> j = i)"

text \<open>Who keeps a structure that is not created in the table: a user, or who will remove it.\<close>

fun keeps_entry :: "nat \<Rightarrow> cpc \<Rightarrow> bool" where
  "keeps_entry r (NewAdded x) = (x = r)" | "keeps_entry r (RelSlow x) = (x = r)"
| "keeps_entry r (RelWant x) = (x = r)" | "keeps_entry r (RelW x) = (x = r)"
| "keeps_entry r (RelW2 x) = (x = r)" | "keeps_entry r p = counted r p"

definition garbage_inv :: "cache_state \<Rightarrow> bool" where
  "garbage_inv c \<longleftrightarrow> (\<forall>n r. cTable c n = Some r \<longrightarrow> cSt c r \<noteq> stateCreated \<longrightarrow> (\<exists>j. keeps_entry r (cPc c j)))"

lemma brings_write: "brings r p \<Longrightarrow> has_write p"
  and brings_refers: "brings r p \<Longrightarrow> refers r p"
  and counted_keeps: "counted r p \<Longrightarrow> keeps_entry r p"
  by (cases p; simp)+

lemma fresh_step:
  assumes "cache_step i c c'" "fresh_inv c" "table_inv c" "locks_inv c"
  shows "fresh_inv c'"
proof -
  have inv: "\<forall>k j r. brings r (cPc c k) \<longrightarrow> refers r (cPc c j) \<longrightarrow> j = k"
    using assms(2) by (simp add: fresh_inv_def)
  have mine: "\<forall>k r. brings r (cPc c k) \<longrightarrow> refers r (cPc c i) \<longrightarrow> k = i"
    using inv by blast
  have read: "\<forall>k r. brings r (cPc c k) \<longrightarrow> \<not> has_read (cPc c i)"
    using no_reader [OF assms(4)] brings_write by blast
  have writer: "\<forall>k r. brings r (cPc c k) \<longrightarrow> has_write (cPc c i) \<longrightarrow> k = i"
    using writer_unique [OF assms(4)] brings_write by blast
  have fresh: "\<forall>j. \<not> refers (cNext c) (cPc c j)"
    using fresh_unreferred [OF assms(3)] by blast
  show ?thesis
    using assms(1)
    by cases (use inv mine read writer fresh in \<open>auto simp: fresh_inv_def fresh_volume_def\<close>)
qed

lemma garbage_invI:
  assumes "garbage_inv c" "\<And>n r. cTable c' n = Some r \<Longrightarrow> cTable c n = Some r"
    "\<And>r. cSt c' r \<noteq> stateCreated \<Longrightarrow> cSt c r \<noteq> stateCreated \<or> (\<exists>j. keeps_entry r (cPc c' j))"
    "\<And>r j. keeps_entry r (cPc c j) \<Longrightarrow> \<exists>k. keeps_entry r (cPc c' k)"
  shows "garbage_inv c'"
  using assms unfolding garbage_inv_def by meson

lemma garbage_move:
  assumes "garbage_inv c" "cTable c' = cTable c" "cSt c' = cSt c"
    "\<forall>j. j \<noteq> i \<longrightarrow> cPc c' j = cPc c j"
    "\<And>r. keeps_entry r (cPc c i) \<Longrightarrow> keeps_entry r (cPc c' i)"
  shows "garbage_inv c'"
proof (rule garbage_invI [OF assms(1)], unfold assms(2,3))
  show "\<exists>k. keeps_entry r (cPc c' k)" if "keeps_entry r (cPc c j)" for r j
    using that assms(4,5) by metis
qed simp_all

text \<open>If the count is not that of one goroutine alone, another one is counted.\<close>

lemma other_counted:
  assumes "count_inv c" "cRef c r \<noteq> of_bool (counted r (cPc c i))"
  shows "\<exists>j. j \<noteq> i \<and> counted r (cPc c j)"
proof (rule ccontr)
  assume "\<nexists>j. j \<noteq> i \<and> counted r (cPc c j)"
  then have "{j. counted r (cPc c j)} = (if counted r (cPc c i) then {i} else {})" by auto
  then have "usage (cPc c) r = of_bool (counted r (cPc c i))" by (simp add: usage_def)
  with assms show False by (simp add: count_inv_def)
qed

lemma garbage_release:
  assumes "garbage_inv c" "count_inv c" "cTable c' = cTable c" "cSt c' = cSt c"
    "cPc c' = (cPc c)(i := p)" "\<And>x. keeps_entry x (cPc c i) \<Longrightarrow> x = r"
    "cRef c r \<noteq> of_bool (counted r (cPc c i)) \<or> cSt c r = stateCreated"
  shows "garbage_inv c'"
  unfolding garbage_inv_def assms(3-5)
proof (intro allI impI)
  fix n x
  assume x: "cTable c n = Some x" "cSt c x \<noteq> stateCreated"
  have "\<exists>j. j \<noteq> i \<and> keeps_entry x (cPc c j)"
  proof (cases "x = r")
    case True
    with x(2) assms(7) have "cRef c x \<noteq> of_bool (counted x (cPc c i))" by blast
    from other_counted [OF assms(2) this] show ?thesis using counted_keeps by blast
  next
    case False
    with assms(1,6) x show ?thesis unfolding garbage_inv_def by metis
  qed
  then show "\<exists>j. keeps_entry x (((cPc c)(i := p)) j)" by fastforce
qed

lemma garbage_step:
  assumes "cache_step i c c'" "garbage_inv c" "count_inv c" "table_inv c"
  shows "garbage_inv c'"
  using assms(1)
proof cases
  case (rel_other r)
  show ?thesis unfolding rel_other(1)
    by (rule garbage_release [OF assms(2,3), of _ i _ r]) (use rel_other in auto)
next
  case (rel_keep r)
  show ?thesis unfolding rel_keep(1)
    by (rule garbage_release [OF assms(2,3), of _ i _ r]) (use rel_keep in auto)
next
  case (use_it r st)
  have "\<exists>j. keeps_entry r (cPc c j)" using use_it(2) by (metis counted.simps(7) counted_keeps)
  then show ?thesis unfolding use_it(1)
    by (intro garbage_invI [OF assms(2)]) (auto split: if_splits)
next
  case (rel_delete r)
  show ?thesis
    unfolding garbage_inv_def
  proof (intro allI impI)
    fix n x
    assume "cTable c' n = Some x" "cSt c' x \<noteq> stateCreated"
    then have x: "cTable c n = Some x" "n \<noteq> cName c r" "cSt c x \<noteq> stateCreated"
      unfolding rel_delete(1) by (auto split: if_splits)
    have "x \<noteq> r" using table_name [OF assms(4) x(1)] x(2) by blast
    moreover from x assms(2) obtain j where "keeps_entry x (cPc c j)" unfolding garbage_inv_def by blast
    ultimately have "keeps_entry x (cPc c' j)" unfolding rel_delete(1) using rel_delete(2) by auto
    then show "\<exists>j. keeps_entry x (cPc c' j)" by blast
  qed
next
  case (new_add n)
  show ?thesis
    unfolding garbage_inv_def
  proof (intro allI impI)
    fix m x
    assume x: "cTable c' m = Some x" "cSt c' x \<noteq> stateCreated"
    show "\<exists>j. keeps_entry x (cPc c' j)"
    proof (cases "x = cNext c")
      case True
      then have "keeps_entry x (cPc c' i)" unfolding new_add(1) by (simp add: fresh_volume_def)
      then show ?thesis by blast
    next
      case False
      with x have "cTable c m = Some x" "cSt c x \<noteq> stateCreated"
        unfolding new_add(1) by (auto simp: fresh_volume_def split: if_splits)
      with assms(2) obtain j where "keeps_entry x (cPc c j)" unfolding garbage_inv_def by blast
      then have "keeps_entry x (cPc c' j)"
        unfolding new_add(1) using new_add(2) by (auto simp: fresh_volume_def)
      then show ?thesis by blast
    qed
  qed
qed (rule garbage_move [OF assms(2), of _ i]; simp)+

section \<open>Every reachable state\<close>

definition protocol_inv :: "cache_state \<Rightarrow> bool" where
  "protocol_inv c \<longleftrightarrow> locks_inv c \<and> bolt_owner_inv c \<and> count_inv c \<and> table_inv c \<and> removal_inv c \<and>
     fresh_inv c \<and> garbage_inv c"

lemma protocol_start: "protocol_inv cache_start"
  by (simp add: protocol_inv_def cache_start_def locks_inv_def bolt_owner_inv_def count_inv_def active_def
      usage_def table_inv_def removal_inv_def fresh_inv_def garbage_inv_def)

lemma protocol_step: "cache_step i c c' \<Longrightarrow> protocol_inv c \<Longrightarrow> protocol_inv c'"
  unfolding protocol_inv_def
  by (blast intro: locks_step owner_step count_step table_step removal_step fresh_step garbage_step)

lemma protocol_reachable: "cache_reachable c \<Longrightarrow> protocol_inv c"
  by (induction rule: cache_reachable.induct) (rule protocol_start, erule (1) protocol_step)

lemma reachable_inv:
  assumes "cache_reachable c"
  shows "locks_inv c" "bolt_owner_inv c" "count_inv c" "table_inv c" "removal_inv c" "fresh_inv c" "garbage_inv c"
  using protocol_reachable [OF assms] unfolding protocol_inv_def by blast+

section \<open>Progress\<close>

text \<open>How far a goroutine is from the end of its request.\<close>

fun rank :: "cpc \<Rightarrow> nat" where
  "rank Idle = 0" | "rank RelFast2 = 1" | "rank RelW3 = 1" | "rank (RelFast _) = 2" | "rank (RelW2 _) = 2"
| "rank (RelW _) = 3" | "rank (RelWant _) = 4" | "rank (RelSlow _) = 5" | "rank (RelR _) = 6"
| "rank (Rel _) = 7" | "rank (Using _) = 8" | "rank (Check _) = 9" | "rank (WaitBolt _) = 10"
| "rank (NewLocked _) = 11" | "rank (NewHolds _) = 12" | "rank (NewAdded _) = 13" | "rank (NewHeld _) = 13"
| "rank (NewGot _) = 14" | "rank (NewWant _) = 15" | "rank (LkHeld _) = 16" | "rank (LkMiss _) = 16"
| "rank (LkGot _) = 17" | "rank (LkWant _) = 18"

definition moves :: "nat \<Rightarrow> cache_state \<Rightarrow> bool" where
  "moves i c \<longleftrightarrow> (\<exists>c'. cache_step i c c' \<and> rank (cPc c' i) < rank (cPc c i))"

lemma moveI: "cache_step i c (moveto c1 i p) \<Longrightarrow> rank p < rank (cPc c i) \<Longrightarrow> moves i c"
  unfolding moves_def by (rule exI [of _ "moveto c1 i p"]) simp

lemma step_others: "cache_step i c c' \<Longrightarrow> j \<noteq> i \<Longrightarrow> cPc c' j = cPc c j"
  by (erule cache_step.cases) (simp_all add: fresh_volume_def)

text \<open>Who holds the lock of the table moves, and so does who owns a bolt, if the lock is free.\<close>

lemma reader_moves:
  assumes "has_read (cPc c i)"
  shows "moves i c"
proof (cases "cPc c i")
  case (LkGot n)
  show ?thesis
    by (cases "cTable c n") (simp_all add: LkGot moveI [OF lk_miss [OF LkGot]] moveI [OF lk_hold [OF LkGot]])
next
  case (RelR r)
  then show ?thesis
    by (cases "cRef c r = 1 \<and> cSt c r \<noteq> stateCreated")
      (auto intro: moveI [OF rel_last [OF RelR]] moveI [OF rel_other [OF RelR]])
qed (use assms in \<open>auto intro: moveI [OF lk_new] moveI [OF lk_runlock] moveI [OF rel_runlock]
    moveI [OF rel_unbolt_fast] moveI [OF rel_runlock_fast]\<close>)

lemma new_bolt_free:
  assumes "bolt_owner_inv c" "fresh_inv c" "cPc c i = NewHolds r"
  shows "cBolt c r = None"
proof (rule ccontr)
  assume "cBolt c r \<noteq> None"
  then obtain j where j: "owns r (cPc c j)" using assms(1) unfolding bolt_owner_inv_def by (metis option.exhaust)
  moreover have "brings r (cPc c i)" using assms(3) by simp
  ultimately have "j = i" using assms(2) refers_owns unfolding fresh_inv_def by blast
  with j assms(3) show False by simp
qed

lemma writer_moves:
  assumes "has_write (cPc c i)" "bolt_owner_inv c" "fresh_inv c"
  shows "moves i c"
proof (cases "cPc c i")
  case (NewGot n)
  show ?thesis
    by (cases "cTable c n") (simp_all add: NewGot moveI [OF new_add [OF NewGot]] moveI [OF new_hold [OF NewGot]])
next
  case (NewHolds r)
  show ?thesis
    by (rule moveI [OF new_bolt [OF NewHolds new_bolt_free [OF assms(2,3) NewHolds]]]) (simp add: NewHolds)
next
  case (RelW2 r)
  then show ?thesis
    by (cases "cRef c r = 0 \<and> cSt c r \<noteq> stateCreated")
      (auto intro: moveI [OF rel_delete [OF RelW2]] moveI [OF rel_keep [OF RelW2]])
qed (use assms in \<open>auto intro: moveI [OF new_unlock_held] moveI [OF new_hold_new] moveI [OF new_unlock]
    moveI [OF rel_unbolt] moveI [OF rel_unlock]\<close>)

lemma free_moves:
  assumes "cWriter c = None" "cReaders c = {}" "cPc c i \<noteq> Idle" "\<not> has_read (cPc c i)"
    "\<not> has_write (cPc c i)" "\<And>r. cPc c i = WaitBolt r \<Longrightarrow> cBolt c r = None"
  shows "moves i c"
proof (cases "cPc c i")
  case (Check r)
  then show ?thesis
    by (cases "cSt c r = stateCreated")
      (auto intro: moveI [OF check_created [OF Check]] moveI [OF check_busy [OF Check]])
qed (use assms in \<open>auto intro: moveI [OF lk_rlock] moveI [OF new_lock] moveI [OF bolt] moveI [OF finish]
    moveI [OF rel_rlock] moveI [OF rel_lock]\<close>)

lemma progress:
  assumes "protocol_inv c" "cPc c i \<noteq> Idle"
  shows "\<exists>j. moves j c"
proof -
  have inv: "locks_inv c" "bolt_owner_inv c" "fresh_inv c" using assms(1) by (simp_all add: protocol_inv_def)
  show ?thesis
  proof (cases "\<exists>j. has_write (cPc c j) \<or> has_read (cPc c j)")
    case True
    then show ?thesis using reader_moves writer_moves inv(2,3) by blast
  next
    case False
    then have free: "cWriter c = None" "cReaders c = {}"
      using inv(1) unfolding locks_inv_def by (metis option.exhaust, blast)
    show ?thesis
    proof (cases "\<exists>r j. cPc c i = WaitBolt r \<and> cBolt c r = Some j")
      case True
      then obtain r j where "owns r (cPc c j)" using inv(2) unfolding bolt_owner_inv_def by blast
      then have "cPc c j \<noteq> Idle" "\<And>x. cPc c j \<noteq> WaitBolt x" by auto
      then have "moves j c" using False by (intro free_moves [OF free]) blast+
      then show ?thesis ..
    next
      case nowait: False
      have "moves i c"
        using False assms(2) nowait by (intro free_moves [OF free]) (blast, blast, blast, meson option.exhaust)
      then show ?thesis ..
    qed
  qed
qed

text \<open>A goroutine with a request goes on to its next program point.\<close>

definition advances :: "cache_state \<Rightarrow> cache_state \<Rightarrow> bool" where
  "advances c c' \<longleftrightarrow> (\<exists>i. cPc c i \<noteq> Idle \<and> cPc c' i \<noteq> cPc c i \<and> cache_step i c c')"

lemma advance_rank: "cache_step i c c' \<Longrightarrow> cPc c i \<noteq> Idle \<Longrightarrow> cPc c' i \<noteq> cPc c i \<Longrightarrow> rank (cPc c' i) < rank (cPc c i)"
  by (erule cache_step.cases) (auto simp: fresh_volume_def)

lemma moves_advances: "moves i c \<Longrightarrow> \<exists>c'. advances c c'"
  unfolding moves_def advances_def by (metis less_irrefl not_less0 rank.simps(1))

lemma no_endless_run:
  assumes "finite A" "\<And>i. i \<notin> A \<Longrightarrow> cPc (f 0) i = Idle" "\<And>k. advances (f k) (f (Suc k))"
  shows False
proof -
  have step: "\<exists>i. cPc (f k) i \<noteq> Idle \<and> rank (cPc (f (Suc k)) i) < rank (cPc (f k) i) \<and>
      (\<forall>j. j \<noteq> i \<longrightarrow> cPc (f (Suc k)) j = cPc (f k) j)" for k
    using assms(3) [of k] advance_rank step_others unfolding advances_def by metis
  have idle: "\<forall>i. i \<notin> A \<longrightarrow> cPc (f k) i = Idle" for k
    by (induction k) (use assms(2) in blast, use step in metis)
  have "\<exists>i\<in>A. rank (cPc (f (Suc k)) i) < rank (cPc (f k) i) \<and>
      (\<forall>j. j \<noteq> i \<longrightarrow> rank (cPc (f (Suc k)) j) = rank (cPc (f k) j))" for k
    using step [of k] idle [of k] by metis
  from no_endless_sum [OF assms(1), of "\<lambda>k i. rank (cPc (f k) i)", OF this] show False .
qed

section \<open>The properties\<close>

text \<open>Two requests for the volume \<open>v\<close>: the first uses it, the second waits for its bolt.\<close>

lemma two_requests:
  "\<exists>c. cache_reachable c \<and> cPc c 1 = Using 0 \<and> cPc c 2 = WaitBolt 0 \<and> cName c 0 = ''v'' \<and> cRef c 0 = 2"
proof -
  note r = cr_start [THEN cr_step, OF call_new [of _ 1 "''v''"], simplified cache_start_def, simplified]
  note r = r [THEN cr_step, OF new_lock [of _ 1 "''v''"], simplified]
  note r = r [THEN cr_step, OF new_add [of _ 1 "''v''"], simplified fresh_volume_def, simplified]
  note r = r [THEN cr_step, OF new_hold_new [of _ 1 0], simplified]
  note r = r [THEN cr_step, OF new_bolt [of _ 1 0], simplified]
  note r = r [THEN cr_step, OF new_unlock [of _ 1 0], simplified]
  note r = r [THEN cr_step, OF call_lookup [of _ 2 "''v''"], simplified]
  note r = r [THEN cr_step, OF lk_rlock [of _ 2 "''v''"], simplified]
  note r = r [THEN cr_step, OF lk_hold [of _ 2 "''v''" 0], simplified]
  note r = r [THEN cr_step, OF lk_runlock [of _ 2 0], simplified]
  show ?thesis by (rule exI, rule conjI, rule r) simp
qed

text \<open>
  However the requests interleave, two goroutines that have got a volume with the same name
  from \<open>lookupVolume\<close> or \<open>newVolume\<close> are the same goroutine with the same structure: the one that
  the table has under that name, locked by that goroutine.
\<close>

theorem volume_used_exclusively:
  assumes "cache_reachable c" "cPc c i = Using r" "cPc c j = Using r'" "cName c r = cName c r'"
  shows "i = j \<and> r = r' \<and> cTable c (cName c r) = Some r \<and> cBolt c r = Some i"
proof -
  note inv = reachable_inv [OF assms(1)]
  have own: "owns r (cPc c i)" "owns r' (cPc c j)" using assms(2,3) by simp_all
  have entry: "cTable c (cName c r) = Some r"
    by (rule table_refers [OF inv(4)], rule refers_owns, rule own(1))
  have "cTable c (cName c r') = Some r'"
    by (rule table_refers [OF inv(4)], rule refers_owns, rule own(2))
  from trans [OF sym [OF entry [unfolded assms(4)]] this] have same: "r = r'" by (rule option.inject [THEN iffD1])
  have "i = j" by (rule bolt_owner_unique [OF inv(2) own(1)], unfold same, rule own(2))
  moreover note entry same
  moreover have "cBolt c r = Some i" using inv(2) own(1) unfolding bolt_owner_inv_def by blast
  ultimately show ?thesis by blast
qed

lemma volume_used_exclusively_witness:
  "\<exists>c. cache_reachable c \<and> cPc c 1 = Using 0 \<and> cPc c 2 = WaitBolt 0 \<and> cTable c ''v'' = Some 0 \<and> cBolt c 0 = Some 1"
proof -
  obtain c where c: "cache_reachable c" "cPc c 1 = Using 0" "cPc c 2 = WaitBolt 0" "cName c 0 = ''v''"
    using two_requests by blast
  have "cTable c (cName c 0) = Some 0" "cBolt c 0 = Some 1"
    using volume_used_exclusively [OF c(1,2,2) refl] by blast+
  then show ?thesis using c by (intro exI [of _ c] conjI) (assumption, assumption, assumption, simp, assumption)
qed

text \<open>
  C9: No structure is removed from the cache, or replaced, while a request refers to it: a
  goroutine between \<open>hold\<close> and \<open>release\<close>, or that has the bolt, finds its structure in the table,
  and the reference count of a structure is the number of goroutines between \<open>hold\<close> and \<open>release\<close>.
\<close>

theorem referred_structure_stays:
  assumes "cache_reachable c" "counted r (cPc c i) \<or> owns r (cPc c i)"
  shows "cTable c (cName c r) = Some r \<and> cRef c r = int (card {j. counted r (cPc c j)})"
proof
  show "cTable c (cName c r) = Some r"
    using assms(2) refers_counted refers_owns table_refers [OF reachable_inv(4) [OF assms(1)]] by blast
  show "cRef c r = int (card {j. counted r (cPc c j)})"
    using reachable_inv(3) [OF assms(1)] by (simp add: count_inv_def usage_def)
qed

lemma referred_structure_stays_witness:
  "\<exists>c. cache_reachable c \<and> cPc c 2 = WaitBolt 0 \<and> cTable c ''v'' = Some 0 \<and>
     card {j. counted 0 (cPc c j)} = 2"
proof -
  obtain c where c: "cache_reachable c" "cPc c 2 = WaitBolt 0" "cName c 0 = ''v''" "cRef c 0 = 2"
    using two_requests by blast
  then have "counted 0 (cPc c 2) \<or> owns 0 (cPc c 2)" by simp
  from referred_structure_stays [OF c(1) this] c show ?thesis by (intro exI [of _ c]) simp
qed




text \<open>A request that makes the volume \<open>v\<close> and gives it back.\<close>

lemma one_request:
  "\<exists>c. cache_reachable c \<and> (\<forall>i. cPc c i = Idle) \<and> cTable c ''v'' = Some 0"
proof -
  note r = cr_start [THEN cr_step, OF call_new [of _ 1 "''v''"], simplified cache_start_def, simplified]
  note r = r [THEN cr_step, OF new_lock [of _ 1 "''v''"], simplified]
  note r = r [THEN cr_step, OF new_add [of _ 1 "''v''"], simplified fresh_volume_def, simplified]
  note r = r [THEN cr_step, OF new_hold_new [of _ 1 0], simplified]
  note r = r [THEN cr_step, OF new_bolt [of _ 1 0], simplified]
  note r = r [THEN cr_step, OF new_unlock [of _ 1 0], simplified]
  note r = r [THEN cr_step, OF use_it [of _ 1 0 stateCreated], simplified]
  note r = r [THEN cr_step, OF finish [of _ 1 0], simplified]
  note r = r [THEN cr_step, OF rel_rlock [of _ 1 0], simplified]
  note r = r [THEN cr_step, OF rel_other [of _ 1 0], simplified]
  note r = r [THEN cr_step, OF rel_unbolt_fast [of _ 1 0], simplified]
  note r = r [THEN cr_step, OF rel_runlock_fast [of _ 1], simplified]
  show ?thesis by (rule exI, rule conjI, rule r) simp
qed


end
