(* ===== verification/CacheRefinement.thy ===== *)
theory CacheRefinement
  imports ProtocolProperties
begin

text \<open>
  The contract of the volume cache under concurrent requests: what a caller sees of
  \<open>lookupVolume\<close>, \<open>newVolume\<close> and \<open>releaseVolume\<close> is one exclusive lock per volume name.  The
  protocol, with its table, reference counts and bolts, implements that specification.
\<close>

section \<open>The specification\<close>

text \<open>Who has the volume of a name.\<close>

type_synonym name_locks = "string \<Rightarrow> nat option"

inductive name_lock_step :: "nat \<Rightarrow> name_locks \<Rightarrow> name_locks \<Rightarrow> bool" where
  acquire: "a n = None \<Longrightarrow> name_lock_step i a (a(n \<mapsto> i))"
| release: "a n = Some i \<Longrightarrow> name_lock_step i a (a(n := None))"

section \<open>The abstraction\<close>

definition name_owner :: "cache_state \<Rightarrow> name_locks" where
  "name_owner c n = (case cTable c n of None \<Rightarrow> None | Some r \<Rightarrow>
     (case cBolt c r of None \<Rightarrow> None | Some i \<Rightarrow> if cPc c i = Using r then Some i else None))"

definition has_volume :: "cache_state \<Rightarrow> nat \<Rightarrow> string \<Rightarrow> bool" where
  "has_volume c i n \<longleftrightarrow> (\<exists>r. cPc c i = Using r \<and> cName c r = n)"

lemma name_owner_iff:
  assumes "protocol_inv c"
  shows "name_owner c n = Some i \<longleftrightarrow> has_volume c i n"
proof
  assume "name_owner c n = Some i"
  then obtain r where r: "cTable c n = Some r" "cPc c i = Using r"
    unfolding name_owner_def by (auto split: option.splits if_splits)
  have "cName c r = n" using assms r(1) table_name unfolding protocol_inv_def by blast
  then show "has_volume c i n" using r(2) unfolding has_volume_def by blast
next
  assume "has_volume c i n"
  then obtain r where r: "cPc c i = Using r" "cName c r = n" unfolding has_volume_def by blast
  then have own: "owns r (cPc c i)" by simp
  have inv: "table_inv c" "bolt_owner_inv c" using assms unfolding protocol_inv_def by blast+
  have "cTable c (cName c r) = Some r" by (rule table_refers [OF inv(1) refers_owns [OF own]])
  moreover have "cBolt c r = Some i" using inv(2) own unfolding bolt_owner_inv_def by blast
  ultimately show "name_owner c n = Some i" using r unfolding name_owner_def by simp
qed

lemma has_volume_unique:
  assumes "protocol_inv c" "has_volume c i n" "has_volume c j n"
  shows "i = j"
  using assms(2,3) unfolding name_owner_iff [OF assms(1), symmetric] by simp

lemma name_owner_eqI:
  assumes "protocol_inv c" "\<And>i n. has_volume c i n \<longleftrightarrow> a n = Some i"
  shows "name_owner c = a"
proof
  show "name_owner c n = a n" for n
    using name_owner_iff [OF assms(1)] assms(2) by (metis option.exhaust)
qed

section \<open>Refinement\<close>

lemma has_volume_move:
  assumes "cName c' = cName c" "cPc c' = (cPc c)(i := p)"
  shows "has_volume c' j n \<longleftrightarrow> (if j = i then \<exists>r. p = Using r \<and> cName c r = n else has_volume c j n)"
  unfolding has_volume_def assms by simp

lemma refines_acquire:
  assumes "protocol_inv c" "protocol_inv c'" "\<not> (\<exists>r. cPc c i = Using r)"
    "cName c' = cName c" "cPc c' = (cPc c)(i := Using r)"
  shows "name_lock_step i (name_owner c) (name_owner c')"
proof -
  let ?n = "cName c r"
  have i: "\<not> has_volume c i n" for n using assms(3) unfolding has_volume_def by blast
  have "has_volume c' i ?n" by (simp add: has_volume_move [OF assms(4,5)])
  moreover have "has_volume c j n \<Longrightarrow> has_volume c' j n" for j n
    using i by (auto simp: has_volume_move [OF assms(4,5)])
  ultimately have free: "\<not> has_volume c j ?n" for j
    using has_volume_unique [OF assms(2)] i by blast
  have "name_owner c ?n = None" using free name_owner_iff [OF assms(1)] by (metis option.exhaust)
  moreover have "name_owner c' = (name_owner c)(?n \<mapsto> i)"
  proof (rule name_owner_eqI [OF assms(2)])
    show "has_volume c' j n \<longleftrightarrow> ((name_owner c)(?n \<mapsto> i)) n = Some j" for j n
      using i free by (auto simp: has_volume_move [OF assms(4,5)] name_owner_iff [OF assms(1)])
  qed
  ultimately show ?thesis using acquire by metis
qed

lemma refines_release:
  assumes "protocol_inv c" "protocol_inv c'" "cPc c i = Using r"
    "cName c' = cName c" "cPc c' = (cPc c)(i := Rel r)"
  shows "name_lock_step i (name_owner c) (name_owner c')"
proof -
  let ?n = "cName c r"
  have i: "has_volume c i n \<longleftrightarrow> n = ?n" for n using assms(3) unfolding has_volume_def by auto
  have "name_owner c ?n = Some i" using i name_owner_iff [OF assms(1)] by blast
  moreover have "name_owner c' = (name_owner c)(?n := None)"
  proof (rule name_owner_eqI [OF assms(2)])
    fix j n
    have "((name_owner c)(?n := None)) n = Some j \<longleftrightarrow> n \<noteq> ?n \<and> has_volume c j n"
      by (simp add: name_owner_iff [OF assms(1)])
    moreover have "has_volume c' j n \<longleftrightarrow> j \<noteq> i \<and> has_volume c j n"
      by (simp add: has_volume_move [OF assms(4,5)])
    moreover have "has_volume c j ?n \<Longrightarrow> j = i"
      using i has_volume_unique [OF assms(1)] by blast
    moreover have "has_volume c i n \<Longrightarrow> n = ?n" using i by blast
    ultimately show "has_volume c' j n \<longleftrightarrow> ((name_owner c)(?n := None)) n = Some j" by blast
  qed
  ultimately show ?thesis using release by metis
qed

lemma stutters:
  assumes "protocol_inv c" "protocol_inv c'" "\<And>j n. has_volume c' j n \<longleftrightarrow> has_volume c j n"
  shows "name_owner c' = name_owner c"
  by (rule name_owner_eqI [OF assms(2)]) (simp add: assms(3) name_owner_iff [OF assms(1)])

lemma step_refines:
  assumes "cache_step i c c'" "protocol_inv c"
  shows "name_owner c' = name_owner c \<or> name_lock_step i (name_owner c) (name_owner c')"
proof -
  note inv = assms(2) protocol_step [OF assms]
  show ?thesis
    using assms(1)
  proof cases
    case (new_unlock r)
    have "name_lock_step i (name_owner c) (name_owner c')"
      by (rule refines_acquire [OF inv, of i r]) (use new_unlock in simp_all)
    then show ?thesis ..
  next
    case (check_created r)
    have "name_lock_step i (name_owner c) (name_owner c')"
      by (rule refines_acquire [OF inv, of i r]) (use check_created in simp_all)
    then show ?thesis ..
  next
    case (finish r)
    have "name_lock_step i (name_owner c) (name_owner c')"
      by (rule refines_release [OF inv, of i r]) (use finish in simp_all)
    then show ?thesis ..
  next
    case (new_add n)
    have "cPc c j \<noteq> Using (cNext c)" for j
      using fresh_unreferred [of c j] inv(1) unfolding protocol_inv_def by (metis refers_owns owns.simps(3))
    then have "name_owner c' = name_owner c"
      unfolding new_add(1) using new_add
      by (intro stutters [OF inv [unfolded new_add(1)]]) (auto simp: has_volume_def fresh_volume_def, metis)
    then show ?thesis ..
  qed (rule disjI1, rule stutters [OF inv], simp add: has_volume_def; auto)+
qed

text \<open>
  C3: The volume cache implements one exclusive lock per volume name.  With \<open>name_owner\<close>, which
  says who has the volume of a name, every step of every goroutine of the protocol either acquires
  the free lock of one name for that goroutine, or releases the lock of one name that it has, or
  changes nothing in the specification; at the start all locks are free.  A goroutine owns the lock
  of a name exactly while its caller has a volume of that name.
\<close>

theorem cache_refines_name_locks:
  assumes "cache_reachable c" "cache_step i c c'"
  shows "name_owner cache_start = Map.empty \<and>
    (name_owner c' = name_owner c \<or> name_lock_step i (name_owner c) (name_owner c')) \<and>
    (name_owner c n = Some j \<longleftrightarrow> has_volume c j n)"
proof (intro conjI)
  note inv = protocol_reachable [OF assms(1)]
  show "name_owner cache_start = Map.empty" by (rule ext) (simp add: name_owner_def cache_start_def)
  show "name_owner c' = name_owner c \<or> name_lock_step i (name_owner c) (name_owner c')"
    by (rule step_refines [OF assms(2) inv])
  show "name_owner c n = Some j \<longleftrightarrow> has_volume c j n" by (rule name_owner_iff [OF inv])
qed

lemma cache_refines_name_locks_witness:
  "\<exists>c c'. cache_step 1 c c' \<and> name_owner c ''v'' = Some 1 \<and> name_lock_step 1 (name_owner c) (name_owner c')"
proof -
  obtain c where c: "cache_reachable c" "cPc c 1 = Using 0" "cName c 0 = ''v''"
    using two_requests by blast
  let ?c = "moveto c 1 (Rel 0)"
  have step: "cache_step 1 c ?c" by (rule finish) (rule c(2))
  have has: "has_volume c 1 ''v''" using c unfolding has_volume_def by blast
  then have owner: "name_owner c ''v'' = Some 1"
    using cache_refines_name_locks [OF c(1) step] by blast
  moreover have "name_owner ?c ''v'' \<noteq> Some 1" by (simp add: name_owner_def split: option.splits)
  then have "name_owner ?c \<noteq> name_owner c" using owner by metis
  ultimately show ?thesis
    using step cache_refines_name_locks [OF c(1) step] by blast
qed

end
