(* ===== verification/CacheAgreement.thy ===== *)
theory CacheAgreement
  imports CacheProperties CacheProtocol
begin

text \<open>
  The two models of the volume cache agree: what \<open>lookupVolume\<close> and \<open>releaseVolume\<close> of \<open>Cache\<close> do to
  the driver, in one go, is a run of the steps of \<open>CacheProtocol\<close> by one goroutine on the view of
  the driver that the protocol has.
\<close>

section \<open>The view\<close>

definition volume_field :: "'a \<Rightarrow> (zVolumeInterface \<Rightarrow> 'a) \<Rightarrow> ('w, 'b) driver_scheme \<Rightarrow> nat \<Rightarrow> 'a" where
  "volume_field d f s r = (case vols s r of None \<Rightarrow> d | Some v \<Rightarrow> f v)"

text \<open>No goroutine holds the lock of the table; \<open>pos\<close> says where the goroutines are.\<close>

definition volume_view :: "(nat \<Rightarrow> cpc) \<Rightarrow> ('w, 'b) driver_scheme \<Rightarrow> cache_state" where
  "volume_view pos s = \<lparr>cTable = map_of (vHash s), cName = volume_field [] getName s,
     cRef = volume_field 0 getRefcount s, cSt = volume_field stateCreating getState s,
     cBolt = volume_field None getBolt s, cNext = nextRef s, cWriter = None, cReaders = {}, cPc = pos\<rparr>"

lemma volume_field_put [simp]: "volume_field d f (putVol r v s) = (volume_field d f s)(r := f v)"
  by (rule ext) (simp add: volume_field_def)

lemma volume_field_hash [simp]: "volume_field d f (s\<lparr>vHash := h\<rparr>) = volume_field d f s"
  by (rule ext) (simp add: volume_field_def)

lemma volume_field_at: "vols s r = Some v \<Longrightarrow> volume_field d f s r = f v"
  by (simp add: volume_field_def)

section \<open>Runs of one goroutine\<close>

text \<open>The steps of a goroutine with a request.\<close>

definition busy_step :: "nat \<Rightarrow> cache_state \<Rightarrow> cache_state \<Rightarrow> bool" where
  "busy_step i c c' \<longleftrightarrow> cPc c i \<noteq> Idle \<and> cache_step i c c'"

lemma busyI: "cache_step i c c' \<Longrightarrow> cPc c i \<noteq> Idle \<Longrightarrow> busy_step i c c'"
  by (simp add: busy_step_def)

lemma step_run: "busy_step i c c1 \<Longrightarrow> (busy_step i)\<^sup>*\<^sup>* c1 c2 \<Longrightarrow> (busy_step i)\<^sup>*\<^sup>* c c2"
  by (rule converse_rtranclp_into_rtranclp)

lemma busy_run:
  assumes "(busy_step i)\<^sup>*\<^sup>* c1 c2" "cache_step i c c1"
  shows "(cache_step i)\<^sup>*\<^sup>* c c2"
proof -
  have "(cache_step i)\<^sup>*\<^sup>* c1 c2"
    using assms(1) by (rule rtranclp_mono [THEN predicate2D, rotated]) (auto simp: busy_step_def)
  with assms(2) show ?thesis by (rule converse_rtranclp_into_rtranclp)
qed

lemma lookup_run:
  assumes "cPc c1 i = LkWant n" "cWriter c1 = None" "cReaders c1 = {}" "cTable c1 n = Some r" "cBolt c1 r = None"
    "cSt c1 r = stateCreated"
  shows "(busy_step i)\<^sup>*\<^sup>* c1
    (c1\<lparr>cRef := (cRef c1)(r := cRef c1 r + 1), cBolt := (cBolt c1)(r := Some i), cPc := (cPc c1)(i := Using r)\<rparr>)"
proof -
  obtain c2 where c2: "c2 = moveto (reading i c1) i (LkGot n)" by blast
  obtain c3 where c3: "c3 = moveto (addRef r 1 c2) i (LkHeld r)" by blast
  obtain c4 where c4: "c4 = moveto (unreading i c3) i (WaitBolt r)" by blast
  obtain c5 where c5: "c5 = moveto (setOwner r (Some i) c4) i (Check r)" by blast
  obtain c6 where c6: "c6 = moveto c5 i (Using r)" by blast
  have s2: "busy_step i c1 c2" unfolding c2 by (rule busyI, rule lk_rlock) (simp_all add: assms)
  have s3: "busy_step i c2 c3" unfolding c3 by (rule busyI, rule lk_hold [of _ i n r]) (simp_all add: c2 assms)
  have s4: "busy_step i c3 c4" unfolding c4 by (rule busyI, rule lk_runlock) (simp_all add: c2 c3 assms)
  have s5: "busy_step i c4 c5" unfolding c5 by (rule busyI, rule bolt) (simp_all add: c2 c3 c4 assms)
  have s6: "busy_step i c5 c6" unfolding c6 by (rule busyI, rule check_created) (simp_all add: c2 c3 c4 c5 assms)
  have "(busy_step i)\<^sup>*\<^sup>* c1 c6"
    by (rule step_run [OF s2], rule step_run [OF s3], rule step_run [OF s4], rule step_run [OF s5], rule step_run [OF s6], rule rtranclp.rtrancl_refl)
  then show ?thesis using assms(3) by (cases c1) (simp add: c2 c3 c4 c5 c6)
qed

lemma release_run_created:
  assumes "cPc c1 i = Rel r" "cWriter c1 = None" "cReaders c1 = {}" "cSt c1 r = stateCreated"
  shows "(busy_step i)\<^sup>*\<^sup>* c1
    (c1\<lparr>cRef := (cRef c1)(r := cRef c1 r - 1), cBolt := (cBolt c1)(r := None), cPc := (cPc c1)(i := Idle)\<rparr>)"
proof -
  obtain c2 where c2: "c2 = moveto (reading i c1) i (RelR r)" by blast
  obtain c3 where c3: "c3 = moveto (addRef r (- 1) c2) i (RelFast r)" by blast
  obtain c4 where c4: "c4 = moveto (setOwner r None c3) i RelFast2" by blast
  obtain c5 where c5: "c5 = moveto (unreading i c4) i Idle" by blast
  have s2: "busy_step i c1 c2" unfolding c2 by (rule busyI, rule rel_rlock) (simp_all add: assms)
  have s3: "busy_step i c2 c3" unfolding c3 by (rule busyI, rule rel_other) (simp_all add: c2 assms)
  have s4: "busy_step i c3 c4" unfolding c4 by (rule busyI, rule rel_unbolt_fast) (simp_all add: c2 c3 assms)
  have s5: "busy_step i c4 c5" unfolding c5 by (rule busyI, rule rel_runlock_fast) (simp_all add: c2 c3 c4 assms)
  have "(busy_step i)\<^sup>*\<^sup>* c1 c5"
    by (rule step_run [OF s2], rule step_run [OF s3], rule step_run [OF s4], rule step_run [OF s5], rule rtranclp.rtrancl_refl)
  then show ?thesis using assms(3) by (cases c1) (simp add: c2 c3 c4 c5)
qed

lemma release_run_last:
  assumes "cPc c1 i = Rel r" "cWriter c1 = None" "cReaders c1 = {}" "cSt c1 r \<noteq> stateCreated" "cRef c1 r = 1"
  shows "(busy_step i)\<^sup>*\<^sup>* c1
    (c1\<lparr>cTable := (cTable c1)(cName c1 r := None), cRef := (cRef c1)(r := 0), cBolt := (cBolt c1)(r := None),
       cPc := (cPc c1)(i := Idle)\<rparr>)"
proof -
  obtain c2 where c2: "c2 = moveto (reading i c1) i (RelR r)" by blast
  obtain c3 where c3: "c3 = moveto (addRef r (- 1) c2) i (RelSlow r)" by blast
  obtain c4 where c4: "c4 = moveto (unreading i c3) i (RelWant r)" by blast
  obtain c5 where c5: "c5 = moveto (c4\<lparr>cWriter := Some i\<rparr>) i (RelW r)" by blast
  obtain c6 where c6: "c6 = moveto (setOwner r None c5) i (RelW2 r)" by blast
  obtain c7 where c7: "c7 = moveto (c6\<lparr>cTable := (cTable c6)(cName c6 r := None)\<rparr>) i RelW3" by blast
  obtain c8 where c8: "c8 = moveto (c7\<lparr>cWriter := None\<rparr>) i Idle" by blast
  have s2: "busy_step i c1 c2" unfolding c2 by (rule busyI, rule rel_rlock) (simp_all add: assms)
  have s3: "busy_step i c2 c3" unfolding c3 by (rule busyI, rule rel_last) (simp_all add: c2 assms)
  have s4: "busy_step i c3 c4" unfolding c4 by (rule busyI, rule rel_runlock) (simp_all add: c2 c3 assms)
  have s5: "busy_step i c4 c5" unfolding c5 by (rule busyI, rule rel_lock) (simp_all add: c2 c3 c4 assms)
  have s6: "busy_step i c5 c6" unfolding c6 by (rule busyI, rule rel_unbolt) (simp_all add: c2 c3 c4 c5 assms)
  have s7: "busy_step i c6 c7" unfolding c7 by (rule busyI, rule rel_delete) (simp_all add: c2 c3 c4 c5 c6 assms)
  have s8: "busy_step i c7 c8" unfolding c8 by (rule busyI, rule rel_unlock) (simp_all add: c2 c3 c4 c5 c6 c7 assms)
  have "(busy_step i)\<^sup>*\<^sup>* c1 c8"
    by (rule step_run [OF s2], rule step_run [OF s3], rule step_run [OF s4], rule step_run [OF s5], rule step_run [OF s6], rule step_run [OF s7], rule step_run [OF s8], rule rtranclp.rtrancl_refl)
  then show ?thesis using assms(2,3,5) by (cases c1) (simp add: c2 c3 c4 c5 c6 c7 c8)
qed

section \<open>Agreement\<close>

lemma lookup_agrees:
  assumes "held V S (Some i) s" "VolumeIdFromString volumeId = Inr vid"
    "map_of (vHash s) (vidName vid) = Some r" "r \<notin> V"
  shows "\<exists>v. vols s r = Some v \<and>
    lookupVolume env (Some i) t volumeId s = (Done (Inr r), putVol r (vlock.acquired (Some i) v) s) \<and>
    got_volume V S (Some i) (vidName vid) r (putVol r (vlock.acquired (Some i) v) s) \<and>
    (busy_step i)\<^sup>*\<^sup>* (moveto (volume_view pos s) i (LkWant (vidName vid)))
      (volume_view (pos(i := Using r)) (putVol r (vlock.acquired (Some i) v) s))"
proof -
  obtain v where v: "vols s r = Some v" "getBolt v = None" "getRefcount v = 0" "getState v = stateCreated"
    using assms(1,3,4) by (auto simp: held_def elim: vcached.inv_free)
  let ?s = "putVol r (vlock.acquired (Some i) v) s"
  obtain c where c: "c = moveto (volume_view pos s) i (LkWant (vidName vid))" by blast
  have run: "lookupVolume env (Some i) t volumeId s = (Done (Inr r), ?s)" "got_volume V S (Some i) (vidName vid) r ?s"
    using lookupVolume_cached [OF assms(1-4), of env t] v(1) by auto
  have "(busy_step i)\<^sup>*\<^sup>* c
      (c\<lparr>cRef := (cRef c)(r := cRef c r + 1), cBolt := (cBolt c)(r := Some i), cPc := (cPc c)(i := Using r)\<rparr>)"
    by (rule lookup_run [of _ _ "vidName vid"]) (simp_all add: c volume_view_def volume_field_at v assms(3))
  moreover have "c\<lparr>cRef := (cRef c)(r := cRef c r + 1), cBolt := (cBolt c)(r := Some i), cPc := (cPc c)(i := Using r)\<rparr>
      = volume_view (pos(i := Using r)) ?s"
    by (simp add: c volume_view_def volume_field_at v fun_upd_idem)
  ultimately have "(busy_step i)\<^sup>*\<^sup>* c (volume_view (pos(i := Using r)) ?s)" by metis
  then show ?thesis using run v(1) unfolding c by blast
qed

text \<open>Both ends of a release.\<close>

lemma release_agrees:
  assumes "held V S (Some i) s" "r \<in> V"
  shows "\<exists>s'. releaseVolume (Some i) r s = (Done (), s') \<and> snaps s' = snaps s \<and> sHash s' = sHash s \<and>
    nextRef s' = nextRef s \<and>
    (busy_step i)\<^sup>*\<^sup>* (moveto (volume_view pos s) i (Rel r)) (volume_view (pos(i := Idle)) s')"
proof -
  obtain v where v: "vols s r = Some v" "getBolt v = Some i" "getRefcount v = 1"
    using assms(1,2) by (auto simp: held_def cache_inv_def)
  let ?s = "putVol r (vlock.dropped v) s"
  obtain c where c: "c = moveto (volume_view pos s) i (Rel r)" by blast
  note run = releaseVolume_run [OF assms(1,2) v(1)]
  show ?thesis
  proof (cases "getState v = stateCreated")
    case True
    have "(busy_step i)\<^sup>*\<^sup>* c
        (c\<lparr>cRef := (cRef c)(r := cRef c r - 1), cBolt := (cBolt c)(r := None), cPc := (cPc c)(i := Idle)\<rparr>)"
      by (rule release_run_created) (simp_all add: c volume_view_def volume_field_at v True)
    moreover have "c\<lparr>cRef := (cRef c)(r := cRef c r - 1), cBolt := (cBolt c)(r := None), cPc := (cPc c)(i := Idle)\<rparr>
        = volume_view (pos(i := Idle)) ?s"
      by (simp add: c volume_view_def volume_field_at v fun_upd_idem)
    ultimately have "(busy_step i)\<^sup>*\<^sup>* c (volume_view (pos(i := Idle)) ?s)" by metis
    then show ?thesis using run True unfolding c by auto
  next
    case False
    let ?t = "?s\<lparr>vHash := AList.delete (getName v) (vHash s)\<rparr>"
    have "(busy_step i)\<^sup>*\<^sup>* c (c\<lparr>cTable := (cTable c)(cName c r := None), cRef := (cRef c)(r := 0),
        cBolt := (cBolt c)(r := None), cPc := (cPc c)(i := Idle)\<rparr>)"
      by (rule release_run_last) (simp_all add: c volume_view_def volume_field_at v False)
    moreover have "c\<lparr>cTable := (cTable c)(cName c r := None), cRef := (cRef c)(r := 0),
        cBolt := (cBolt c)(r := None), cPc := (cPc c)(i := Idle)\<rparr> = volume_view (pos(i := Idle)) ?t"
      by (simp add: c volume_view_def volume_field_at v fun_upd_idem delete_conv')
    ultimately have "(busy_step i)\<^sup>*\<^sup>* c (volume_view (pos(i := Idle)) ?t)" by metis
    then show ?thesis using run False unfolding c by auto
  qed
qed



end
