(* ===== verification/TokenProtocol.thy ===== *)
theory TokenProtocol
  imports RestTypes
begin

text \<open>
  \<open>getToken\<close> (\<open>zfssa_rest.go\<close>) under concurrent requests of one user: the mutex, the condition
  variable and the state of the token as a step relation of any number of goroutines, one step per
  access.  The session is written and read back outside of the mutex, as in the code.  A goroutine
  that has returned from \<open>getToken\<close> sends its request; when that fails because the certificate of
  the appliance cannot be verified, \<open>makeRequest\<close> sets the state of the token without the mutex.
  The steps with that failure are kept apart by the parameter \<open>certs\<close>.
\<close>

section \<open>The state\<close>

text \<open>Where a goroutine is, with \<open>previous\<close>, or the session it returns and whether that is an error.\<close>

datatype tpc =
    TIdle
  | TEnter "string option"     \<comment> \<open>at \<open>token.mtx.Lock()\<close>\<close>
  | TLoop "string option"      \<comment> \<open>holds the mutex, at the switch\<close>
  | TWait "string option"      \<comment> \<open>inside \<open>token.cv.Wait()\<close>\<close>
  | TWoken "string option"     \<comment> \<open>woken, wants the mutex back\<close>
  | TStart                     \<comment> \<open>state set to creating, about to unlock\<close>
  | TCreate                    \<comment> \<open>in \<open>createZfssaSession\<close>\<close>
  | TAssigned bool             \<comment> \<open>session assigned, about to read it back\<close>
  | TWant string bool          \<comment> \<open>at the second \<open>Lock\<close>\<close>
  | TSet string bool
  | TBroadcast string bool
  | TLeave string bool
  | TDone string bool          \<comment> \<open>\<open>getToken\<close> has returned\<close>

record token_shared =
  tMutex :: "nat option"
  tState :: token_state
  tSession :: string
  tCreated :: "string set"     \<comment> \<open>sessions the appliance has made\<close>
  tPc :: "nat \<Rightarrow> tpc"

definition token_start :: token_shared where
  "token_start = \<lparr>tMutex = None, tState = zfssaTokenInvalid, tSession = [], tCreated = {}, tPc = (\<lambda>_. TIdle)\<rparr>"

section \<open>The steps\<close>

abbreviation tgo :: "token_shared \<Rightarrow> nat \<Rightarrow> tpc \<Rightarrow> token_shared" where
  "tgo t i p \<equiv> t\<lparr>tPc := (tPc t)(i := p)\<rparr>"

fun wake_up :: "tpc \<Rightarrow> tpc" where
  "wake_up (TWait previous) = TWoken previous" | "wake_up p = p"

text \<open>A call, from a goroutine that is not in \<open>getToken\<close>.\<close>

inductive token_call :: "nat \<Rightarrow> token_shared \<Rightarrow> token_shared \<Rightarrow> bool" where
  call: "tPc t i = TIdle \<Longrightarrow> token_call i t (tgo t i (TEnter previous))"
| call_again: "tPc t i = TDone x err \<Longrightarrow> token_call i t (tgo t i (TEnter previous))"

text \<open>A step inside of \<open>getToken\<close>.\<close>

inductive token_step :: "nat \<Rightarrow> token_shared \<Rightarrow> token_shared \<Rightarrow> bool" where
  lock: "tPc t i = TEnter previous \<Longrightarrow> tMutex t = None \<Longrightarrow>
    token_step i t (tgo (t\<lparr>tMutex := Some i\<rparr>) i (TLoop previous))"
| invalid: "tPc t i = TLoop previous \<Longrightarrow> tState t = zfssaTokenInvalid \<Longrightarrow>
    token_step i t (tgo (t\<lparr>tState := zfssaTokenCreating\<rparr>) i TStart)"
| unlock: "tPc t i = TStart \<Longrightarrow> token_step i t (tgo (t\<lparr>tMutex := None\<rparr>) i TCreate)"
| created: "tPc t i = TCreate \<Longrightarrow>
    token_step i t (tgo (t\<lparr>tSession := x, tCreated := insert x (tCreated t)\<rparr>) i (TAssigned False))"
| create_fails: "tPc t i = TCreate \<Longrightarrow> token_step i t (tgo (t\<lparr>tSession := []\<rparr>) i (TAssigned True))"
| read_back: "tPc t i = TAssigned err \<Longrightarrow> token_step i t (tgo t i (TWant (tSession t) err))"
| relock: "tPc t i = TWant x err \<Longrightarrow> tMutex t = None \<Longrightarrow>
    token_step i t (tgo (t\<lparr>tMutex := Some i\<rparr>) i (TSet x err))"
| set_state: "tPc t i = TSet x err \<Longrightarrow>
    token_step i t (tgo (t\<lparr>tState := if err then zfssaTokenInvalid else zfssaTokenValid\<rparr>) i (TBroadcast x err))"
| broadcast: "tPc t i = TBroadcast x err \<Longrightarrow>
    token_step i t (tgo (t\<lparr>tPc := wake_up \<circ> tPc t\<rparr>) i (TLeave x err))"
| leave: "tPc t i = TLeave x err \<Longrightarrow> token_step i t (tgo (t\<lparr>tMutex := None\<rparr>) i (TDone x err))"
| wait: "tPc t i = TLoop previous \<Longrightarrow> tState t = zfssaTokenCreating \<Longrightarrow>
    token_step i t (tgo (t\<lparr>tMutex := None\<rparr>) i (TWait previous))"
| wake: "tPc t i = TWoken previous \<Longrightarrow> tMutex t = None \<Longrightarrow>
    token_step i t (tgo (t\<lparr>tMutex := Some i\<rparr>) i (TLoop previous))"
| use: "tPc t i = TLoop previous \<Longrightarrow> tState t = zfssaTokenValid \<Longrightarrow> previous \<noteq> Some (tSession t) \<Longrightarrow>
    token_step i t (tgo t i (TLeave (tSession t) False))"
| stale: "tPc t i = TLoop previous \<Longrightarrow> tState t = zfssaTokenValid \<Longrightarrow> previous = Some (tSession t) \<Longrightarrow>
    token_step i t (t\<lparr>tState := zfssaTokenInvalid\<rparr>)"

text \<open>\<open>makeRequest\<close>: the certificate cannot be verified.\<close>

inductive cert_step :: "nat \<Rightarrow> token_shared \<Rightarrow> token_shared \<Rightarrow> bool" where
  cert_fails: "tPc t i = TDone x False \<Longrightarrow> cert_step i t (t\<lparr>tState := zfssaTokenInvalid\<rparr>)"

inductive token_reachable :: "bool \<Rightarrow> token_shared \<Rightarrow> bool" for certs where
  tr_start: "token_reachable certs token_start"
| tr_call: "token_reachable certs t \<Longrightarrow> token_call i t t' \<Longrightarrow> token_reachable certs t'"
| tr_step: "token_reachable certs t \<Longrightarrow> token_step i t t' \<Longrightarrow> token_reachable certs t'"
| tr_cert: "certs \<Longrightarrow> token_reachable certs t \<Longrightarrow> cert_step i t t' \<Longrightarrow> token_reachable certs t'"

section \<open>Invariants\<close>

fun has_mutex :: "tpc \<Rightarrow> bool" where
  "has_mutex (TLoop _) = True" | "has_mutex TStart = True" | "has_mutex (TSet _ _) = True"
| "has_mutex (TBroadcast _ _) = True" | "has_mutex (TLeave _ _) = True" | "has_mutex _ = False"

text \<open>From the change of the state to creating to the next change.\<close>

fun creating :: "tpc \<Rightarrow> bool" where
  "creating TStart = True" | "creating TCreate = True" | "creating (TAssigned _) = True"
| "creating (TWant _ _) = True" | "creating (TSet _ _) = True" | "creating _ = False"

text \<open>A session on its way to the caller is one that the appliance made.\<close>

fun session_ok :: "string \<Rightarrow> string set \<Rightarrow> tpc \<Rightarrow> bool" where
  "session_ok s C (TAssigned err) = (err \<or> s \<in> C)"
| "session_ok s C (TWant x err) = (err \<or> s = x \<and> x \<in> C)"
| "session_ok s C (TSet x err) = (err \<or> s = x \<and> x \<in> C)"
| "session_ok s C (TBroadcast x err) = (err \<or> x \<in> C)"
| "session_ok s C (TLeave x err) = (err \<or> x \<in> C)"
| "session_ok s C (TDone x err) = (err \<or> x \<in> C)"
| "session_ok s C _ = True"

definition tmutex_inv :: "token_shared \<Rightarrow> bool" where
  "tmutex_inv t \<longleftrightarrow> (\<forall>i. tMutex t = Some i \<longleftrightarrow> has_mutex (tPc t i))"

definition creator_inv :: "token_shared \<Rightarrow> bool" where
  "creator_inv t \<longleftrightarrow> (tState t = zfssaTokenCreating \<longleftrightarrow> (\<exists>i. creating (tPc t i))) \<and>
     (\<forall>i j. creating (tPc t i) \<longrightarrow> creating (tPc t j) \<longrightarrow> i = j)"

definition session_inv :: "token_shared \<Rightarrow> bool" where
  "session_inv t \<longleftrightarrow> (\<forall>i. session_ok (tSession t) (tCreated t) (tPc t i)) \<and>
     (tState t = zfssaTokenValid \<longrightarrow> tSession t \<in> tCreated t)"

text \<open>Who waits is woken: somebody creates a session, or is about to broadcast.\<close>

definition tbroadcast :: "tpc \<Rightarrow> bool" where
  "tbroadcast p \<longleftrightarrow> (\<exists>x err. p = TBroadcast x err)"

definition twait_inv :: "token_shared \<Rightarrow> bool" where
  "twait_inv t \<longleftrightarrow> (\<forall>i previous. tPc t i = TWait previous \<longrightarrow>
     tState t = zfssaTokenCreating \<or> (\<exists>j. tbroadcast (tPc t j)))"

lemma tmutex_unique: "tmutex_inv t \<Longrightarrow> has_mutex (tPc t i) \<Longrightarrow> has_mutex (tPc t j) \<Longrightarrow> i = j"
  unfolding tmutex_inv_def by (metis option.inject)

lemma creator_unique: "creator_inv t \<Longrightarrow> creating (tPc t i) \<Longrightarrow> creating (tPc t j) \<Longrightarrow> i = j"
  unfolding creator_inv_def by blast

lemma wake_up_classes [simp]:
  "has_mutex (wake_up p) = has_mutex p" "creating (wake_up p) = creating p"
  "session_ok s C (wake_up p) = session_ok s C p" "wake_up p \<noteq> TWait q"
  by (cases p; simp)+

lemma session_ok_mono: "session_ok s C p \<Longrightarrow> C \<subseteq> C' \<Longrightarrow> s' = s \<or> \<not> creating p \<Longrightarrow> session_ok s' C' p"
  by (cases p) auto

lemma call_others: "token_call i t t' \<Longrightarrow> j \<noteq> i \<Longrightarrow> tPc t' j = tPc t j"
  by (erule token_call.cases) simp_all

lemma tmutex_step:
  assumes "token_step i t t'" "tmutex_inv t"
  shows "tmutex_inv t'"
  using assms(1)
  by cases (use assms(2) tmutex_unique [OF assms(2), of i] in \<open>auto simp: tmutex_inv_def\<close>)

lemma tmutex_call: "token_call i t t' \<Longrightarrow> tmutex_inv t \<Longrightarrow> tmutex_inv t'"
  by (erule token_call.cases) (auto simp: tmutex_inv_def)

lemma creator_keep:
  assumes "creator_inv t" "\<And>j. creating (tPc t' j) = creating (tPc t j)"
    "tState t' = zfssaTokenCreating \<longleftrightarrow> tState t = zfssaTokenCreating"
  shows "creator_inv t'"
  using assms unfolding creator_inv_def by simp

lemma creator_begin:
  assumes "creator_inv t" "tState t \<noteq> zfssaTokenCreating" "tState t' = zfssaTokenCreating"
    "\<And>j. creating (tPc t' j) \<longleftrightarrow> j = i \<or> creating (tPc t j)"
  shows "creator_inv t'"
  using assms unfolding creator_inv_def by auto

lemma creator_end:
  assumes "creator_inv t" "creating (tPc t i)" "tState t' \<noteq> zfssaTokenCreating"
    "\<And>j. creating (tPc t' j) \<longleftrightarrow> j \<noteq> i \<and> creating (tPc t j)"
  shows "creator_inv t'"
  using assms creator_unique [OF assms(1,2)] unfolding creator_inv_def by blast

lemma creator_step:
  assumes "token_step i t t'" "creator_inv t"
  shows "creator_inv t'"
  using assms(1)
proof cases
  case (invalid previous)
  then show ?thesis by (intro creator_begin [OF assms(2), of _ i]) auto
next
  case (set_state x err)
  then show ?thesis by (intro creator_end [OF assms(2), of i]) auto
next
  case (broadcast x err)
  then show ?thesis by (intro creator_keep [OF assms(2)]) auto
qed (rule creator_keep [OF assms(2)]; auto)+

lemma creator_call: "token_call i t t' \<Longrightarrow> creator_inv t \<Longrightarrow> creator_inv t'"
  by (erule token_call.cases; rule creator_keep) auto

text \<open>Only the creator changes the session.\<close>

lemma session_move:
  assumes "session_inv t" "\<And>j. j \<noteq> i \<Longrightarrow> tPc t' j = tPc t j" "tCreated t \<subseteq> tCreated t'"
    "tSession t' = tSession t \<or> (\<forall>j. j \<noteq> i \<longrightarrow> \<not> creating (tPc t j))"
    "session_ok (tSession t') (tCreated t') (tPc t' i)"
    "tState t' = zfssaTokenValid \<Longrightarrow> tSession t' \<in> tCreated t'"
  shows "session_inv t'"
proof -
  have "session_ok (tSession t') (tCreated t') (tPc t' j)" for j
  proof (cases "j = i")
    case False
    have "session_ok (tSession t) (tCreated t) (tPc t j)" using assms(1) unfolding session_inv_def by blast
    then have "session_ok (tSession t') (tCreated t') (tPc t j)"
      by (rule session_ok_mono [OF _ assms(3)]) (use assms(4) False in blast)
    then show ?thesis using assms(2) [OF False] by simp
  qed (simp add: assms(5))
  with assms(6) show ?thesis unfolding session_inv_def by blast
qed

lemma session_step:
  assumes "token_step i t t'" "session_inv t" "creator_inv t"
  shows "session_inv t'"
proof -
  have here: "session_ok (tSession t) (tCreated t) (tPc t i)"
    and valid: "tState t = zfssaTokenValid \<Longrightarrow> tSession t \<in> tCreated t"
    using assms(2) unfolding session_inv_def by blast+
  have other: "creating (tPc t i) \<Longrightarrow> \<forall>j. j \<noteq> i \<longrightarrow> \<not> creating (tPc t j)"
    and state: "creating (tPc t i) \<Longrightarrow> tState t = zfssaTokenCreating"
    using assms(3) creator_unique [OF assms(3)] unfolding creator_inv_def by blast+
  show ?thesis
    using assms(1)
  proof cases
    case (broadcast x err)
    then show ?thesis using assms(2) here by (simp add: session_inv_def)
  qed (rule session_move [OF assms(2), of i]; use here valid other state in auto)+
qed

lemma session_call: "token_call i t t' \<Longrightarrow> session_inv t \<Longrightarrow> session_inv t'"
  by (erule token_call.cases) (auto simp: session_inv_def)

lemma twait_move:
  assumes "twait_inv t" "\<And>j. j \<noteq> i \<Longrightarrow> tPc t' j = tPc t j" "\<not> tbroadcast (tPc t i)"
    "tState t = zfssaTokenCreating \<longrightarrow> tState t' = zfssaTokenCreating"
    "\<And>previous. tPc t' i = TWait previous \<Longrightarrow> tState t' = zfssaTokenCreating"
  shows "twait_inv t'"
  unfolding twait_inv_def
proof (intro allI impI)
  fix k previous
  assume wait: "tPc t' k = TWait previous"
  show "tState t' = zfssaTokenCreating \<or> (\<exists>j. tbroadcast (tPc t' j))"
  proof (cases "k = i")
    case False
    then have "tState t = zfssaTokenCreating \<or> (\<exists>j. tbroadcast (tPc t j))"
      using assms(1,2) wait unfolding twait_inv_def by metis
    then show ?thesis using assms(2-4) by metis
  qed (use assms(5) wait in blast)
qed

lemma twait_step:
  assumes "token_step i t t'" "twait_inv t"
  shows "twait_inv t'"
  using assms(1)
proof cases
  case (set_state x err)
  then have "tbroadcast (tPc t' i)" by (simp add: tbroadcast_def)
  then show ?thesis unfolding twait_inv_def by blast
next
  case (broadcast x err)
  then show ?thesis by (simp add: twait_inv_def)
qed (rule twait_move [OF assms(2), of i]; simp add: tbroadcast_def)+

lemma twait_call: "token_call i t t' \<Longrightarrow> twait_inv t \<Longrightarrow> twait_inv t'"
  by (erule token_call.cases) (rule twait_move [of t i]; simp add: tbroadcast_def)+

text \<open>Without failures of the certificate all invariants hold.\<close>

definition token_inv :: "token_shared \<Rightarrow> bool" where
  "token_inv t \<longleftrightarrow> tmutex_inv t \<and> creator_inv t \<and> session_inv t \<and> twait_inv t"

lemma token_inv_step: "token_step i t t' \<Longrightarrow> token_inv t \<Longrightarrow> token_inv t'"
  unfolding token_inv_def by (blast intro: tmutex_step creator_step session_step twait_step)

lemma token_inv_reachable: "token_reachable False t \<Longrightarrow> token_inv t"
proof (induction rule: token_reachable.induct)
  case tr_start
  show ?case by (simp add: token_inv_def token_start_def tmutex_inv_def creator_inv_def session_inv_def twait_inv_def)
next
  case (tr_call t i t')
  then show ?case unfolding token_inv_def by (blast intro: tmutex_call creator_call session_call twait_call)
next
  case (tr_step t i t')
  then show ?case by (blast intro: token_inv_step)
qed simp

end
