(* ===== verification/TokenProperties.thy ===== *)
theory TokenProperties
  imports TokenProtocol
begin

text \<open>
  What \<open>getToken\<close> promises to concurrent requests: one session is created at a time, what is
  returned without an error is a session of the appliance, and every call returns, however the
  goroutines are scheduled.  And what a certificate that cannot be verified breaks: the state of
  the token is then set without its mutex.
\<close>

section \<open>Every call ends\<close>

fun outside :: "tpc \<Rightarrow> bool" where
  "outside TIdle = True" | "outside (TDone _ _) = True" | "outside _ = False"

fun pending :: "tpc \<Rightarrow> bool" where
  "pending (TEnter _) = True" | "pending (TLoop _) = True" | "pending (TWait _) = True"
| "pending (TWoken _) = True" | "pending _ = False"

fun trank :: "tpc \<Rightarrow> nat" where
  "trank (TEnter _) = 3" | "trank (TWoken _) = 3" | "trank (TLoop _) = 2" | "trank (TWait _) = 1"
| "trank TStart = 5" | "trank TCreate = 4" | "trank (TAssigned _) = 3" | "trank (TWant _ _) = 2"
| "trank (TSet _ _) = 1" | "trank (TBroadcast _ _) = 1" | "trank (TLeave _ _) = 1" | "trank _ = 0"

text \<open>
  A goroutine that is woken goes back in the loop, but only after another one has left it for good:
  the number of goroutines in the loop, of creators, of broadcasts to come, whether the token is
  valid, and the ranks decrease lexicographically with every step.
\<close>

definition total :: "nat set \<Rightarrow> (tpc \<Rightarrow> nat) \<Rightarrow> token_shared \<Rightarrow> nat" where
  "total A w t = (\<Sum>i\<in>A. w (tPc t i))"

definition steps_left :: "nat set \<Rightarrow> (token_shared \<times> token_shared) set" where
  "steps_left A = measures [total A (\<lambda>p. of_bool (pending p)), total A (\<lambda>p. of_bool (creating p)),
     total A (\<lambda>p. of_bool (tbroadcast p)), \<lambda>t. of_bool (tState t = zfssaTokenValid), total A trank]"

lemma total_cong: "(\<And>j. w (tPc t' j) = w (tPc t j)) \<Longrightarrow> total A w t' = total A w t"
  by (simp add: total_def)

lemma total_less:
  assumes "finite A" "i \<in> A" "\<And>j. j \<noteq> i \<Longrightarrow> w (tPc t' j) = w (tPc t j)" "w (tPc t' i) < w (tPc t i)"
  shows "total A w t' < total A w t"
  unfolding total_def using assms
  by (intro sum_strict_mono_ex1) (assumption, metis order.refl less_imp_le, blast)

lemma tbroadcast_simps [simp]:
  "tbroadcast (TBroadcast x err)" "\<not> tbroadcast (TEnter q)" "\<not> tbroadcast (TLoop q)" "\<not> tbroadcast (TWait q)"
  "\<not> tbroadcast (TWoken q)" "\<not> tbroadcast TStart" "\<not> tbroadcast TCreate" "\<not> tbroadcast (TAssigned err)"
  "\<not> tbroadcast (TWant x err)" "\<not> tbroadcast (TSet x err)" "\<not> tbroadcast (TLeave x err)"
  "\<not> tbroadcast (TDone x err)"
  by (simp_all add: tbroadcast_def)

lemma wake_up_counts [simp]: "pending (wake_up p) = pending p" "tbroadcast (wake_up p) = tbroadcast p"
  "outside (wake_up p) = outside p"
  by (cases p; simp)+

text \<open>The three ways to decrease.\<close>

lemma steps_left_pending:
  assumes "finite A" "i \<in> A" "\<And>j. j \<noteq> i \<Longrightarrow> tPc t' j = tPc t j" "pending (tPc t i)" "\<not> pending (tPc t' i)"
  shows "(t', t) \<in> steps_left A"
  unfolding steps_left_def in_measures
  by (rule disjI1, rule total_less [OF assms(1,2)]) (use assms(3-5) in simp_all)

lemma steps_left_rank:
  assumes "finite A" "i \<in> A" "\<And>j. j \<noteq> i \<Longrightarrow> tPc t' j = tPc t j" "pending (tPc t' i) = pending (tPc t i)"
    "creating (tPc t' i) = creating (tPc t i)" "tbroadcast (tPc t' i) = tbroadcast (tPc t i)"
    "tState t' = tState t" "trank (tPc t' i) < trank (tPc t i)"
  shows "(t', t) \<in> steps_left A"
proof -
  have same: "w (tPc t' i) = w (tPc t i) \<Longrightarrow> total A w t' = total A w t" for w :: "tpc \<Rightarrow> nat"
    using assms(3) by (intro total_cong) metis
  have "total A trank t' < total A trank t"
    by (rule total_less [OF assms(1,2)]) (use assms(3,8) in simp_all)
  then show ?thesis unfolding steps_left_def in_measures using assms(4-7) by (simp add: same)
qed

lemma step_decreases:
  assumes "token_step i t t'" "finite A" "i \<in> A"
  shows "(t', t) \<in> steps_left A"
  using assms(1)
proof cases
  case (invalid previous)
  then show ?thesis by (intro steps_left_pending [OF assms(2,3)]) simp_all
next
  case (use previous)
  then show ?thesis by (intro steps_left_pending [OF assms(2,3)]) simp_all
next
  case (set_state x err)
  have "total A (\<lambda>p. of_bool (creating p)) t' < total A (\<lambda>p. of_bool (creating p)) t"
    by (rule total_less [OF assms(2,3)]) (use set_state in simp_all)
  moreover have "total A (\<lambda>p. of_bool (pending p)) t' = total A (\<lambda>p. of_bool (pending p)) t"
    by (rule total_cong) (use set_state in simp)
  ultimately show ?thesis unfolding steps_left_def by simp
next
  case (broadcast x err)
  have "total A (\<lambda>p. of_bool (tbroadcast p)) t' < total A (\<lambda>p. of_bool (tbroadcast p)) t"
    by (rule total_less [OF assms(2,3)]) (use broadcast in simp_all)
  moreover have "total A (\<lambda>p. of_bool (pending p)) t' = total A (\<lambda>p. of_bool (pending p)) t"
    "total A (\<lambda>p. of_bool (creating p)) t' = total A (\<lambda>p. of_bool (creating p)) t"
    by (rule total_cong, use broadcast in simp)+
  ultimately show ?thesis unfolding steps_left_def by simp
next
  case (stale previous)
  then have "total A w t' = total A w t" for w by (simp add: total_def)
  then show ?thesis using stale unfolding steps_left_def by simp
qed (rule steps_left_rank [OF assms(2,3)]; simp)+

lemma step_inside: "token_step i t t' \<Longrightarrow> \<not> outside (tPc t i)"
  by (erule token_step.cases) auto

lemma wake_up_outside [simp]: "outside p \<Longrightarrow> wake_up p = p"
  by (cases p) simp_all

lemma step_outside:
  assumes "token_step i t t'" "outside (tPc t j)"
  shows "tPc t' j = tPc t j"
proof -
  have "j \<noteq> i" using assms step_inside by blast
  with assms show ?thesis by (auto elim: token_step.cases)
qed

definition busy :: "token_shared \<Rightarrow> nat set" where
  "busy t = {i. \<not> outside (tPc t i)}"

lemma busy_step: "token_step i t t' \<Longrightarrow> busy t' \<subseteq> busy t"
  unfolding busy_def using step_outside by fastforce

lemma busy_call: "token_call i t t' \<Longrightarrow> busy t' \<subseteq> insert i (busy t)"
  by (erule token_call.cases) (auto simp: busy_def)

lemma busy_finite: "token_reachable certs t \<Longrightarrow> finite (busy t)"
proof (induction rule: token_reachable.induct)
  case tr_start
  show ?case by (simp add: busy_def token_start_def)
next
  case (tr_call t i t')
  then show ?case using busy_call by (metis finite_insert finite_subset)
next
  case (tr_step t i t')
  then show ?case using busy_step by (metis finite_subset)
next
  case (tr_cert t i t')
  then show ?case by (auto elim: cert_step.cases simp: busy_def)
qed

abbreviation token_inner :: "token_shared \<Rightarrow> token_shared \<Rightarrow> bool" where
  "token_inner \<equiv> (\<lambda>t t'. \<exists>i. token_step i t t')"

lemma no_infinite_run:
  assumes "token_reachable certs t" "f 0 = t" "\<And>k. token_inner (f k) (f (Suc k))"
  shows False
proof -
  have busy: "busy (f k) \<subseteq> busy t" for k
    by (induction k) (use assms(2) in simp, use busy_step assms(3) in blast)
  have "(f (Suc k), f k) \<in> steps_left (busy t)" for k
  proof -
    obtain i where i: "token_step i (f k) (f (Suc k))" using assms(3) by blast
    then have "i \<in> busy t" using step_inside busy unfolding busy_def by blast
    then show ?thesis by (rule step_decreases [OF i busy_finite [OF assms(1)]])
  qed
  moreover have "wf (steps_left (busy t))" unfolding steps_left_def by (rule wf_measures)
  ultimately show False by (metis wf_iff_no_infinite_down_chain)
qed

text \<open>Somebody can always go on.\<close>

definition token_can_step :: "nat \<Rightarrow> token_shared \<Rightarrow> bool" where
  "token_can_step i t \<longleftrightarrow> (\<exists>t'. token_step i t t')"

lemma mutex_steps:
  assumes "has_mutex (tPc t i)"
  shows "token_can_step i t"
proof (cases "tPc t i")
  case (TLoop previous)
  then show ?thesis
    unfolding token_can_step_def
    by (cases "tState t"; cases "previous = Some (tSession t)")
      (blast intro: token_step.invalid token_step.wait token_step.use token_step.stale)+
qed (use assms in \<open>auto simp: token_can_step_def intro: token_step.intros\<close>)

lemma free_steps:
  assumes "tMutex t = None" "\<not> outside (tPc t i)" "\<not> has_mutex (tPc t i)" "\<And>q. tPc t i \<noteq> TWait q"
  shows "token_can_step i t"
  using assms by (cases "tPc t i") (auto simp: token_can_step_def intro: token_step.intros)

lemma token_progress:
  assumes "token_inv t" "\<not> outside (tPc t i)"
  shows "\<exists>j. token_can_step j t"
proof (cases "tMutex t")
  case (Some j)
  then have "has_mutex (tPc t j)" using assms(1) unfolding token_inv_def tmutex_inv_def by blast
  then show ?thesis using mutex_steps by blast
next
  case None
  then have free: "\<not> has_mutex (tPc t j)" for j
    using assms(1) unfolding token_inv_def tmutex_inv_def by (metis option.distinct(1))
  show ?thesis
  proof (cases "\<exists>q. tPc t i = TWait q")
    case True
    have "\<not> tbroadcast (tPc t j)" for j using free [of j] unfolding tbroadcast_def by auto
    then have "tState t = zfssaTokenCreating" using True assms(1) unfolding token_inv_def twait_inv_def by blast
    then obtain j where j: "creating (tPc t j)" using assms(1) unfolding token_inv_def creator_inv_def by blast
    then have "\<not> outside (tPc t j)" "\<And>q. tPc t j \<noteq> TWait q" by (cases "tPc t j"; simp)+
    then show ?thesis using free_steps [OF None _ free] by blast
  next
    case False
    then show ?thesis using free_steps [OF None assms(2) free] by blast
  qed
qed

section \<open>Properties\<close>

text \<open>Goroutine 1 creates the session \<open>a\<close> while goroutine 2 waits for it; then both have it.\<close>

lemma two_callers:
  "\<exists>t. token_reachable False t \<and> tPc t 1 = TDone ''a'' False \<and> tPc t 2 = TWoken None"
proof -
  note r = tr_start [of False, THEN tr_call, OF call [of _ 1 None], simplified token_start_def, simplified]
  note r = r [THEN tr_step, OF lock [of _ 1 None], simplified]
  note r = r [THEN tr_step, OF invalid [of _ 1 None], simplified]
  note r = r [THEN tr_step, OF unlock [of _ 1], simplified]
  note r = r [THEN tr_call, OF call [of _ 2 None], simplified]
  note r = r [THEN tr_step, OF lock [of _ 2 None], simplified]
  note r = r [THEN tr_step, OF wait [of _ 2 None], simplified]
  note r = r [THEN tr_step, OF created [of _ 1 "''a''"], simplified]
  note r = r [THEN tr_step, OF read_back [of _ 1 False], simplified]
  note r = r [THEN tr_step, OF relock [of _ 1 "''a''" False], simplified]
  note r = r [THEN tr_step, OF set_state [of _ 1 "''a''" False], simplified]
  note r = r [THEN tr_step, OF broadcast [of _ 1 "''a''" False], simplified]
  note r = r [THEN tr_step, OF leave [of _ 1 "''a''" False], simplified]
  show ?thesis by (rule exI, rule conjI, rule r) simp
qed



text \<open>
  C8: Every call of \<open>getToken\<close> returns.  Without new calls no schedule runs inside of
  \<open>getToken\<close> for ever, whether creations succeed or fail, and as long as the certificate can be
  verified a state in which no goroutine can step has none inside: no wake-up is lost.
\<close>

theorem getToken_calls_return:
  assumes "token_reachable False t"
  shows "\<not> (\<exists>f. f 0 = t \<and> (\<forall>k. token_inner (f k) (f (Suc k)))) \<and>
    ((\<forall>j. \<not> token_can_step j t) \<longrightarrow> (\<forall>i. outside (tPc t i)))"
  using no_infinite_run [OF assms] token_progress [OF token_inv_reachable [OF assms]] by blast

lemma getToken_calls_return_witness:
  "\<exists>t. token_reachable False t \<and> tPc t 2 = TWoken None \<and> (\<exists>j. token_can_step j t)"
proof -
  obtain t where t: "token_reachable False t" "tPc t 2 = TWoken None" using two_callers by blast
  then have "\<not> outside (tPc t 2)" by simp
  then have "\<exists>j. token_can_step j t" using getToken_calls_return [OF t(1)] by blast
  with t show ?thesis by blast
qed

text \<open>
  C34: A certificate that cannot be verified breaks the creation of sessions.  Its failure sets the
  state of the token while another request creates a session, so that a third one creates a second
  session at the same time; when that fails, the first one returns the empty session without an
  error, which the appliance has never made, and the token is valid with it.
\<close>

theorem cert_failure_loses_session:
  "\<exists>t. token_reachable True t \<and> tPc t 1 = TDone [] False \<and> [] \<notin> tCreated t \<and>
     tState t = zfssaTokenValid \<and> tSession t = []"
proof -
  note r = tr_start [of True, THEN tr_call, OF call [of _ 3 None], simplified token_start_def, simplified]
  note r = r [THEN tr_step, OF lock [of _ 3 None], simplified]
  note r = r [THEN tr_step, OF invalid [of _ 3 None], simplified]
  note r = r [THEN tr_step, OF unlock [of _ 3], simplified]
  note r = r [THEN tr_step, OF created [of _ 3 "''a''"], simplified]
  note r = r [THEN tr_step, OF read_back [of _ 3 False], simplified]
  note r = r [THEN tr_step, OF relock [of _ 3 "''a''" False], simplified]
  note r = r [THEN tr_step, OF set_state [of _ 3 "''a''" False], simplified]
  note r = r [THEN tr_step, OF broadcast [of _ 3 "''a''" False], simplified]
  note r = r [THEN tr_step, OF leave [of _ 3 "''a''" False], simplified]
  note r = r [THEN tr_call, OF call [of _ 1 "Some ''a''"], simplified]
  note r = r [THEN tr_step, OF lock [of _ 1 "Some ''a''"], simplified]
  note r = r [THEN tr_step, OF stale [of _ 1 "Some ''a''"], simplified]
  note r = r [THEN tr_step, OF invalid [of _ 1 "Some ''a''"], simplified]
  note r = r [THEN tr_step, OF unlock [of _ 1], simplified]
  note r = tr_cert [OF TrueI r cert_fails [of _ 3 "''a''"], simplified]
  note r = r [THEN tr_call, OF call [of _ 2 None], simplified]
  note r = r [THEN tr_step, OF lock [of _ 2 None], simplified]
  note r = r [THEN tr_step, OF invalid [of _ 2 None], simplified]
  note r = r [THEN tr_step, OF unlock [of _ 2], simplified]
  note r = r [THEN tr_step, OF created [of _ 1 "''b''"], simplified]
  note r = r [THEN tr_step, OF create_fails [of _ 2], simplified]
  note r = r [THEN tr_step, OF read_back [of _ 1 False], simplified]
  note r = r [THEN tr_step, OF relock [of _ 1 "[]" False], simplified]
  note r = r [THEN tr_step, OF set_state [of _ 1 "[]" False], simplified]
  note r = r [THEN tr_step, OF broadcast [of _ 1 "[]" False], simplified]
  note r = r [THEN tr_step, OF leave [of _ 1 "[]" False], simplified]
  show ?thesis by (rule exI, rule conjI, rule r) simp
qed

end
