(* ===== verification/Server.thy ===== *)
theory Server
  imports Startup
begin

text \<open>
  \<open>nonBlockingGRPCServer\<close> (\<open>service.go\<close>) and \<open>main.go\<close>: the goroutine of \<open>Run\<close>, which starts the
  server, waits for a termination signal and stops the server, and the goroutine of \<open>serve\<close>, as a
  step relation.  The gRPC library is a parameter only in what it may do: listening may fail,
  \<open>Serve\<close> may end at any time, and \<open>GracefulStop\<close> on the nil server is a nil dereference.
\<close>

section \<open>The two goroutines\<close>

datatype main_pc = MStart | MWait | MStop | MDone | MRemove | MExit | MPanic

datatype serve_pc = SNone | SListen | SNewServer | SServing | SReturned

record grpc_state =
  gMain :: main_pc
  gServe :: serve_pc
  gWg :: int           \<comment> \<open>\<open>s.wg\<close>\<close>
  gServer :: bool      \<comment> \<open>\<open>s.server\<close> is set\<close>
  gStopping :: bool
  gRequests :: nat     \<comment> \<open>requests served\<close>

definition grpc_start :: grpc_state where
  "grpc_start = \<lparr>gMain = MStart, gServe = SNone, gWg = 0, gServer = False, gStopping = False, gRequests = 0\<rparr>"

text \<open>The process ends with the goroutine of \<open>Run\<close>, or when that panics.\<close>

definition process_runs :: "grpc_state \<Rightarrow> bool" where
  "process_runs g \<longleftrightarrow> gMain g \<noteq> MExit \<and> gMain g \<noteq> MPanic"

inductive run_step :: "grpc_state \<Rightarrow> grpc_state \<Rightarrow> bool" where
  start: "gMain g = MStart \<Longrightarrow> run_step g (g\<lparr>gMain := MWait, gWg := gWg g + 1, gServe := SListen\<rparr>)"
| wait_end: "gMain g = MWait \<Longrightarrow> sig \<in> set sigList \<Longrightarrow> run_step g (g\<lparr>gMain := MStop\<rparr>)"
| stop: "gMain g = MStop \<Longrightarrow> gServer g \<Longrightarrow> run_step g (g\<lparr>gMain := MDone, gStopping := True\<rparr>)"
| stop_nil: "gMain g = MStop \<Longrightarrow> \<not> gServer g \<Longrightarrow> run_step g (g\<lparr>gMain := MPanic\<rparr>)"
| wg_done: "gMain g = MDone \<Longrightarrow> run_step g (g\<lparr>gMain := MRemove, gWg := gWg g - 1\<rparr>)"
| remove: "gMain g = MRemove \<Longrightarrow> run_step g (g\<lparr>gMain := MExit\<rparr>)"

inductive serve_step :: "grpc_state \<Rightarrow> grpc_state \<Rightarrow> bool" where
  listen_fails: "gServe g = SListen \<Longrightarrow> serve_step g (g\<lparr>gServe := SReturned\<rparr>)"
| listens: "gServe g = SListen \<Longrightarrow> serve_step g (g\<lparr>gServe := SNewServer\<rparr>)"
| new_server: "gServe g = SNewServer \<Longrightarrow> serve_step g (g\<lparr>gServe := SServing, gServer := True\<rparr>)"
| request: "gServe g = SServing \<Longrightarrow> \<not> gStopping g \<Longrightarrow> serve_step g (g\<lparr>gRequests := Suc (gRequests g)\<rparr>)"
| serve_ends: "gServe g = SServing \<Longrightarrow> serve_step g (g\<lparr>gServe := SReturned\<rparr>)"

inductive grpc_step :: "grpc_state \<Rightarrow> grpc_state \<Rightarrow> bool" where
  of_run: "process_runs g \<Longrightarrow> run_step g g' \<Longrightarrow> grpc_step g g'"
| of_serve: "process_runs g \<Longrightarrow> serve_step g g' \<Longrightarrow> grpc_step g g'"

inductive grpc_reachable :: "grpc_state \<Rightarrow> bool" where
  gr_start: "grpc_reachable grpc_start"
| gr_step: "grpc_reachable g \<Longrightarrow> grpc_step g g' \<Longrightarrow> grpc_reachable g'"

section \<open>The main program\<close>

text \<open>The exit code is 1 whatever happened.\<close>

definition main_program ::
  "'w env \<Rightarrow> 'w os \<Rightarrow> string \<Rightarrow> (nat \<times> csi_request) list \<Rightarrow> (('w, 'b) zfssa_driver_scheme, int) go" where
  "main_program env os driverName requests =
     bindG (NewZFSSADriver env os driverName ''1.2.0'') (\<lambda>err. case err of
       Some _ \<Rightarrow> retG 1
     | None \<Rightarrow> seqG (Run env os requests) (retG 1))"

section \<open>Invariants\<close>

inductive_cases run_stepE: "run_step g g'"
inductive_cases serve_stepE: "serve_step g g'"
inductive_cases grpc_stepE: "grpc_step g g'"

text \<open>The counter of the wait group counts the server between its start and its stop.\<close>

definition grpc_inv :: "grpc_state \<Rightarrow> bool" where
  "grpc_inv g \<longleftrightarrow> gWg g = of_bool (gMain g \<in> {MWait, MStop, MDone, MPanic}) \<and>
     (gMain g = MStart \<longleftrightarrow> gServe g = SNone) \<and> (gServe g = SServing \<longrightarrow> gServer g) \<and>
     (gMain g \<in> {MDone, MRemove, MExit} \<longrightarrow> gServer g) \<and> (gMain g \<in> {MDone, MRemove, MExit} \<longleftrightarrow> gStopping g) \<and>
     (gServe g \<in> {SNone, SListen, SNewServer} \<longrightarrow> \<not> gServer g) \<and> (gRequests g \<noteq> 0 \<longrightarrow> gServer g)"

lemma grpc_inv_step: "grpc_step g g' \<Longrightarrow> grpc_inv g \<Longrightarrow> grpc_inv g'"
  by (erule grpc_stepE; erule run_stepE serve_stepE) (auto simp: grpc_inv_def)

lemma grpc_inv_reachable: "grpc_reachable g \<Longrightarrow> grpc_inv g"
  by (induction rule: grpc_reachable.induct) (simp add: grpc_inv_def grpc_start_def, erule (1) grpc_inv_step)

text \<open>A server that could not listen never comes back.\<close>

definition dead_server :: "grpc_state \<Rightarrow> bool" where
  "dead_server g \<longleftrightarrow> gServe g = SReturned \<and> \<not> gServer g \<and> gRequests g = 0 \<and> gMain g \<in> {MWait, MStop, MPanic}"

lemma dead_server_step: "grpc_step g g' \<Longrightarrow> dead_server g \<Longrightarrow> dead_server g'"
  by (erule grpc_stepE; erule run_stepE serve_stepE) (auto simp: dead_server_def)

lemma dead_server_run: "grpc_step\<^sup>*\<^sup>* g g' \<Longrightarrow> dead_server g \<Longrightarrow> dead_server g'"
  by (induction rule: rtranclp_induct) (auto intro: dead_server_step)

section \<open>Properties\<close>

lemma stop_crashes:
  assumes "gMain g \<in> {MWait, MStop, MPanic}" "\<not> gServer g"
  shows "\<exists>h. grpc_step\<^sup>*\<^sup>* g h \<and> gMain h = MPanic"
proof -
  have stop: "\<exists>h. grpc_step\<^sup>*\<^sup>* g h \<and> gMain h = MPanic" if "gMain g = MStop" "\<not> gServer g" for g
  proof -
    have "grpc_step g (g\<lparr>gMain := MPanic\<rparr>)"
      using that by (intro of_run stop_nil) (simp_all add: process_runs_def)
    then have "grpc_step\<^sup>*\<^sup>* g (g\<lparr>gMain := MPanic\<rparr>)" by (rule r_into_rtranclp)
    then show ?thesis by (intro exI [of _ "g\<lparr>gMain := MPanic\<rparr>"]) simp
  qed
  show ?thesis
  proof (cases "gMain g = MWait")
    case True
    then have "grpc_step g (g\<lparr>gMain := MStop\<rparr>)"
      by (intro of_run wait_end [of _ SIGTERM]) (simp_all add: process_runs_def sigList_def)
    moreover obtain h where "grpc_step\<^sup>*\<^sup>* (g\<lparr>gMain := MStop\<rparr>) h" "gMain h = MPanic"
      using stop [of "g\<lparr>gMain := MStop\<rparr>"] assms(2) by auto
    ultimately show ?thesis by (blast intro: converse_rtranclp_into_rtranclp)
  next
    case False
    with assms stop show ?thesis by blast
  qed
qed

text \<open>A server that serves can be stopped.\<close>

lemma server_can_stop:
  assumes "grpc_reachable g" "gMain g = MWait" "gServer g"
  shows "\<exists>h. grpc_step\<^sup>*\<^sup>* g h \<and> gMain h = MExit \<and> gWg h = 0"
proof -
  let ?g1 = "g\<lparr>gMain := MStop\<rparr>"
  let ?g2 = "?g1\<lparr>gMain := MDone, gStopping := True\<rparr>"
  let ?g3 = "?g2\<lparr>gMain := MRemove, gWg := gWg ?g2 - 1\<rparr>"
  let ?g4 = "?g3\<lparr>gMain := MExit\<rparr>"
  have steps: "grpc_step g ?g1" "grpc_step ?g1 ?g2" "grpc_step ?g2 ?g3" "grpc_step ?g3 ?g4"
    using assms(2,3) by (intro of_run wait_end [of _ SIGTERM] stop wg_done remove;
      simp add: process_runs_def sigList_def)+
  have "grpc_step\<^sup>*\<^sup>* g ?g4"
    by (rule converse_rtranclp_into_rtranclp, rule steps(1), rule converse_rtranclp_into_rtranclp, rule steps(2),
        rule converse_rtranclp_into_rtranclp, rule steps(3), rule r_into_rtranclp, rule steps(4))
  moreover have "gWg g = 1" using grpc_inv_reachable [OF assms(1)] assms(2) by (simp add: grpc_inv_def)
  ultimately show ?thesis by (intro exI [of _ ?g4]) simp
qed

text \<open>
  C36: A driver that cannot listen on its socket never serves a request and never ends in order.
  From the failure on, whatever happens, no request is served and the main program does not reach
  its exit; all that is left to it is the termination signal, which crashes it, since \<open>Stop\<close> uses
  the server that \<open>serve\<close> has not made.
\<close>

theorem failed_listen_ends_in_panic:
  assumes "grpc_reachable g" "process_runs g" "gServe g = SListen"
    "grpc_step\<^sup>*\<^sup>* (g\<lparr>gServe := SReturned\<rparr>) h"
  shows "grpc_step g (g\<lparr>gServe := SReturned\<rparr>) \<and> gRequests h = 0 \<and> gMain h \<noteq> MExit \<and>
    (\<exists>h'. grpc_step\<^sup>*\<^sup>* h h' \<and> gMain h' = MPanic)"
proof -
  have inv: "grpc_inv g" by (rule grpc_inv_reachable [OF assms(1)])
  have step: "grpc_step g (g\<lparr>gServe := SReturned\<rparr>)"
    using assms(2,3) by (intro of_serve listen_fails)
  have "gMain g \<noteq> MStart" "gMain g \<notin> {MDone, MRemove, MExit}"
    using inv assms(3) unfolding grpc_inv_def by auto
  then have "dead_server (g\<lparr>gServe := SReturned\<rparr>)"
    using inv assms(3) by (cases "gMain g") (auto simp: dead_server_def grpc_inv_def)
  then have dead: "dead_server h" by (rule dead_server_run [OF assms(4)])
  then have "\<exists>h'. grpc_step\<^sup>*\<^sup>* h h' \<and> gMain h' = MPanic"
    unfolding dead_server_def by (intro stop_crashes) blast+
  with step dead show ?thesis unfolding dead_server_def by auto
qed

lemma failed_listen_ends_in_panic_witness:
  "\<exists>h. grpc_reachable h \<and> gMain h = MPanic \<and> gRequests h = 0"
proof -
  let ?g = "grpc_start\<lparr>gMain := MWait, gWg := gWg grpc_start + 1, gServe := SListen\<rparr>"
  have "grpc_step grpc_start ?g"
    by (intro of_run start) (simp_all add: process_runs_def grpc_start_def)
  then have g: "grpc_reachable ?g" by (rule gr_step [OF gr_start])
  have runs: "process_runs ?g" by (simp add: process_runs_def)
  from failed_listen_ends_in_panic [OF g runs _ rtranclp.rtrancl_refl]
  obtain h where step: "grpc_step ?g (?g\<lparr>gServe := SReturned\<rparr>)"
    and h: "grpc_step\<^sup>*\<^sup>* (?g\<lparr>gServe := SReturned\<rparr>) h" "gMain h = MPanic" by auto
  have "gRequests h = 0" using failed_listen_ends_in_panic [OF g runs _ h(1)] by simp
  moreover have "grpc_reachable h"
    using h(1) gr_step [OF g step] by (induction rule: rtranclp_induct) (auto intro: gr_step)
  ultimately show ?thesis using h(2) by blast
qed

end
