(* ===== verification/Logging.thy ===== *)
theory Logging
  imports GoStrings "HOL-Library.Word"
begin

text \<open>
  \<open>log_utils.go\<close>: the loggers of the driver and of each request.  A logger is its prefix; what
  it prints goes to the standard output and is left out.  The loggers of a request are an array
  behind a pointer that the context carries; it is filled as the loggers are asked for.
\<close>

section \<open>State\<close>

datatype log_service = CSID | CTRL | NODE | IDTY | REST | UTIL

definition MAX_LEVEL :: nat where "MAX_LEVEL = 5"

datatype logger = Stdout string | Discard

record zLogger =
  lgPrefix :: string
  lgLogger :: "logger option list"

text \<open>\<open>logHeap\<close> holds the arrays of the contexts.\<close>

record log_state =
  reqCounter :: "64 word"
  logLevelStr :: string
  logLevel :: int
  loggersPrefix :: "log_service \<Rightarrow> string"
  loggersTable :: "logger option list"
  loggerNOP :: "logger option"
  logHeap :: "nat \<Rightarrow> (log_service \<Rightarrow> zLogger) option"
  logNext :: nat

text \<open>A context: nil, or with the loggers it carries, if any.\<close>

datatype log_context = NilContext | AContext "nat option"

section \<open>Operations\<close>

text \<open>
  \<open>strconv.Atoi\<close> with its error dropped: the value is 0 on a syntax error and the nearest
  64-bit integer when the digits do not fit.
\<close>

definition Atoi_value :: "string \<Rightarrow> int" where
  "Atoi_value s = (let neg = (s \<noteq> [] \<and> hd s = CHR ''-'');
       ds = (if s \<noteq> [] \<and> (hd s = CHR ''-'' \<or> hd s = CHR ''+'') then tl s else s)
     in if ds = [] then 0
        else case digits_val 0 ds of None \<Rightarrow> 0
        | Some v \<Rightarrow> if neg then max (- (2 ^ 63)) (- int v) else min (2 ^ 63 - 1) (int v))"

definition InitLogs ::
  "string \<Rightarrow> string \<Rightarrow> string \<Rightarrow> string \<Rightarrow> ('b log_state_scheme, unit) go" where
  "InitLogs level driverName version nodeID =
     (let p = nodeID @ ''/'' @ driverName @ ''/'' @ version @ [CHR 0x0A, CHR 0x09] in
      modG (\<lambda>s. s\<lparr>logLevelStr := level, logLevel := Atoi_value level, reqCounter := 0, loggersPrefix := (\<lambda>_. p),
        loggersTable := replicate MAX_LEVEL (Some (Stdout (p @ ''***  ''))),
        loggerNOP := Some Discard\<rparr>))"

definition GetNewContext :: "log_context \<Rightarrow> ('b log_state_scheme, log_context) go" where
  "GetNewContext ctx =
     seqG (modG (\<lambda>s. s\<lparr>reqCounter := reqCounter s + 1\<rparr>))
     (bindG (getG (\<lambda>s. (logNext s, reqCounter s, loggersPrefix s))) (\<lambda>(l, reqNum, prefixes).
      seqG (modG (\<lambda>s. s\<lparr>logNext := Suc l, logHeap := (logHeap s)(l \<mapsto> (\<lambda>i.
        \<lparr>lgPrefix = prefixes i @ nat_digits (unat reqNum) @ ''  '', lgLogger = replicate MAX_LEVEL None\<rparr>))\<rparr>))
      (if ctx = NilContext then panicG ''cannot create context from nil parent''
       else retG (AContext (Some l)))))"

definition getLogger :: "log_context \<Rightarrow> log_service \<Rightarrow> int \<Rightarrow> ('b log_state_scheme, logger option) go" where
  "getLogger ctx sel level =
     bindG (getG logLevel) (\<lambda>maxLevel.
     if level > maxLevel then getG loggerNOP
     else let k = level - 1 in
     case ctx of
       AContext None \<Rightarrow> panicG ''interface conversion: interface is nil''
     | AContext (Some l) \<Rightarrow>
         bindG (derefG (\<lambda>s. logHeap s l)) (\<lambda>loggers.
         let zl = loggers sel in
         if k < 0 \<or> int (length (lgLogger zl)) \<le> k then panicG ''index out of range''
         else case lgLogger zl ! nat k of
           None \<Rightarrow>
             (let new = Some (Stdout (lgPrefix zl)) in
              seqG (modG (\<lambda>s. s\<lparr>logHeap := (logHeap s)(l \<mapsto>
                loggers(sel := zl\<lparr>lgLogger := (lgLogger zl)[nat k := new]\<rparr>))\<rparr>))
              (retG new))
         | Some lg \<Rightarrow> retG (Some lg))
     | NilContext \<Rightarrow>
         bindG (getG loggersTable) (\<lambda>table.
         if k < 0 \<or> int (length table) \<le> k then panicG ''index out of range''
         else retG (table ! nat k)))"

definition GetLogCSID :: "log_context \<Rightarrow> int \<Rightarrow> ('b log_state_scheme, logger option) go" where
  "GetLogCSID ctx level = getLogger ctx CSID level"
definition GetLogCTRL :: "log_context \<Rightarrow> int \<Rightarrow> ('b log_state_scheme, logger option) go" where
  "GetLogCTRL ctx level = getLogger ctx CTRL level"
definition GetLogNODE :: "log_context \<Rightarrow> int \<Rightarrow> ('b log_state_scheme, logger option) go" where
  "GetLogNODE ctx level = getLogger ctx NODE level"
definition GetLogIDTY :: "log_context \<Rightarrow> int \<Rightarrow> ('b log_state_scheme, logger option) go" where
  "GetLogIDTY ctx level = getLogger ctx IDTY level"
definition GetLogREST :: "log_context \<Rightarrow> int \<Rightarrow> ('b log_state_scheme, logger option) go" where
  "GetLogREST ctx level = getLogger ctx REST level"
definition GetLogUTIL :: "log_context \<Rightarrow> int \<Rightarrow> ('b log_state_scheme, logger option) go" where
  "GetLogUTIL ctx level = getLogger ctx UTIL level"

text \<open>
  \<open>interceptorGRPC\<close> (\<open>service.go\<close>): each request has a context of its own; the printing of a
  nil logger panics, and what is printed is left out.
\<close>

definition Println :: "logger option \<Rightarrow> ('s, unit) go" where
  "Println lg = (case lg of None \<Rightarrow> panicG ''nil pointer dereference'' | Some _ \<Rightarrow> retG ())"

definition interceptorGRPC ::
  "log_context \<Rightarrow> (log_context \<Rightarrow> ('b log_state_scheme, 'r) go) \<Rightarrow> ('b log_state_scheme, 'r) go" where
  "interceptorGRPC ctx handler =
     bindG (GetNewContext ctx) (\<lambda>newContext.
     seqG (bindG (GetLogCSID newContext 4) Println)
     (bindG (handler newContext) (\<lambda>rsp.
      seqG (bindG (GetLogCSID newContext 4) Println)
      (retG rsp))))"

section \<open>Loggers are there\<close>

text \<open>The tables have their length, and the context belongs to a request.\<close>

definition logs_ready :: "'b log_state_scheme \<Rightarrow> bool" where
  "logs_ready s \<longleftrightarrow> (\<exists>t. loggersTable s = replicate MAX_LEVEL (Some t)) \<and> loggerNOP s = Some Discard \<and>
     (\<forall>l ls i. logHeap s l = Some ls \<longrightarrow> length (lgLogger (ls i)) = MAX_LEVEL)"

fun known_context :: "log_context \<Rightarrow> 'b log_state_scheme \<Rightarrow> bool" where
  "known_context NilContext s = True"
| "known_context (AContext None) s = False"
| "known_context (AContext (Some l)) s = (logHeap s l \<noteq> None)"

lemma logs_ready_InitLogs:
  "logHeap s = Map.empty \<Longrightarrow> logs_ready (snd (InitLogs level driverName version nodeID s))"
  by (simp add: InitLogs_def Let_def logs_ready_def)

lemma GetNewContext_known:
  assumes "logs_ready s" "GetNewContext ctx s = (Done c, s')"
  shows "logs_ready s' \<and> known_context c s'"
  using assms by (auto simp: GetNewContext_def logs_ready_def split: if_splits)

text \<open>A logger that is asked for again is the same one, and it is never nil.\<close>

lemma getLogger_stays:
  assumes "logs_ready s" "known_context ctx s" "1 \<le> level" "level \<le> int MAX_LEVEL"
  shows "\<exists>lg s'. getLogger ctx sel level s = (Done (Some lg), s') \<and>
    getLogger ctx sel level s' = (Done (Some lg), s') \<and> logs_ready s' \<and> known_context ctx s'"
proof (cases "level > logLevel s")
  case True
  then show ?thesis using assms(1,2) by (auto simp: getLogger_def logs_ready_def)
next
  case low: False
  let ?k = "nat (level - 1)"
  have k: "\<not> level - 1 < 0" "?k < MAX_LEVEL" "\<not> int MAX_LEVEL \<le> level - 1" using assms(3,4) by auto
  show ?thesis
  proof (cases ctx)
    case NilContext
    then show ?thesis using low k assms(1) by (auto simp: getLogger_def logs_ready_def Let_def)
  next
    case (AContext l)
    with assms(2) obtain l' ls where l: "l = Some l'" "logHeap s l' = Some ls" by (cases l) auto
    then have len: "length (lgLogger (ls i)) = MAX_LEVEL" for i using assms(1) by (simp add: logs_ready_def)
    show ?thesis
      using low k assms(1) AContext l len
      by (cases "lgLogger (ls sel) ! ?k") (auto simp: getLogger_def logs_ready_def Let_def)
  qed
qed

text \<open>What is logged for a request, in a prefix of the loggers of its context.\<close>

fun context_prefix :: "'b log_state_scheme \<Rightarrow> log_service \<Rightarrow> log_context \<Rightarrow> string" where
  "context_prefix s sel (AContext (Some l)) = (case logHeap s l of None \<Rightarrow> [] | Some ls \<Rightarrow> lgPrefix (ls sel))"
| "context_prefix s sel _ = []"

abbreviation number_prefix :: "'b log_state_scheme \<Rightarrow> log_service \<Rightarrow> 64 word \<Rightarrow> string" where
  "number_prefix s sel n \<equiv> loggersPrefix s sel @ nat_digits (unat n) @ ''  ''"

lemma GetNewContext_result:
  assumes "ctx \<noteq> NilContext"
  shows "\<exists>s'. GetNewContext ctx s = (Done (AContext (Some (logNext s))), s') \<and>
    reqCounter s' = reqCounter s + 1 \<and> loggersPrefix s' = loggersPrefix s \<and> logNext s' = Suc (logNext s) \<and>
    context_prefix s' sel (AContext (Some (logNext s))) = number_prefix s sel (reqCounter s + 1) \<and>
    (\<forall>l < logNext s. logHeap s' l = logHeap s l)"
  using assms by (simp add: GetNewContext_def)

lemma new_contexts:
  assumes "NilContext \<notin> set ctxs"
  shows "\<exists>cs s'. mapG GetNewContext ctxs s = (Done cs, s') \<and>
    map (context_prefix s' sel) cs =
      map (\<lambda>k. number_prefix s sel (reqCounter s + 1 + of_nat k)) [0..<length ctxs] \<and>
    (\<forall>l < logNext s. logHeap s' l = logHeap s l)"
  using assms
proof (induction ctxs arbitrary: s)
  case (Cons ctx ctxs)
  obtain s1 where s1: "GetNewContext ctx s = (Done (AContext (Some (logNext s))), s1)"
    "reqCounter s1 = reqCounter s + 1" "loggersPrefix s1 = loggersPrefix s" "logNext s1 = Suc (logNext s)"
    "context_prefix s1 sel (AContext (Some (logNext s))) = number_prefix s sel (reqCounter s + 1)"
    "\<forall>l < logNext s. logHeap s1 l = logHeap s l"
    using GetNewContext_result [of ctx s sel] Cons.prems by auto
  obtain cs s' where s': "mapG GetNewContext ctxs s1 = (Done cs, s')"
    "map (context_prefix s' sel) cs =
      map (\<lambda>k. number_prefix s sel (reqCounter s + 1 + 1 + of_nat k)) [0..<length ctxs]"
    "\<forall>l < Suc (logNext s). logHeap s' l = logHeap s1 l"
    using Cons.IH [of s1] Cons.prems s1(2-4) by auto
  have "context_prefix s' sel (AContext (Some (logNext s))) = number_prefix s sel (reqCounter s + 1)"
    using s1(5) s'(3) by simp
  moreover have "map (\<lambda>k. number_prefix s sel (reqCounter s + 1 + of_nat k)) [0..<length (ctx # ctxs)] =
      number_prefix s sel (reqCounter s + 1) #
      map (\<lambda>k. number_prefix s sel (reqCounter s + 1 + 1 + of_nat k)) [0..<length ctxs]"
    by (simp add: map_upt_Suc ac_simps del: upt_Suc)
  ultimately show ?case using s1(1,6) s'(1,2,3) by simp
qed simp

lemma number_prefix_inj:
  assumes "number_prefix s sel (n + of_nat k) = number_prefix s sel (n + of_nat k')" "k < 2 ^ 64" "k' < 2 ^ 64"
  shows "k = k'"
proof -
  from assms(1) have "nat_digits (unat (n + of_nat k)) = nat_digits (unat (n + of_nat k'))" by simp
  then have "unat (n + of_nat k) = unat (n + of_nat k')" using digits_val_nat_digits by (metis option.inject)
  then have "n + of_nat k = n + of_nat k'" by (rule word_unat_eq_iff [THEN iffD2])
  then have "(of_nat k :: 64 word) = of_nat k'" by simp
  then show "k = k'" using assms(2,3) by (simp add: word_of_nat_eq_iff take_bit_nat_eq_self)
qed

section \<open>Properties\<close>

definition demo_logs :: log_state where
  "demo_logs = \<lparr>reqCounter = 0, logLevelStr = [], logLevel = 0, loggersPrefix = (\<lambda>_. []), loggersTable = [],
     loggerNOP = None, logHeap = Map.empty, logNext = 0\<rparr>"

text \<open>
  Every request logs under its own number: as long as there are fewer than \<open>2 ^ 64\<close> requests,
  the contexts that \<open>GetNewContext\<close> makes for them have pairwise different prefixes, for the
  loggers of every service, and none of the later requests changes the prefix of an earlier one.
\<close>

theorem request_loggers_differ:
  assumes "NilContext \<notin> set ctxs" "length ctxs < 2 ^ 64" "mapG GetNewContext ctxs s = (Done cs, s')"
  shows "length cs = length ctxs \<and> distinct (map (context_prefix s' sel) cs)"
proof -
  have prefixes: "map (context_prefix s' sel) cs =
      map (\<lambda>k. number_prefix s sel (reqCounter s + 1 + of_nat k)) [0..<length ctxs]"
    using new_contexts [OF assms(1), of s sel] assms(3) by auto
  have "inj_on (\<lambda>k. number_prefix s sel (reqCounter s + 1 + of_nat k)) (set [0..<length ctxs])"
  proof (rule inj_onI)
    fix k k'
    assume "k \<in> set [0..<length ctxs]" "k' \<in> set [0..<length ctxs]"
      and eq: "number_prefix s sel (reqCounter s + 1 + of_nat k) = number_prefix s sel (reqCounter s + 1 + of_nat k')"
    then have "k < 2 ^ 64" "k' < 2 ^ 64" using assms(2) by auto
    with number_prefix_inj [OF eq] show "k = k'" by blast
  qed
  then have "distinct (map (context_prefix s' sel) cs)"
    unfolding prefixes distinct_map by (intro conjI distinct_upt)
  moreover have "length cs = length ctxs"
    using arg_cong [OF prefixes, of length] by (simp only: length_map length_upt diff_zero)
  ultimately show ?thesis by blast
qed

lemma request_loggers_differ_witness:
  "\<exists>cs s'. mapG GetNewContext [AContext None, AContext None] demo_logs = (Done cs, s') \<and>
     length cs = 2 \<and> distinct (map (context_prefix s' CTRL) cs)"
proof -
  obtain cs s' where run: "mapG GetNewContext [AContext None, AContext None] demo_logs = (Done cs, s')"
    using new_contexts [of "[AContext None, AContext None]" demo_logs CTRL] by auto
  from request_loggers_differ [OF _ _ run, of CTRL] run show ?thesis by simp
qed

end
