(* ===== verification/Schema.thy ===== *)
theory Schema
  imports RestApi
begin

text \<open>
  \<open>zfssa_schema.go\<close>: the calls for the custom properties of the appliance, which the driver
  does not use.  The decoders of the two answers are arguments.
\<close>

definition zProperties :: string where "zProperties = zAppliance @ ''/api/storage/v2/schema''"
definition zProperty :: string where "zProperty = zProperties @ ''/%s''"

record Schema =
  schType :: string
  schDescription :: string
  schProperty :: string
  schHref :: string

definition zero_Schema :: Schema where
  "zero_Schema = \<lparr>schType = [], schDescription = [], schProperty = [], schHref = []\<rparr>"

text \<open>The JSON object of a property; \<open>href\<close> is left out when it is empty.\<close>

definition schema_body :: "Schema \<Rightarrow> body" where
  "schema_body p = Body
     ((if schHref p = [] then Map.empty else [''href'' \<mapsto> JStr (schHref p)])
      (''type'' \<mapsto> JStr (schType p), ''description'' \<mapsto> JStr (schDescription p),
       ''property'' \<mapsto> JStr (schProperty p)))"

definition CreateProperty ::
  "'w env \<Rightarrow> (string \<Rightarrow> Schema option) \<Rightarrow> nat \<Rightarrow> Schema \<Rightarrow> (('w, 'b) rest_scheme, gerror + Schema) go" where
  "CreateProperty env dec t s =
     bindG (request env t ''POST'' zProperties [] (schema_body s) StatusCreated (unmarshal dec) zero_Schema)
       (\<lambda>r. retG (snd (answer r)))"

definition GetProperty ::
  "'w env \<Rightarrow> (string \<Rightarrow> Schema option) \<Rightarrow> nat \<Rightarrow> string \<Rightarrow> (('w, 'b) rest_scheme, gerror + Schema) go" where
  "GetProperty env dec t property =
     bindG (request env t ''GET'' zProperty [property] NoBody StatusOK (unmarshal dec) zero_Schema)
       (\<lambda>r. retG (snd (answer r)))"

definition GetSchema ::
  "'w env \<Rightarrow> (string \<Rightarrow> Schema list option) \<Rightarrow> nat \<Rightarrow> (('w, 'b) rest_scheme, gerror + Schema list) go" where
  "GetSchema env dec t =
     bindG (request env t ''GET'' zProperties [] NoBody StatusOK (unmarshal dec) []) (\<lambda>r. retG (snd (answer r)))"

text \<open>The calls go through \<open>MakeRequest\<close> alone, as every other call does.\<close>

lemma rest_op_schema [rest_ops]:
  "rest_op (CreateProperty env dec1 t s)" "rest_op (GetProperty env dec1 t property)"
  "rest_op (GetSchema env dec2 t)"
  unfolding CreateProperty_def GetProperty_def GetSchema_def by (intro rest_ops)+

end
