(* ===== verification/SnapProtocol.thy ===== *)
theory SnapProtocol
  imports CacheRefinement
begin

text \<open>
  The protocol of the snapshot cache under concurrent requests: \<open>lookupSnapshot\<close>, \<open>newSnapshot\<close>
  and \<open>releaseSnapshot\<close> (\<open>volumes.go\<close>) on top of the protocol of the volume cache.  A request
  may use two volumes: the one it works on itself, and the source of a snapshot, which
  \<open>lookupSnapshot\<close> and \<open>newSnapshot\<close> get first and \<open>releaseSnapshot\<close> gives back last; \<open>CreateVolume\<close>
  with a snapshot as its source has both.  The uses of request \<open>k\<close> are the goroutines \<open>outer k\<close>
  and \<open>inner k\<close> of \<open>CacheProtocol\<close>.
\<close>

section \<open>The state\<close>

definition outer :: "nat \<Rightarrow> nat" where "outer k = 2 * k"
definition inner :: "nat \<Rightarrow> nat" where "inner k = 2 * k + 1"

text \<open>
  Where a request is; first the names of the volume and of the snapshot it asks for, then the
  structure it refers to.
\<close>

datatype spc =
    SIdle
  | SLkVol string string   \<comment> \<open>\<open>lookupSnapshot\<close>: in \<open>lookupVolume\<close>\<close>
  | SLkWant string string  \<comment> \<open>at \<open>RLock\<close>\<close>
  | SLkGot string string
  | SLkHeld nat
  | SLkMiss string string
  | SLkBack string string
  | SLkDrop string string  \<comment> \<open>in \<open>releaseVolume\<close>, before \<open>newSnapshot\<close>\<close>
  | SNewVol string string  \<comment> \<open>\<open>newSnapshot\<close>: in \<open>lookupVolume\<close>\<close>
  | SNewWant string        \<comment> \<open>at \<open>Lock\<close>\<close>
  | SNewGot string
  | SNewHeld nat
  | SNewOther              \<comment> \<open>the snapshot has another source\<close>
  | SNewBack
  | SNewAdded nat
  | SNewWait nat           \<comment> \<open>at \<open>zsnap.lock\<close>, for a new structure\<close>
  | SWait nat              \<comment> \<open>at \<open>zsnap.lock\<close>\<close>
  | SCheck nat
  | SUse nat               \<comment> \<open>the caller has the snapshot\<close>
  | SRel nat               \<comment> \<open>\<open>releaseSnapshot\<close>: at \<open>RLock\<close>\<close>
  | SRelR nat
  | SRelSlow nat
  | SRelWant nat           \<comment> \<open>at \<open>Lock\<close>\<close>
  | SRelW nat
  | SRelW2 nat
  | SRelW3 nat
  | SRelFast nat
  | SRelFast2 nat
  | SDrop nat              \<comment> \<open>at \<open>releaseVolume\<close> of the source of the structure\<close>
  | SEnd                   \<comment> \<open>in \<open>releaseVolume\<close>\<close>

text \<open>\<open>sVolName\<close> is the name of the volume in the identifier of a snapshot.\<close>

record req_state =
  sVols :: cache_state
  sTable :: "string \<Rightarrow> nat option"
  sName :: "nat \<Rightarrow> string"
  sVolName :: "nat \<Rightarrow> string"
  sSource :: "nat \<Rightarrow> nat"
  sRef :: "nat \<Rightarrow> int"
  sSt :: "nat \<Rightarrow> volumeState"
  sBolt :: "nat \<Rightarrow> nat option"
  sNext :: nat
  sWriter :: "nat option"
  sReaders :: "nat set"
  sPc :: "nat \<Rightarrow> spc"
  crashed :: bool

definition req_start :: req_state where
  "req_start = \<lparr>sVols = cache_start, sTable = Map.empty, sName = (\<lambda>_. []), sVolName = (\<lambda>_. []),
     sSource = (\<lambda>_. 0), sRef = (\<lambda>_. 0), sSt = (\<lambda>_. stateCreating), sBolt = (\<lambda>_. None), sNext = 0,
     sWriter = None, sReaders = {}, sPc = (\<lambda>_. SIdle), crashed = False\<rparr>"

section \<open>The steps\<close>

abbreviation opc :: "req_state \<Rightarrow> nat \<Rightarrow> cpc" where "opc w k \<equiv> cPc (sVols w) (outer k)"
abbreviation ipc :: "req_state \<Rightarrow> nat \<Rightarrow> cpc" where "ipc w k \<equiv> cPc (sVols w) (inner k)"

abbreviation goes :: "req_state \<Rightarrow> nat \<Rightarrow> spc \<Rightarrow> req_state" where
  "goes w k p \<equiv> w\<lparr>sPc := (sPc w)(k := p)\<rparr>"

text \<open>The calls of \<open>lookupVolume\<close> and \<open>releaseVolume\<close> for the source, and their end.\<close>

abbreviation looking :: "nat \<Rightarrow> string \<Rightarrow> req_state \<Rightarrow> req_state" where
  "looking k n w \<equiv> w\<lparr>sVols := moveto (sVols w) (inner k) (LkWant n)\<rparr>"

abbreviation dropping :: "nat \<Rightarrow> nat \<Rightarrow> req_state \<Rightarrow> req_state" where
  "dropping k r w \<equiv> w\<lparr>sVols := moveto (sVols w) (inner k) (Rel r)\<rparr>"

fun in_volume :: "spc \<Rightarrow> bool" where
  "in_volume (SLkVol _ _) = True" | "in_volume (SLkDrop _ _) = True" | "in_volume (SNewVol _ _) = True"
| "in_volume SEnd = True" | "in_volume _ = False"

abbreviation addCount :: "nat \<Rightarrow> int \<Rightarrow> req_state \<Rightarrow> req_state" where
  "addCount z n w \<equiv> w\<lparr>sRef := (sRef w)(z := sRef w z + n)\<rparr>"

abbreviation setBoltS :: "nat \<Rightarrow> nat option \<Rightarrow> req_state \<Rightarrow> req_state" where
  "setBoltS z b w \<equiv> w\<lparr>sBolt := (sBolt w)(z := b)\<rparr>"

abbreviation readingS :: "nat \<Rightarrow> req_state \<Rightarrow> req_state" where
  "readingS k w \<equiv> w\<lparr>sReaders := insert k (sReaders w)\<rparr>"

abbreviation unreadingS :: "nat \<Rightarrow> req_state \<Rightarrow> req_state" where
  "unreadingS k w \<equiv> w\<lparr>sReaders := sReaders w - {k}\<rparr>"

text \<open>
  \<open>fresh_snapshot m r w\<close>: a new structure for the snapshot \<open>m\<close> of the volume structure \<open>r\<close>, held,
  in the table.
\<close>

definition fresh_snapshot :: "string \<Rightarrow> nat \<Rightarrow> req_state \<Rightarrow> req_state" where
  "fresh_snapshot m r w = w\<lparr>sTable := (sTable w)(m \<mapsto> sNext w), sName := (sName w)(sNext w := m),
     sVolName := (sVolName w)(sNext w := cName (sVols w) r), sSource := (sSource w)(sNext w := r),
     sRef := (sRef w)(sNext w := 1), sSt := (sSt w)(sNext w := stateCreating),
     sBolt := (sBolt w)(sNext w := None), sNext := Suc (sNext w)\<rparr>"

text \<open>
  \<open>newSnapshot\<close> compares whole identifiers, of which the model keeps the name of the volume: equal
  ones have the same name, different ones may have it.  A panic ends the process; the one at the
  end of \<open>releaseSnapshot\<close> is that of \<open>Unlock\<close>, as shown below (\<open>stale_source_unlocked\<close>).
\<close>

inductive req_step :: "nat \<Rightarrow> req_state \<Rightarrow> req_state \<Rightarrow> bool" where
  own_volume: "sPc w k = SIdle \<Longrightarrow> cache_step (outer k) (sVols w) v \<Longrightarrow> req_step k w (w\<lparr>sVols := v\<rparr>)"
| source_volume: "in_volume (sPc w k) \<Longrightarrow> ipc w k \<noteq> Idle \<Longrightarrow> cache_step (inner k) (sVols w) v \<Longrightarrow>
    req_step k w (w\<lparr>sVols := v\<rparr>)"
| call_lookupSnapshot: "sPc w k = SIdle \<Longrightarrow> opc w k = Idle \<Longrightarrow> req_step k w (goes (looking k n w) k (SLkVol n m))"
| call_clone: "sPc w k = SIdle \<Longrightarrow> opc w k = Using q \<Longrightarrow> req_step k w (goes (looking k n w) k (SLkVol n m))"
| call_newSnapshot: "sPc w k = SIdle \<Longrightarrow> opc w k = Idle \<Longrightarrow> req_step k w (goes (looking k n w) k (SNewVol n m))"
| slk_failed: "sPc w k = SLkVol n m \<Longrightarrow> ipc w k = Idle \<Longrightarrow> req_step k w (goes w k SIdle)"
| slk_volume: "sPc w k = SLkVol n m \<Longrightarrow> ipc w k = Using r \<Longrightarrow> req_step k w (goes w k (SLkWant n m))"
| slk_rlock: "sPc w k = SLkWant n m \<Longrightarrow> sWriter w = None \<Longrightarrow> req_step k w (goes (readingS k w) k (SLkGot n m))"
| slk_stale: "sPc w k = SLkGot n m \<Longrightarrow> sTable w m = Some z \<Longrightarrow> ipc w k = Using r \<Longrightarrow> sSource w z \<noteq> r \<Longrightarrow>
    req_step k w (w\<lparr>crashed := True\<rparr>)"
| slk_hold: "sPc w k = SLkGot n m \<Longrightarrow> sTable w m = Some z \<Longrightarrow> ipc w k = Using r \<Longrightarrow> sSource w z = r \<Longrightarrow>
    req_step k w (goes (addCount z 1 w) k (SLkHeld z))"
| slk_runlock: "sPc w k = SLkHeld z \<Longrightarrow> req_step k w (goes (unreadingS k w) k (SWait z))"
| slk_miss: "sPc w k = SLkGot n m \<Longrightarrow> sTable w m = None \<Longrightarrow> req_step k w (goes w k (SLkMiss n m))"
| slk_runlock_miss: "sPc w k = SLkMiss n m \<Longrightarrow> req_step k w (goes (unreadingS k w) k (SLkBack n m))"
| slk_drop: "sPc w k = SLkBack n m \<Longrightarrow> ipc w k = Using r \<Longrightarrow> req_step k w (goes (dropping k r w) k (SLkDrop n m))"
| slk_new: "sPc w k = SLkDrop n m \<Longrightarrow> ipc w k = Idle \<Longrightarrow> req_step k w (goes (looking k n w) k (SNewVol n m))"
| snew_failed: "sPc w k = SNewVol n m \<Longrightarrow> ipc w k = Idle \<Longrightarrow> req_step k w (goes w k SIdle)"
| snew_volume: "sPc w k = SNewVol n m \<Longrightarrow> ipc w k = Using r \<Longrightarrow> req_step k w (goes w k (SNewWant m))"
| snew_lock: "sPc w k = SNewWant m \<Longrightarrow> sWriter w = None \<Longrightarrow> sReaders w = {} \<Longrightarrow>
    req_step k w (goes (w\<lparr>sWriter := Some k\<rparr>) k (SNewGot m))"
| snew_add: "sPc w k = SNewGot m \<Longrightarrow> sTable w m = None \<Longrightarrow> ipc w k = Using r \<Longrightarrow>
    req_step k w (goes (fresh_snapshot m r w) k (SNewAdded (sNext w)))"
| snew_unlock: "sPc w k = SNewAdded z \<Longrightarrow> req_step k w (goes (w\<lparr>sWriter := None\<rparr>) k (SNewWait z))"
| snew_bolt: "sPc w k = SNewWait z \<Longrightarrow> sBolt w z = None \<Longrightarrow> req_step k w (goes (setBoltS z (Some k) w) k (SUse z))"
| snew_other: "sPc w k = SNewGot m \<Longrightarrow> sTable w m = Some z \<Longrightarrow> req_step k w (goes w k SNewOther)"
| snew_unlock_other: "sPc w k = SNewOther \<Longrightarrow> req_step k w (goes (w\<lparr>sWriter := None\<rparr>) k SNewBack)"
| snew_drop: "sPc w k = SNewBack \<Longrightarrow> ipc w k = Using r \<Longrightarrow> req_step k w (goes (dropping k r w) k SEnd)"
| snew_hold: "sPc w k = SNewGot m \<Longrightarrow> sTable w m = Some z \<Longrightarrow> ipc w k = Using r \<Longrightarrow>
    sVolName w z = cName (sVols w) r \<Longrightarrow> req_step k w (goes (addCount z 1 w) k (SNewHeld z))"
| snew_unlock_held: "sPc w k = SNewHeld z \<Longrightarrow> req_step k w (goes (w\<lparr>sWriter := None\<rparr>) k (SWait z))"
| s_bolt: "sPc w k = SWait z \<Longrightarrow> sBolt w z = None \<Longrightarrow> req_step k w (goes (setBoltS z (Some k) w) k (SCheck z))"
| s_created: "sPc w k = SCheck z \<Longrightarrow> sSt w z = stateCreated \<Longrightarrow> req_step k w (goes w k (SUse z))"
| s_busy: "sPc w k = SCheck z \<Longrightarrow> sSt w z \<noteq> stateCreated \<Longrightarrow> req_step k w (goes w k (SRel z))"
| s_use: "sPc w k = SUse z \<Longrightarrow> req_step k w (w\<lparr>sSt := (sSt w)(z := st)\<rparr>)"
| clone_use: "sPc w k = SUse z \<Longrightarrow> opc w k = Using q \<Longrightarrow>
    req_step k w (w\<lparr>sVols := (sVols w)\<lparr>cSt := (cSt (sVols w))(q := st)\<rparr>\<rparr>)"
| s_finish: "sPc w k = SUse z \<Longrightarrow> req_step k w (goes w k (SRel z))"
| srel_rlock: "sPc w k = SRel z \<Longrightarrow> sWriter w = None \<Longrightarrow> req_step k w (goes (readingS k w) k (SRelR z))"
| srel_last: "sPc w k = SRelR z \<Longrightarrow> sRef w z = 1 \<Longrightarrow> sSt w z \<noteq> stateCreated \<Longrightarrow>
    req_step k w (goes (addCount z (- 1) w) k (SRelSlow z))"
| srel_other: "sPc w k = SRelR z \<Longrightarrow> sRef w z \<noteq> 1 \<or> sSt w z = stateCreated \<Longrightarrow>
    req_step k w (goes (addCount z (- 1) w) k (SRelFast z))"
| srel_runlock: "sPc w k = SRelSlow z \<Longrightarrow> req_step k w (goes (unreadingS k w) k (SRelWant z))"
| srel_lock: "sPc w k = SRelWant z \<Longrightarrow> sWriter w = None \<Longrightarrow> sReaders w = {} \<Longrightarrow>
    req_step k w (goes (w\<lparr>sWriter := Some k\<rparr>) k (SRelW z))"
| srel_unbolt: "sPc w k = SRelW z \<Longrightarrow> req_step k w (goes (setBoltS z None w) k (SRelW2 z))"
| srel_delete: "sPc w k = SRelW2 z \<Longrightarrow> sRef w z = 0 \<Longrightarrow> sSt w z \<noteq> stateCreated \<Longrightarrow>
    req_step k w (goes (w\<lparr>sTable := (sTable w)(sName w z := None)\<rparr>) k (SRelW3 z))"
| srel_keep: "sPc w k = SRelW2 z \<Longrightarrow> sRef w z \<noteq> 0 \<or> sSt w z = stateCreated \<Longrightarrow> req_step k w (goes w k (SRelW3 z))"
| srel_unlock: "sPc w k = SRelW3 z \<Longrightarrow> req_step k w (goes (w\<lparr>sWriter := None\<rparr>) k (SDrop z))"
| srel_runlock_fast: "sPc w k = SRelFast z \<Longrightarrow> req_step k w (goes (unreadingS k w) k (SRelFast2 z))"
| srel_unbolt_fast: "sPc w k = SRelFast2 z \<Longrightarrow> req_step k w (goes (setBoltS z None w) k (SDrop z))"
| s_drop: "sPc w k = SDrop z \<Longrightarrow> ipc w k = Using r \<Longrightarrow> sSource w z = r \<Longrightarrow>
    req_step k w (goes (dropping k r w) k SEnd)"
| s_drop_stale: "sPc w k = SDrop z \<Longrightarrow> ipc w k = Using r \<Longrightarrow> sSource w z \<noteq> r \<Longrightarrow>
    req_step k w (w\<lparr>crashed := True\<rparr>)"
| s_end: "sPc w k = SEnd \<Longrightarrow> ipc w k = Idle \<Longrightarrow> req_step k w (goes w k SIdle)"

inductive req_reachable :: "req_state \<Rightarrow> bool" where
  rr_start: "req_reachable req_start"
| rr_step: "req_reachable w \<Longrightarrow> \<not> crashed w \<Longrightarrow> req_step k w w' \<Longrightarrow> req_reachable w'"

section \<open>Classes of program points\<close>

fun has_readS :: "spc \<Rightarrow> bool" where
  "has_readS (SLkGot _ _) = True" | "has_readS (SLkHeld _) = True" | "has_readS (SLkMiss _ _) = True"
| "has_readS (SRelR _) = True" | "has_readS (SRelSlow _) = True" | "has_readS (SRelFast _) = True"
| "has_readS _ = False"

fun has_writeS :: "spc \<Rightarrow> bool" where
  "has_writeS (SNewGot _) = True" | "has_writeS (SNewHeld _) = True" | "has_writeS SNewOther = True"
| "has_writeS (SNewAdded _) = True" | "has_writeS (SRelW _) = True" | "has_writeS (SRelW2 _) = True"
| "has_writeS (SRelW3 _) = True" | "has_writeS _ = False"

text \<open>Before the lock of an existing structure.\<close>

fun arriving :: "nat \<Rightarrow> spc \<Rightarrow> bool" where
  "arriving z (SLkHeld x) = (x = z)" | "arriving z (SNewHeld x) = (x = z)" | "arriving z (SWait x) = (x = z)"
| "arriving z (SCheck x) = (x = z)" | "arriving z _ = False"

text \<open>Counted in the reference count; has the bolt; keeps the structure in the table; has it at all.\<close>

fun countedS :: "nat \<Rightarrow> spc \<Rightarrow> bool" where
  "countedS z (SNewAdded x) = (x = z)" | "countedS z (SNewWait x) = (x = z)" | "countedS z (SUse x) = (x = z)"
| "countedS z (SRel x) = (x = z)" | "countedS z (SRelR x) = (x = z)" | "countedS z p = arriving z p"

fun ownsS :: "nat \<Rightarrow> spc \<Rightarrow> bool" where
  "ownsS z (SCheck x) = (x = z)" | "ownsS z (SUse x) = (x = z)" | "ownsS z (SRel x) = (x = z)"
| "ownsS z (SRelR x) = (x = z)" | "ownsS z (SRelSlow x) = (x = z)" | "ownsS z (SRelWant x) = (x = z)"
| "ownsS z (SRelW x) = (x = z)" | "ownsS z (SRelFast x) = (x = z)" | "ownsS z (SRelFast2 x) = (x = z)"
| "ownsS z _ = False"

fun keepsS :: "nat \<Rightarrow> spc \<Rightarrow> bool" where
  "keepsS z (SRelSlow x) = (x = z)" | "keepsS z (SRelWant x) = (x = z)" | "keepsS z (SRelW x) = (x = z)"
| "keepsS z (SRelW2 x) = (x = z)" | "keepsS z p = countedS z p"

fun refersS :: "nat \<Rightarrow> spc \<Rightarrow> bool" where
  "refersS z (SRelFast x) = (x = z)" | "refersS z (SRelFast2 x) = (x = z)" | "refersS z p = keepsS z p"

fun has_snapshot :: "nat \<Rightarrow> spc \<Rightarrow> bool" where
  "has_snapshot z (SRelW3 x) = (x = z)" | "has_snapshot z (SDrop x) = (x = z)" | "has_snapshot z p = refersS z p"

lemma class_mono:
  shows "arriving z p \<Longrightarrow> countedS z p" "countedS z p \<Longrightarrow> keepsS z p" "keepsS z p \<Longrightarrow> refersS z p"
    "refersS z p \<Longrightarrow> has_snapshot z p" "ownsS z p \<Longrightarrow> refersS z p"
  by (cases p; simp)+

lemma has_snapshot_source: "has_snapshot z p \<Longrightarrow> p \<noteq> SIdle \<and> \<not> in_volume p"
  by (cases p) auto

section \<open>The invariants\<close>

text \<open>Which of the two volumes a request has when.\<close>

definition phase_inv :: "req_state \<Rightarrow> bool" where
  "phase_inv w \<longleftrightarrow> (\<forall>k. (sPc w k = SIdle \<longrightarrow> ipc w k = Idle) \<and>
     (sPc w k \<noteq> SIdle \<longrightarrow> opc w k = Idle \<or> (\<exists>q. opc w k = Using q)) \<and>
     (sPc w k \<noteq> SIdle \<longrightarrow> \<not> in_volume (sPc w k) \<longrightarrow> (\<exists>r. ipc w k = Using r)))"

definition snap_locks_inv :: "req_state \<Rightarrow> bool" where
  "snap_locks_inv w \<longleftrightarrow> (\<forall>k. k \<in> sReaders w \<longleftrightarrow> has_readS (sPc w k)) \<and>
     (\<forall>k. sWriter w = Some k \<longleftrightarrow> has_writeS (sPc w k)) \<and> (sWriter w \<noteq> None \<longrightarrow> sReaders w = {})"

text \<open>Whoever has a snapshot has the volume with the name of its source.\<close>

definition source_inv :: "req_state \<Rightarrow> bool" where
  "source_inv w \<longleftrightarrow>
     (\<forall>z < sNext w. sSource w z < cNext (sVols w) \<and> cName (sVols w) (sSource w z) = sVolName w z) \<and>
     (\<forall>k z. has_snapshot z (sPc w k) \<longrightarrow>
        z < sNext w \<and> (\<exists>r. ipc w k = Using r \<and> sVolName w z = cName (sVols w) r))"

definition snap_bolt_inv :: "req_state \<Rightarrow> bool" where
  "snap_bolt_inv w \<longleftrightarrow> (\<forall>k z. sBolt w z = Some k \<longleftrightarrow> ownsS z (sPc w k))"

definition snap_count_inv :: "req_state \<Rightarrow> bool" where
  "snap_count_inv w \<longleftrightarrow> (\<forall>z. sRef w z = of_bool (\<exists>k. countedS z (sPc w k)))"

definition snap_table_inv :: "req_state \<Rightarrow> bool" where
  "snap_table_inv w \<longleftrightarrow> (\<forall>m z. sTable w m = Some z \<longrightarrow> z < sNext w \<and> sName w z = m) \<and>
     (\<forall>k z. refersS z (sPc w k) \<longrightarrow> sTable w (sName w z) = Some z)"

text \<open>A structure in the table that is not created is kept there by a request, which is not arriving.\<close>

definition settled_inv :: "req_state \<Rightarrow> bool" where
  "settled_inv w \<longleftrightarrow> (\<forall>m z. sTable w m = Some z \<longrightarrow> sSt w z \<noteq> stateCreated \<longrightarrow> (\<exists>k. keepsS z (sPc w k))) \<and>
     (\<forall>k z. arriving z (sPc w k) \<longrightarrow> sSt w z = stateCreated)"

section \<open>The volumes\<close>

lemma slots [simp]:
  "outer k = outer j \<longleftrightarrow> k = j" "inner k = inner j \<longleftrightarrow> k = j" "outer k \<noteq> inner j" "inner k \<noteq> outer j"
  unfolding outer_def inner_def by presburger+

lemma names_stay: "cache_step i c c' \<Longrightarrow> r < cNext c \<Longrightarrow> cName c' r = cName c r \<and> cNext c \<le> cNext c'"
  by (erule cache_step.cases) (auto simp: fresh_volume_def)

text \<open>A step of a request is at most one step of one of its volumes.\<close>

lemma req_volumes:
  assumes "req_step k w w'" "phase_inv w"
  shows "sVols w' = sVols w \<or> cache_step (outer k) (sVols w) (sVols w') \<or> cache_step (inner k) (sVols w) (sVols w')"
proof -
  have idle: "sPc w k = SIdle \<Longrightarrow> ipc w k = Idle" using assms(2) unfolding phase_inv_def by blast
  show ?thesis
    using assms(1)
    by cases (use idle in \<open>auto simp: fresh_snapshot_def intro: call_lookup use_it finish\<close>)
qed

lemma req_others:
  assumes "req_step k w w'" "j \<noteq> k"
  shows "sPc w' j = sPc w j" "opc w' j = opc w j" "ipc w' j = ipc w j"
  using assms by (auto elim!: req_step.cases simp: fresh_snapshot_def step_others)

lemma req_names:
  assumes "req_step k w w'" "phase_inv w" "r < cNext (sVols w)"
  shows "cName (sVols w') r = cName (sVols w) r" "r < cNext (sVols w')"
  using req_volumes [OF assms(1,2)] assms(3) names_stay by fastforce+

end
