(* ===== verification/SnapProperties.thy ===== *)
theory SnapProperties
  imports SnapProtocol
begin

text \<open>
  What the protocol of the snapshot cache gives: its invariants hold in every reachable state;
  a snapshot and the volume it was made from are used by one request at a time.
\<close>

section \<open>The invariants are kept\<close>

lemma phase_step:
  assumes "req_step k w w'" "phase_inv w"
  shows "phase_inv w'"
proof -
  have here: "(sPc w' k = SIdle \<longrightarrow> ipc w' k = Idle) \<and>
     (sPc w' k \<noteq> SIdle \<longrightarrow> opc w' k = Idle \<or> (\<exists>q. opc w' k = Using q)) \<and>
     (sPc w' k \<noteq> SIdle \<longrightarrow> \<not> in_volume (sPc w' k) \<longrightarrow> (\<exists>r. ipc w' k = Using r))"
  proof -
    have *: "sPc w k = SIdle \<longrightarrow> ipc w k = Idle" "sPc w k \<noteq> SIdle \<longrightarrow> opc w k = Idle \<or> (\<exists>q. opc w k = Using q)"
      "sPc w k \<noteq> SIdle \<longrightarrow> \<not> in_volume (sPc w k) \<longrightarrow> (\<exists>r. ipc w k = Using r)"
      using assms(2) unfolding phase_inv_def by blast+
    show ?thesis
      using assms(1)
      by cases (use * in \<open>auto simp: fresh_snapshot_def step_others [of "outer k" _ _ "inner k"]
          step_others [of "inner k" _ _ "outer k"]\<close>)
  qed
  show ?thesis
    unfolding phase_inv_def
  proof
    fix j
    show "(sPc w' j = SIdle \<longrightarrow> ipc w' j = Idle) \<and>
     (sPc w' j \<noteq> SIdle \<longrightarrow> opc w' j = Idle \<or> (\<exists>q. opc w' j = Using q)) \<and>
     (sPc w' j \<noteq> SIdle \<longrightarrow> \<not> in_volume (sPc w' j) \<longrightarrow> (\<exists>r. ipc w' j = Using r))"
    proof (cases "j = k")
      case False
      then show ?thesis using assms(2) unfolding req_others [OF assms(1) False] phase_inv_def by blast
    qed (use here in simp)
  qed
qed

lemma snap_locks_step:
  assumes "req_step k w w'" "snap_locks_inv w"
  shows "snap_locks_inv w'"
proof -
  have one: "has_writeS (sPc w k) \<Longrightarrow> has_writeS (sPc w j) \<Longrightarrow> k = j" for j
    using assms(2) unfolding snap_locks_inv_def by (metis option.inject)
  show ?thesis
    using assms(1)
    by cases (use assms(2) one in \<open>auto simp: snap_locks_inv_def fresh_snapshot_def\<close>)
qed

text \<open>A request that has the source of a snapshot alone has the snapshot, if anybody has it.\<close>

lemma source_unique:
  assumes "protocol_inv (sVols w)" "source_inv w" "ipc w k = Using r" "cName (sVols w) r = sVolName w z"
    "has_snapshot z (sPc w j)"
  shows "j = k"
proof -
  obtain q where q: "ipc w j = Using q" "sVolName w z = cName (sVols w) q"
    using assms(2,5) unfolding source_inv_def by blast
  have "has_volume (sVols w) (inner j) (sVolName w z)" "has_volume (sVols w) (inner k) (sVolName w z)"
    using q assms(3,4) unfolding has_volume_def by metis+
  from has_volume_unique [OF assms(1) this] show ?thesis by simp
qed

lemma has_unique:
  assumes "protocol_inv (sVols w)" "source_inv w" "has_snapshot z (sPc w k)" "has_snapshot z (sPc w j)"
  shows "j = k"
proof -
  obtain r where "ipc w k = Using r" "sVolName w z = cName (sVols w) r"
    using assms(2,3) unfolding source_inv_def by blast
  then show ?thesis using source_unique [OF assms(1,2) _ _ assms(4)] by metis
qed

lemma source_names:
  assumes "source_inv w" "has_snapshot z (sPc w k)"
  shows "\<exists>r. ipc w k = Using r" "ipc w k = Using r \<Longrightarrow> cName (sVols w) r = sVolName w z"
    "cName (sVols w) (sSource w z) = sVolName w z"
proof -
  obtain q where "z < sNext w" "ipc w k = Using q" "sVolName w z = cName (sVols w) q"
    using assms unfolding source_inv_def by blast
  then show "\<exists>r. ipc w k = Using r" "ipc w k = Using r \<Longrightarrow> cName (sVols w) r = sVolName w z"
    "cName (sVols w) (sSource w z) = sVolName w z"
    using assms(1) unfolding source_inv_def by auto
qed

lemma using_old: "protocol_inv c \<Longrightarrow> cPc c i = Using r \<Longrightarrow> r < cNext c"
  unfolding protocol_inv_def by (metis counted.simps(7) refers_counted refers_old)

lemma source_step:
  assumes "req_step k w w'" "source_inv w" "phase_inv w" "protocol_inv (sVols w)" "snap_table_inv w"
  shows "source_inv w'"
proof -
  note frame = req_names [OF assms(1,3)]
  have vols: "r < cNext (sVols w)" if "ipc w j = Using r" for j r
    using that by (rule using_old [OF assms(4)])
  have src: "sSource w z < cNext (sVols w)" "cName (sVols w) (sSource w z) = sVolName w z" if "z < sNext w" for z
    using assms(2) that unfolding source_inv_def by blast+
  have old: "z < sNext w" "\<exists>r. ipc w j = Using r \<and> sVolName w z = cName (sVols w) r"
    if "has_snapshot z (sPc w j)" for j z
    using assms(2) that unfolding source_inv_def by blast+
  have tab: "z < sNext w" if "sTable w m = Some z" for m z
    using assms(5) that unfolding snap_table_inv_def by blast
  have fixed: "sNext w \<le> sNext w' \<and> (\<forall>z < sNext w. sVolName w' z = sVolName w z \<and> sSource w' z = sSource w z)"
    using assms(1) by cases (auto simp: fresh_snapshot_def)
  have one: "sSource w' z < cNext (sVols w') \<and> cName (sVols w') (sSource w' z) = sVolName w' z"
    if "z < sNext w'" for z
  proof (cases "z < sNext w")
    case True
    then show ?thesis using fixed src [OF True] frame by metis
  next
    case False
    show ?thesis
      using assms(1) by cases (use that False in \<open>auto simp: fresh_snapshot_def less_Suc_eq intro: vols\<close>)
  qed
  have two: "z < sNext w' \<and> (\<exists>r. ipc w' j = Using r \<and> sVolName w' z = cName (sVols w') r)"
    if "has_snapshot z (sPc w' j)" for j z
  proof (cases "has_snapshot z (sPc w j) \<and> ipc w' j = ipc w j")
    case True
    with old [of z j] fixed frame vols show ?thesis by (metis order_less_le_trans)
  next
    case False
    then have j: "j = k" using that req_others [OF assms(1), of j] by metis
    show ?thesis
      using assms(1) by cases (use that False j src tab in \<open>auto simp: fresh_snapshot_def dest: has_snapshot_source split: if_splits\<close>)
  qed
  show ?thesis unfolding source_inv_def using one two by blast
qed

text \<open>The other requests, when one of them steps.\<close>

definition sole :: "req_state \<Rightarrow> nat \<Rightarrow> nat \<Rightarrow> bool" where
  "sole w k z \<longleftrightarrow> (\<forall>j. j \<noteq> k \<longrightarrow> \<not> has_snapshot z (sPc w j))"

lemma sole_intros:
  assumes "protocol_inv (sVols w)" "source_inv w"
  shows "has_snapshot z (sPc w k) \<Longrightarrow> sole w k z"
    "ipc w k = Using r \<Longrightarrow> cName (sVols w) r = sVolName w z \<Longrightarrow> sole w k z"
    "\<not> z < sNext w \<Longrightarrow> sole w k z"
  using has_unique [OF assms] source_unique [OF assms] assms(2) unfolding sole_def source_inv_def by blast+

lemma sole_arrival:
  assumes "protocol_inv (sVols w)" "source_inv w" "snap_table_inv w" "sTable w m = Some z" "ipc w k = Using r"
  shows "sSource w z = r \<Longrightarrow> sole w k z" "sVolName w z = cName (sVols w) r \<Longrightarrow> sole w k z"
proof -
  have "z < sNext w" using assms(3,4) unfolding snap_table_inv_def by blast
  then show "sSource w z = r \<Longrightarrow> sole w k z"
    using assms(2) sole_intros(2) [OF assms(1,2,5)] unfolding source_inv_def by blast
  show "sVolName w z = cName (sVols w) r \<Longrightarrow> sole w k z" using sole_intros(2) [OF assms(1,2,5)] by simp
qed

lemma sole_not:
  assumes "sole w k z"
  shows "\<not> (\<exists>j. j \<noteq> k \<and> countedS z (sPc w j))" "\<not> (\<exists>j. j \<noteq> k \<and> keepsS z (sPc w j))"
    "\<not> (\<exists>j. j \<noteq> k \<and> refersS z (sPc w j))" "\<not> (\<exists>j. j \<noteq> k \<and> ownsS z (sPc w j))"
  using assms class_mono unfolding sole_def by blast+

lemma snap_bolt_step:
  assumes "req_step k w w'" "snap_bolt_inv w" "source_inv w"
  shows "snap_bolt_inv w'"
proof -
  have fresh: "\<not> ownsS (sNext w) (sPc w j)" for j
    using assms(3) class_mono unfolding source_inv_def by blast
  have free: "sBolt w z = None \<Longrightarrow> \<not> ownsS z (sPc w j)" for z j
    using assms(2) unfolding snap_bolt_inv_def by (metis option.distinct(1))
  have one: "ownsS z (sPc w i) \<Longrightarrow> ownsS z (sPc w j) \<Longrightarrow> i = j" for z i j
    using assms(2) unfolding snap_bolt_inv_def by (metis option.inject)
  show ?thesis
    using assms(1)
    by cases (use assms(2) fresh free one [of _ k] in \<open>auto simp: snap_bolt_inv_def fresh_snapshot_def\<close>)
qed

text \<open>What some request is in is what this one is in, or another one.\<close>

lemma ex_here: "(\<exists>j. P (f j)) \<longleftrightarrow> P (f k) \<or> (\<exists>j. j \<noteq> k \<and> P (f j))"
  by metis

lemma ex_others:
  assumes "req_step k w w'"
  shows "(\<exists>j. j \<noteq> k \<and> P (sPc w' j)) \<longleftrightarrow> (\<exists>j. j \<noteq> k \<and> P (sPc w j))"
  using req_others(1) [OF assms] by metis

lemma snap_count_step:
  assumes "req_step k w w'" "snap_count_inv w" "protocol_inv (sVols w)" "source_inv w" "snap_table_inv w"
  shows "snap_count_inv w'"
  unfolding snap_count_inv_def
proof
  fix z
  obtain E where E: "E = (\<exists>j. j \<noteq> k \<and> countedS z (sPc w j))" by blast
  have alone: "sole w k z \<Longrightarrow> \<not> E" unfolding E by (rule sole_not(1))
  have sole: "has_snapshot z (sPc w k) \<Longrightarrow> \<not> E" "\<not> z < sNext w \<Longrightarrow> \<not> E"
    by (intro alone, erule sole_intros [OF assms(3,4)])+
  have arrive: "\<not> E" if "sTable w m = Some z" "ipc w k = Using r" "sSource w z = r \<or> sVolName w z = cName (sVols w) r" for m r
    using that(3) alone sole_arrival [OF assms(3-5) that(1,2)] by blast
  have inv: "sRef w z = of_bool (countedS z (sPc w k) \<or> E)"
    using assms(2) ex_here [of "countedS z" "sPc w" k] unfolding snap_count_inv_def E by simp
  have "sRef w' z = of_bool (countedS z (sPc w' k) \<or> E)"
    using assms(1)
    by cases (use inv sole arrive in \<open>auto simp: fresh_snapshot_def\<close>)
  then show "sRef w' z = of_bool (\<exists>j. countedS z (sPc w' j))"
    using ex_here [of "countedS z" "sPc w'" k] ex_others [OF assms(1), of "countedS z"] unfolding E by simp
qed

lemma snap_tableI:
  assumes "\<And>m z. sTable w m = Some z \<Longrightarrow> z < sNext w \<and> sName w z = m"
    "\<And>z j. refersS z (sPc w j) \<Longrightarrow> sTable w (sName w z) = Some z"
  shows "snap_table_inv w"
  using assms unfolding snap_table_inv_def by blast

lemma snap_table_step:
  assumes "req_step k w w'" "snap_table_inv w" "protocol_inv (sVols w)" "source_inv w"
  shows "snap_table_inv w'"
proof (rule snap_tableI)
  have tab: "z < sNext w" "sName w z = m" if "sTable w m = Some z" for m z
    using assms(2) that unfolding snap_table_inv_def by blast+
  have self: "sTable w (sName w z) = Some z" if "sTable w m = Some z" for m z
    using that tab(2) [OF that] by simp
  have ref: "sTable w (sName w z) = Some z" if "refersS z (sPc w j)" for z j
    using assms(2) that unfolding snap_table_inv_def by blast
  have old: "z < sNext w" if "refersS z (sPc w j)" for z j
    using assms(4) class_mono(4) that unfolding source_inv_def by blast
  have one: "j = k" if "refersS z (sPc w j)" "refersS z (sPc w k)" for z j
    using sole_not(3) [OF sole_intros(1) [OF assms(3,4) class_mono(4) [OF that(2)]]] that(1) by blast
  show "z < sNext w' \<and> sName w' z = m" if "sTable w' m = Some z" for m z
    using assms(1)
    by cases (use that tab in \<open>fastforce simp: fresh_snapshot_def split: if_splits\<close>)+
  show "sTable w' (sName w' z) = Some z" if "refersS z (sPc w' j)" for z j
  proof (cases "j = k")
    case True
    show ?thesis
      using assms(1)
      by cases (use that True self ref [of z k] in \<open>auto simp: fresh_snapshot_def split: if_splits\<close>)
  next
    case False
    then have r: "refersS z (sPc w j)" using that req_others(1) [OF assms(1)] by simp
    show ?thesis
      using assms(1)
    proof cases
      case (srel_delete x)
      have "z \<noteq> x" using one [OF r] False srel_delete(2) by auto
      moreover have "sTable w (sName w x) = Some x" using ref [of x k] srel_delete(2) by simp
      ultimately have "sName w z \<noteq> sName w x" using ref [OF r] by (metis option.inject)
      then show ?thesis unfolding srel_delete(1) using ref [OF r] by simp
    next
      case (snew_add m r)
      have "sName w z \<noteq> m" using ref [OF r] snew_add(3) by auto
      then show ?thesis unfolding snew_add(1) using ref [OF r] old [OF r] by (simp add: fresh_snapshot_def)
    qed (use ref [OF r] in \<open>auto simp: fresh_snapshot_def\<close>)
  qed
qed

lemma settled_step:
  assumes "req_step k w w'" "settled_inv w" "protocol_inv (sVols w)" "source_inv w" "snap_table_inv w"
    "snap_count_inv w"
  shows "settled_inv w'"
proof -
  note here = ex_here [of _ _ k] and others = ex_others [OF assms(1)]
  obtain E where E: "E = (\<lambda>z. \<exists>j. j \<noteq> k \<and> keepsS z (sPc w j))" by blast
  have alone: "sole w k z \<Longrightarrow> \<not> E z" for z unfolding E by (rule sole_not(2))
  have settled: "sSt w z = stateCreated \<or> keepsS z (sPc w k) \<or> E z" if "sTable w m = Some z" for m z
    using assms(2) that here [of "keepsS z" "sPc w"] unfolding settled_inv_def E by blast
  have arrived: "sSt w z = stateCreated" if "sTable w m = Some z" "ipc w k = Using r"
    "sSource w z = r \<or> sVolName w z = cName (sVols w) r" "\<not> keepsS z (sPc w k)" for m z r
    using settled [OF that(1)] that(3,4) alone sole_arrival [OF assms(3-5) that(1,2)] by blast
  have arr: "sSt w z = stateCreated" if "arriving z (sPc w j)" for z j
    using assms(2) that unfolding settled_inv_def by blast
  have tab: "z < sNext w" if "sTable w m = Some z" for m z
    using assms(5) that unfolding snap_table_inv_def by blast
  have old: "z < sNext w" if "arriving z (sPc w j)" for z j
    using that assms(4) class_mono unfolding source_inv_def by blast
  have one: "j = k" if "arriving z (sPc w j)" "has_snapshot z (sPc w k)" for z j
    using has_unique [OF assms(3,4) that(2)] that(1) class_mono by blast
  have name: "m = sName w z \<longleftrightarrow> True" if "sTable w m = Some z" for m z
    using assms(5) that unfolding snap_table_inv_def by simp
  have mine: "sRef w z = of_bool (countedS z (sPc w k))" if "has_snapshot z (sPc w k)" for z
    using assms(6) here [of "countedS z" "sPc w"] sole_not(1) [OF sole_intros(1) [OF assms(3,4) that]]
    unfolding snap_count_inv_def by simp
  have gone: "keepsS z (sPc w' k) \<or> E z \<or> sSt w' z = stateCreated" if "sTable w' m = Some z" for m z
    using assms(1)
  proof cases
    case (srel_delete x)
    then have m: "sTable w m = Some z" "m \<noteq> sName w x" using that by (auto split: if_splits)
    then have "z \<noteq> x" using name [OF m(1)] by blast
    then show ?thesis unfolding srel_delete(1) using settled [OF m(1)] srel_delete(2) by auto
  qed (use that settled mine in \<open>auto simp: fresh_snapshot_def split: if_splits\<close>)
  have "sSt w' z = stateCreated" if "arriving z (sPc w' j)" for z j
  proof (cases "j = k")
    case True
    show ?thesis
      using assms(1) by cases (use that True arrived arr [of z k] in \<open>auto simp: fresh_snapshot_def split: if_splits\<close>)
  next
    case False
    then have r: "arriving z (sPc w j)" using that req_others(1) [OF assms(1)] by simp
    show ?thesis
      using assms(1)
      by cases (use r arr [OF r] old [OF r] one [OF r] False in \<open>auto simp: fresh_snapshot_def\<close>)
  qed
  moreover have "\<exists>j. keepsS z (sPc w' j)" if "sTable w' m = Some z" "sSt w' z \<noteq> stateCreated" for m z
    using gone [OF that(1)] that(2) here [of "keepsS z" "sPc w'"] others [of "keepsS z"] unfolding E by blast
  ultimately show ?thesis unfolding settled_inv_def by blast
qed

section \<open>Every reachable state\<close>

definition req_inv :: "req_state \<Rightarrow> bool" where
  "req_inv w \<longleftrightarrow> protocol_inv (sVols w) \<and> phase_inv w \<and> snap_locks_inv w \<and> source_inv w \<and> snap_bolt_inv w \<and>
     snap_count_inv w \<and> snap_table_inv w \<and> settled_inv w"

lemma req_inv_start: "req_inv req_start"
  by (simp add: req_inv_def req_start_def protocol_start phase_inv_def snap_locks_inv_def source_inv_def
      snap_bolt_inv_def snap_count_inv_def snap_table_inv_def settled_inv_def) (simp add: cache_start_def)

lemma req_inv_step:
  assumes "req_step k w w'" "req_inv w"
  shows "req_inv w'"
proof -
  have inv: "protocol_inv (sVols w)" "phase_inv w" "snap_locks_inv w" "source_inv w" "snap_bolt_inv w"
    "snap_count_inv w" "snap_table_inv w" "settled_inv w"
    using assms(2) unfolding req_inv_def by blast+
  have "protocol_inv (sVols w')"
    using req_volumes [OF assms(1) inv(2)] inv(1) by (auto intro: protocol_step)
  then show ?thesis
    unfolding req_inv_def
    using phase_step [OF assms(1) inv(2)] snap_locks_step [OF assms(1) inv(3)]
      source_step [OF assms(1) inv(4,2,1,7)] snap_bolt_step [OF assms(1) inv(5,4)]
      snap_count_step [OF assms(1) inv(6,1,4,7)] snap_table_step [OF assms(1) inv(7,1,4)]
      settled_step [OF assms(1) inv(8,1,4,7,6)] by blast
qed

lemma req_reachable_inv: "req_reachable w \<Longrightarrow> req_inv w"
  by (induction rule: req_reachable.induct) (rule req_inv_start, erule (1) req_inv_step)

lemma req_invs:
  assumes "req_inv w"
  shows "protocol_inv (sVols w)" "phase_inv w" "snap_locks_inv w" "source_inv w" "snap_bolt_inv w"
    "snap_count_inv w" "snap_table_inv w" "settled_inv w"
  using assms unfolding req_inv_def by blast+

text \<open>The volumes of the requests are a run of the volume cache, so all that is shown of it holds.\<close>

lemma volumes_reachable: "req_reachable w \<Longrightarrow> cache_reachable (sVols w)"
proof (induction rule: req_reachable.induct)
  case rr_start
  show ?case by (simp add: req_start_def cr_start)
next
  case (rr_step w k w')
  then show ?case
    using req_volumes [OF rr_step(3) req_invs(2) [OF req_reachable_inv [OF rr_step(1)]]]
    by (auto intro: cr_step)
qed

text \<open>
  The volume that \<open>releaseSnapshot\<close> gives back is the one the request has, or an older structure
  of the same name, which nobody has locked: \<open>Unlock\<close> panics.
\<close>

lemma stale_source_unlocked:
  assumes "req_inv w" "has_snapshot z (sPc w k)" "ipc w k = Using r" "sSource w z \<noteq> r"
  shows "cBolt (sVols w) (sSource w z) = None"
proof (rule ccontr)
  note inv = req_invs [OF assms(1)]
  obtain c where c: "c = sVols w" by blast
  have vols: "bolt_owner_inv c" "table_inv c" using inv(1) unfolding c protocol_inv_def by blast+
  assume "cBolt (sVols w) (sSource w z) \<noteq> None"
  then obtain i where "cBolt c (sSource w z) = Some i" unfolding c by blast
  then have "owns (sSource w z) (cPc c i)" using vols(1) unfolding bolt_owner_inv_def by blast
  then have src: "cTable c (cName c (sSource w z)) = Some (sSource w z)"
    by (intro table_refers [OF vols(2)] refers_owns)
  have "refers r (cPc c (inner k))" using assms(3) unfolding c by simp
  then have r: "cTable c (cName c r) = Some r" by (rule table_refers [OF vols(2)])
  have "cName c r = sVolName w z" "cName c (sSource w z) = sVolName w z"
    unfolding c by (rule source_names(2) [OF inv(4) assms(2,3)], rule source_names(3) [OF inv(4) assms(2)])
  with r src assms(4) show False by (metis option.inject)
qed

lemma snap_bolt_free:
  assumes "req_inv w" "sPc w k \<in> {SWait z, SNewWait z}"
  shows "sBolt w z = None"
proof (rule ccontr)
  note inv = req_invs [OF assms(1)]
  assume "sBolt w z \<noteq> None"
  then obtain j where j: "ownsS z (sPc w j)" using inv(5) unfolding snap_bolt_inv_def by blast
  have "has_snapshot z (sPc w k)" using assms(2) by auto
  from has_unique [OF inv(1,4) this] j class_mono have "j = k" by blast
  with j assms(2) show False by auto
qed

section \<open>A run\<close>

text \<open>
  Request 1 makes the snapshot \<open>s\<close> of the volume \<open>v\<close>, which it finds on the appliance; when it has
  ended, request 2 looks the snapshot up.
\<close>

lemma snapshot_run:
  "\<exists>w. req_reachable w \<and> \<not> crashed w \<and> sPc w 1 = SUse 0 \<and> sName w 0 = ''s'' \<and> sVolName w 0 = ''v'' \<and>
    sSource w 0 = 0 \<and> sTable w ''s'' = Some 0 \<and> sWriter w = None \<and> sReaders w = {} \<and> sRef w 0 = 1 \<and>
    sVols w = \<lparr>cTable = [''v'' \<mapsto> 0], cName = (\<lambda>_. [])(0 := ''v''), cRef = (\<lambda>_. 0)(0 := 1),
      cSt = (\<lambda>_. stateCreating)(0 := stateCreated), cBolt = [0 \<mapsto> inner 1], cNext = 1, cWriter = None,
      cReaders = {}, cPc = (\<lambda>_. Idle)(inner 1 := Using 0)\<rparr> \<and>
    (\<forall>k. k \<noteq> 1 \<longrightarrow> sPc w k = SIdle)"
proof -
  note source = rr_step [OF _ _ source_volume, rotated 2]
  note r = rr_step [OF rr_start _ call_newSnapshot [of _ 1 "''v''" "''s''"], simplified req_start_def cache_start_def, simplified]
  note r = source [OF _ _ lk_rlock [of _ "inner 1" "''v''"] r, simplified]
  note r = source [OF _ _ lk_miss [of _ "inner 1" "''v''"] r, simplified]
  note r = source [OF _ _ lk_new [of _ "inner 1" "''v''"] r, simplified]
  note r = source [OF _ _ new_lock [of _ "inner 1" "''v''"] r, simplified]
  note r = source [OF _ _ new_add [of _ "inner 1" "''v''"] r, simplified fresh_volume_def, simplified]
  note r = source [OF _ _ new_hold_new [of _ "inner 1" 0] r, simplified]
  note r = source [OF _ _ new_bolt [of _ "inner 1" 0] r, simplified]
  note r = source [OF _ _ new_unlock [of _ "inner 1" 0] r, simplified]
  note r = source [OF _ _ use_it [of _ "inner 1" 0 stateCreated] r, simplified]
  note r = rr_step [OF r _ snew_volume [of _ 1 "''v''" "''s''" 0], simplified]
  note r = rr_step [OF r _ snew_lock [of _ 1 "''s''"], simplified]
  note r = rr_step [OF r _ snew_add [of _ 1 "''s''" 0], simplified fresh_snapshot_def, simplified]
  note r = rr_step [OF r _ snew_unlock [of _ 1 0], simplified]
  note r = rr_step [OF r _ snew_bolt [of _ 1 0], simplified]
  show ?thesis by (rule exI, rule conjI, rule r) simp
qed

lemma second_run:
  "\<exists>w. req_reachable w \<and> sPc w 2 = SCheck 0 \<and> sPc w 1 = SIdle"
proof -
  obtain w where w: "req_reachable w" "\<not> crashed w" "sPc w 1 = SUse 0" "sName w 0 = ''s''" "sVolName w 0 = ''v''"
    "sSource w 0 = 0" "sTable w ''s'' = Some 0" "sWriter w = None" "sReaders w = {}" "sRef w 0 = 1"
    "sVols w = \<lparr>cTable = [''v'' \<mapsto> 0], cName = (\<lambda>_. [])(0 := ''v''), cRef = (\<lambda>_. 0)(0 := 1),
      cSt = (\<lambda>_. stateCreating)(0 := stateCreated), cBolt = [0 \<mapsto> inner 1], cNext = 1, cWriter = None,
      cReaders = {}, cPc = (\<lambda>_. Idle)(inner 1 := Using 0)\<rparr>"
    "\<forall>k. k \<noteq> 1 \<longrightarrow> sPc w k = SIdle"
    using snapshot_run by blast
  note simps = w(2-) [simplified]
  note source = rr_step [OF _ _ source_volume, rotated 2]
  note r = rr_step [OF w(1,2) s_use [of w 1 0 stateCreated], simplified simps, simplified]
  note r = rr_step [OF r _ s_finish [of _ 1 0], simplified simps, simplified]
  note r = rr_step [OF r _ srel_rlock [of _ 1 0], simplified simps, simplified]
  note r = rr_step [OF r _ srel_other [of _ 1 0], simplified simps, simplified]
  note r = rr_step [OF r _ srel_runlock_fast [of _ 1 0], simplified simps, simplified]
  note r = rr_step [OF r _ srel_unbolt_fast [of _ 1 0], simplified simps, simplified]
  note r = rr_step [OF r _ s_drop [of _ 1 0 0], simplified simps, simplified]
  note r = source [OF _ _ rel_rlock [of _ "inner 1" 0] r, simplified simps, simplified]
  note r = source [OF _ _ rel_other [of _ "inner 1" 0] r, simplified simps, simplified]
  note r = source [OF _ _ rel_unbolt_fast [of _ "inner 1" 0] r, simplified simps, simplified]
  note r = source [OF _ _ rel_runlock_fast [of _ "inner 1"] r, simplified simps, simplified]
  note r = rr_step [OF r _ s_end [of _ 1], simplified simps, simplified]
  note r = rr_step [OF r _ call_lookupSnapshot [of _ 2 "''v''" "''s''"], simplified simps, simplified]
  note r = source [OF _ _ lk_rlock [of _ "inner 2" "''v''"] r, simplified simps, simplified]
  note r = source [OF _ _ lk_hold [of _ "inner 2" "''v''" 0] r, simplified simps, simplified]
  note r = source [OF _ _ lk_runlock [of _ "inner 2" 0] r, simplified simps, simplified]
  note r = source [OF _ _ bolt [of _ "inner 2" 0] r, simplified simps, simplified]
  note r = source [OF _ _ check_created [of _ "inner 2" 0] r, simplified simps, simplified]
  note r = rr_step [OF r _ slk_volume [of _ 2 "''v''" "''s''" 0], simplified simps, simplified]
  note r = rr_step [OF r _ slk_rlock [of _ 2 "''v''" "''s''"], simplified simps, simplified]
  note r = rr_step [OF r _ slk_hold [of _ 2 "''v''" "''s''" 0 0], simplified simps, simplified]
  note r = rr_step [OF r _ slk_runlock [of _ 2 0], simplified simps, simplified]
  note r = rr_step [OF r _ s_bolt [of _ 2 0], simplified simps, simplified]
  show ?thesis by (rule exI, rule conjI, rule r) (simp_all add: simps)
qed

section \<open>The properties\<close>

text \<open>
  C5: A request that has got a snapshot has it alone, and alone the volume it was made from:
  the structure is the one in the table under its name, locked and counted once, by this
  request; and no use of a volume of the name of its source, by this request or another one,
  is any other than the one it came with.
\<close>

theorem snapshot_used_exclusively:
  assumes "req_reachable w" "sPc w k = SUse z"
  shows "sTable w (sName w z) = Some z \<and> sBolt w z = Some k \<and> sRef w z = 1 \<and>
    {j. has_snapshot z (sPc w j)} = {k} \<and> {i. has_volume (sVols w) i (sVolName w z)} = {inner k}"
proof -
  note inv = req_invs [OF req_reachable_inv [OF assms(1)]]
  have has: "has_snapshot z (sPc w k)" "refersS z (sPc w k)" "countedS z (sPc w k)" "ownsS z (sPc w k)"
    using assms(2) by simp_all
  have vol: "has_volume (sVols w) (inner k) (sVolName w z)"
    using source_names(1,2) [OF inv(4) has(1)] unfolding has_volume_def by blast
  have "{j. has_snapshot z (sPc w j)} = {k}" using has_unique [OF inv(1,4) has(1)] has(1) by blast
  moreover have "{i. has_volume (sVols w) i (sVolName w z)} = {inner k}"
    using has_volume_unique [OF inv(1) _ vol] vol by blast
  moreover have "sRef w z = 1" using inv(6) has(3) unfolding snap_count_inv_def by auto
  moreover have "sTable w (sName w z) = Some z" "sBolt w z = Some k"
    using inv(5,7) has(2,4) unfolding snap_table_inv_def snap_bolt_inv_def by blast+
  ultimately show ?thesis by blast
qed

lemma snapshot_used_exclusively_witness:
  "\<exists>w. req_reachable w \<and> sPc w 1 = SUse 0 \<and> sTable w ''s'' = Some 0 \<and>
     {i. has_volume (sVols w) i ''v''} = {inner 1}"
proof -
  obtain w where w: "req_reachable w" "sPc w 1 = SUse 0" "sName w 0 = ''s''" "sVolName w 0 = ''v''"
    using snapshot_run by blast
  from snapshot_used_exclusively [OF w(1,2)] w show ?thesis by auto
qed

text \<open>
  C12: The lock of the volume does all the work: no request ever waits for the lock of a
  snapshot, or is counted in it beside another one, and none finds a snapshot busy.
\<close>

theorem snapshot_never_contended:
  assumes "req_reachable w"
  shows "(sPc w k \<in> {SWait z, SNewWait z} \<longrightarrow> sBolt w z = None) \<and>
    (sPc w k = SCheck z \<longrightarrow> sSt w z = stateCreated) \<and> sRef w z \<in> {0, 1}"
proof -
  note inv = req_invs [OF req_reachable_inv [OF assms]]
  have "sBolt w z = None" if "sPc w k \<in> {SWait z, SNewWait z}"
    by (rule snap_bolt_free [OF req_reachable_inv [OF assms] that])
  moreover have "sSt w z = stateCreated" if "sPc w k = SCheck z"
  proof -
    have "arriving z (sPc w k)" using that by simp
    then show ?thesis using inv(8) unfolding settled_inv_def by blast
  qed
  moreover have "sRef w z \<in> {0, 1}" using inv(6) unfolding snap_count_inv_def by (simp only: of_bool_def split: if_split) simp
  ultimately show ?thesis by blast
qed

lemma snapshot_never_contended_witness:
  "\<exists>w. req_reachable w \<and> sPc w 2 = SCheck 0 \<and> sSt w 0 = stateCreated"
proof -
  obtain w where "req_reachable w" "sPc w 2 = SCheck 0" using second_run by blast
  with snapshot_never_contended [of w 2 0] show ?thesis by blast
qed

end
