(* ===== verification/SnapLiveness.thy ===== *)
theory SnapLiveness
  imports SnapProperties
begin

text \<open>
  How requests with snapshots end: they do, whatever the schedule, unless clones in flight wait
  for each other in a circle; and two clones can.
\<close>

section \<open>What a request waits for\<close>

text \<open>Where a use of the volume \<open>n\<close> is before its lock, and where one is that is given back.\<close>

fun asked :: "cache_state \<Rightarrow> string \<Rightarrow> cpc \<Rightarrow> bool" where
  "asked c n (LkWant x) = (x = n)" | "asked c n (LkGot x) = (x = n)" | "asked c n (LkMiss x) = (x = n)"
| "asked c n (NewWant x) = (x = n)" | "asked c n (NewGot x) = (x = n)" | "asked c n (LkHeld r) = (cName c r = n)"
| "asked c n (NewHeld r) = (cName c r = n)" | "asked c n (WaitBolt r) = (cName c r = n)"
| "asked c n p = True"

fun leaving :: "cpc \<Rightarrow> bool" where
  "leaving Idle = True" | "leaving (Rel _) = True" | "leaving (RelR _) = True" | "leaving (RelSlow _) = True"
| "leaving (RelWant _) = True" | "leaving (RelW _) = True" | "leaving (RelW2 _) = True"
| "leaving RelW3 = True" | "leaving (RelFast _) = True" | "leaving RelFast2 = True" | "leaving _ = False"

fun wanted :: "spc \<Rightarrow> string option" where
  "wanted (SLkVol n m) = Some n" | "wanted (SNewVol n m) = Some n" | "wanted _ = None"

fun given_back :: "spc \<Rightarrow> bool" where
  "given_back (SLkDrop _ _) = True" | "given_back SEnd = True" | "given_back _ = False"

definition wish_inv :: "req_state \<Rightarrow> bool" where
  "wish_inv w \<longleftrightarrow> finite {k. sPc w k \<noteq> SIdle} \<and>
     (\<forall>k n. wanted (sPc w k) = Some n \<longrightarrow> asked (sVols w) n (ipc w k)) \<and>
     (\<forall>k. given_back (sPc w k) \<longrightarrow> leaving (ipc w k))"

lemma asked_step:
  assumes "cache_step i c c'" "asked c n (cPc c i)" "cPc c i \<noteq> Idle" "table_inv c"
  shows "asked c' n (cPc c' i)"
  using assms(1)
  by cases (use assms(2,3) table_name [OF assms(4)] in \<open>auto simp: fresh_volume_def\<close>)

lemma leaving_step:
  assumes "cache_step i c c'" "leaving (cPc c i)" "cPc c i \<noteq> Idle"
  shows "leaving (cPc c' i)"
  using assms(1) by cases (use assms(2,3) in auto)

lemma asked_old:
  assumes "asked c n p" "cName c' = cName c \<or> (\<forall>r. refers r p \<longrightarrow> cName c' r = cName c r)"
  shows "asked c' n p"
  using assms by (cases p) auto

lemma wish_step:
  assumes "req_step k w w'" "wish_inv w" "req_inv w"
  shows "wish_inv w'"
proof -
  note inv = req_invs [OF assms(3)]
  have tab: "table_inv (sVols w)" using inv(1) unfolding protocol_inv_def by blast
  have wish: "wanted (sPc w j) = Some n \<Longrightarrow> asked (sVols w) n (ipc w j)"
    "given_back (sPc w j) \<Longrightarrow> leaving (ipc w j)" for j n
    using assms(2) unfolding wish_inv_def by blast+
  have "{j. sPc w' j \<noteq> SIdle} \<subseteq> insert k {j. sPc w j \<noteq> SIdle}" using req_others(1) [OF assms(1)] by auto
  then have "finite {j. sPc w' j \<noteq> SIdle}"
    using assms(2) finite_subset unfolding wish_inv_def by (metis finite_insert)
  moreover have "asked (sVols w') n (ipc w' j)" if "wanted (sPc w' j) = Some n" for j n
  proof (cases "j = k")
    case True
    show ?thesis
      using assms(1)
      by cases (use that True wish(1) [of k n] in \<open>auto simp: fresh_snapshot_def intro: asked_step [OF _ _ _ tab]\<close>)
  next
    case False
    then have "asked (sVols w) n (ipc w' j)" using that wish(1) req_others [OF assms(1) False] by simp
    moreover have "refers r (ipc w' j) \<Longrightarrow> cName (sVols w') r = cName (sVols w) r" for r
      using req_names(1) [OF assms(1) inv(2)] refers_old [OF tab] req_others(3) [OF assms(1) False] by metis
    ultimately show ?thesis by (blast intro: asked_old)
  qed
  moreover have "leaving (ipc w' j)" if "given_back (sPc w' j)" for j
  proof (cases "j = k")
    case True
    show ?thesis
      using assms(1)
      by cases (use that True wish(2) [of k] in \<open>auto simp: fresh_snapshot_def intro: leaving_step\<close>)
  next
    case False
    then show ?thesis using that wish(2) req_others [OF assms(1) False] by simp
  qed
  ultimately show ?thesis unfolding wish_inv_def by blast
qed

lemma wish_reachable: "req_reachable w \<Longrightarrow> wish_inv w"
proof (induction rule: req_reachable.induct)
  case rr_start
  show ?case by (simp add: wish_inv_def req_start_def)
next
  case (rr_step w k w')
  then show ?case using wish_step req_reachable_inv by blast
qed

section \<open>Going on\<close>

definition points :: "req_state \<Rightarrow> nat \<Rightarrow> cpc \<times> spc \<times> cpc" where
  "points w k = (opc w k, sPc w k, ipc w k)"

abbreviation no_request :: "cpc \<times> spc \<times> cpc" where "no_request \<equiv> (Idle, SIdle, Idle)"

text \<open>
  A request goes on: it is under way, and moves to its next program point or panics; what starts
  a new use of a snapshot does not count.
\<close>

definition goes_on :: "nat \<Rightarrow> req_state \<Rightarrow> req_state \<Rightarrow> bool" where
  "goes_on k w w' \<longleftrightarrow> \<not> crashed w \<and> req_step k w w' \<and> points w k \<noteq> no_request \<and>
     (points w' k \<noteq> points w k \<or> crashed w') \<and> (sPc w k = SIdle \<longrightarrow> sPc w' k = SIdle)"

definition can_go :: "req_state \<Rightarrow> bool" where
  "can_go w \<longleftrightarrow> (\<exists>k w'. goes_on k w w')"

text \<open>The clones in flight: the name of the source volume and that of the new one.\<close>

definition cloning :: "req_state \<Rightarrow> (string \<times> string) set" where
  "cloning w = {(n, cName (sVols w) q) | n q k. opc w k = Using q \<and> wanted (sPc w k) = Some n}"

section \<open>No endless run\<close>

fun phase_rank :: "spc \<Rightarrow> nat" where
  "phase_rank SIdle = 0" | "phase_rank SEnd = 1" | "phase_rank (SDrop _) = 2" | "phase_rank (SRelFast2 _) = 3"
| "phase_rank (SRelW3 _) = 3" | "phase_rank (SRelFast _) = 4" | "phase_rank (SRelW2 _) = 4"
| "phase_rank (SRelW _) = 5" | "phase_rank (SRelWant _) = 6" | "phase_rank (SRelSlow _) = 7"
| "phase_rank (SRelR _) = 8" | "phase_rank (SRel _) = 9" | "phase_rank (SUse _) = 10"
| "phase_rank (SCheck _) = 11" | "phase_rank (SWait _) = 12" | "phase_rank (SNewWait _) = 12"
| "phase_rank (SNewAdded _) = 13" | "phase_rank (SNewHeld _) = 13" | "phase_rank (SLkHeld _) = 13"
| "phase_rank SNewBack = 13" | "phase_rank SNewOther = 14" | "phase_rank (SNewGot _) = 15"
| "phase_rank (SNewWant _) = 16" | "phase_rank (SNewVol _ _) = 17" | "phase_rank (SLkDrop _ _) = 18"
| "phase_rank (SLkBack _ _) = 19" | "phase_rank (SLkMiss _ _) = 20" | "phase_rank (SLkGot _ _) = 21"
| "phase_rank (SLkWant _ _) = 22" | "phase_rank (SLkVol _ _) = 23"

definition req_rank :: "req_state \<Rightarrow> nat \<Rightarrow> nat" where
  "req_rank w k = 1000 * rank (opc w k) + 20 * phase_rank (sPc w k) + rank (ipc w k)"

lemma rank_bound: "rank p \<le> 18"
  by (cases p) auto

lemma goes_on_rank:
  assumes "goes_on k w w'" "\<not> crashed w'" "phase_inv w"
  shows "req_rank w' k < req_rank w k"
proof -
  have step: "req_step k w w'" and at: "points w k \<noteq> no_request" "points w' k \<noteq> points w k"
    and same: "sPc w k = SIdle \<longrightarrow> sPc w' k = SIdle"
    using assms(1,2) unfolding goes_on_def by blast+
  have idle: "sPc w k = SIdle \<Longrightarrow> ipc w k = Idle" using assms(3) unfolding phase_inv_def by blast
  show ?thesis
    using step
  proof cases
    case (own_volume v)
    have "cPc v (inner k) = ipc w k" using step_others [OF own_volume(3)] by simp
    with own_volume at idle have "opc w k \<noteq> Idle" "cPc v (outer k) \<noteq> opc w k" by (auto simp: points_def)
    from advance_rank [OF own_volume(3) this] show ?thesis
      using own_volume(1,2) idle \<open>cPc v (inner k) = ipc w k\<close> by (simp add: req_rank_def)
  next
    case (source_volume v)
    have "cPc v (outer k) = opc w k" using step_others [OF source_volume(4)] by simp
    with source_volume at have "cPc v (inner k) \<noteq> ipc w k" by (auto simp: points_def)
    from advance_rank [OF source_volume(4,3) this] show ?thesis
      using source_volume(1) \<open>cPc v (outer k) = opc w k\<close> by (simp add: req_rank_def)
  qed (use at same assms(2) in \<open>simp_all add: req_rank_def points_def fresh_snapshot_def\<close>)
qed

lemma goes_on_others: "goes_on k w w' \<Longrightarrow> j \<noteq> k \<Longrightarrow> points w' j = points w j \<and> req_rank w' j = req_rank w j"
  unfolding goes_on_def points_def req_rank_def by (simp add: req_others [of k w w' j])

lemma requests_no_endless_run:
  assumes "req_inv (f 0)" "finite A" "\<And>k. k \<notin> A \<Longrightarrow> points (f 0) k = no_request" "\<And>n. \<exists>k. goes_on k (f n) (f (Suc n))"
  shows False
proof -
  have run: "req_inv (f n) \<and> (\<forall>k. k \<notin> A \<longrightarrow> points (f n) k = no_request)" for n
  proof (induction n)
    case (Suc n)
    obtain k where k: "goes_on k (f n) (f (Suc n))" using assms(4) by blast
    then have "k \<in> A" using Suc unfolding goes_on_def by blast
    then show ?case using Suc k goes_on_others [OF k] req_inv_step unfolding goes_on_def by metis
  qed (use assms(1,3) in blast)
  have "\<exists>k\<in>A. req_rank (f (Suc n)) k < req_rank (f n) k \<and> (\<forall>j. j \<noteq> k \<longrightarrow> req_rank (f (Suc n)) j = req_rank (f n) j)" for n
  proof -
    obtain k where k: "goes_on k (f n) (f (Suc n))" using assms(4) by blast
    have "\<not> crashed (f (Suc n))" using assms(4) [of "Suc n"] unfolding goes_on_def by blast
    then have "req_rank (f (Suc n)) k < req_rank (f n) k"
      using goes_on_rank [OF k] req_invs(2) run [of n] by blast
    moreover have "k \<in> A" using k run [of n] unfolding goes_on_def by blast
    ultimately show ?thesis using goes_on_others [OF k] by blast
  qed
  from no_endless_sum [OF assms(2), of "\<lambda>n. req_rank (f n)", OF this] show False .
qed

section \<open>Progress\<close>

lemma can_goI:
  assumes "\<not> crashed w" "req_step k w w'" "sPc w k \<noteq> SIdle" "sPc w' k \<noteq> sPc w k \<or> crashed w'"
  shows "can_go w"
  using assms unfolding can_go_def goes_on_def points_def by blast

lemma has_source: "phase_inv w \<Longrightarrow> sPc w k \<noteq> SIdle \<Longrightarrow> \<not> in_volume (sPc w k) \<Longrightarrow> \<exists>r. ipc w k = Using r"
  unfolding phase_inv_def by blast

text \<open>Who holds the lock of the table of snapshots goes on, and if it is free, who has the source volume.\<close>

lemma snap_lock_goes:
  assumes "req_inv w" "\<not> crashed w" "has_readS (sPc w k) \<or> has_writeS (sPc w k)"
  shows "can_go w"
proof -
  note go = can_goI [OF assms(2), of k]
  have "sPc w k \<noteq> SIdle" "\<not> in_volume (sPc w k)" using assms(3) by (cases "sPc w k"; simp)+
  then obtain r where r: "ipc w k = Using r" using has_source [OF req_invs(2) [OF assms(1)]] by blast
  show ?thesis
  proof (cases "sPc w k")
    case (SLkGot n m)
    show ?thesis
    proof (cases "sTable w m")
      case None
      then show ?thesis by (intro go [OF slk_miss [OF SLkGot]]) (simp_all add: SLkGot)
    next
      case (Some z)
      then show ?thesis
        by (cases "sSource w z = r")
          (intro go [OF slk_hold [OF SLkGot Some r]] go [OF slk_stale [OF SLkGot Some r]]; simp add: SLkGot)+
    qed
  next
    case (SNewGot m)
    show ?thesis
      by (cases "sTable w m")
        (intro go [OF snew_add [OF SNewGot _ r]] go [OF snew_other [OF SNewGot]]; simp add: SNewGot)+
  next
    case (SRelR z)
    show ?thesis
      by (cases "sRef w z = 1 \<and> sSt w z \<noteq> stateCreated")
        (intro go [OF srel_last [OF SRelR]] go [OF srel_other [OF SRelR]]; simp add: SRelR)+
  next
    case (SRelW2 z)
    show ?thesis
      by (cases "sRef w z = 0 \<and> sSt w z \<noteq> stateCreated")
        (intro go [OF srel_delete [OF SRelW2]] go [OF srel_keep [OF SRelW2]]; simp add: SRelW2)+
  qed (use assms(3) in \<open>auto intro: go [OF slk_runlock] go [OF slk_runlock_miss] go [OF snew_unlock_held]
      go [OF snew_unlock_other] go [OF snew_unlock] go [OF srel_runlock] go [OF srel_runlock_fast]
      go [OF srel_unbolt] go [OF srel_unlock]\<close>)
qed

lemma snap_free_goes:
  assumes "req_inv w" "\<not> crashed w" "sWriter w = None" "sReaders w = {}" "sPc w k \<noteq> SIdle" "\<not> in_volume (sPc w k)"
  shows "can_go w"
proof -
  note go = can_goI [OF assms(2), of k]
  obtain r where r: "ipc w k = Using r" using has_source [OF req_invs(2) [OF assms(1)] assms(5,6)] by blast
  show ?thesis
  proof (cases "has_readS (sPc w k) \<or> has_writeS (sPc w k)")
    case True
    then show ?thesis by (rule snap_lock_goes [OF assms(1,2)])
  next
    case False
    show ?thesis
    proof (cases "sPc w k")
      case (SCheck z)
      show ?thesis
        by (cases "sSt w z = stateCreated")
          (intro go [OF s_created [OF SCheck]] go [OF s_busy [OF SCheck]]; simp add: SCheck)+
    next
      case (SDrop z)
      show ?thesis
        by (cases "sSource w z = r")
          (intro go [OF s_drop [OF SDrop r]] go [OF s_drop_stale [OF SDrop r]]; simp add: SDrop)+
    next
      case (SWait z)
      have "sBolt w z = None" by (rule snap_bolt_free [OF assms(1), of k]) (simp add: SWait)
      then show ?thesis by (intro go [OF s_bolt [OF SWait]]) (simp_all add: SWait)
    next
      case (SNewWait z)
      have "sBolt w z = None" by (rule snap_bolt_free [OF assms(1), of k]) (simp add: SNewWait)
      then show ?thesis by (intro go [OF snew_bolt [OF SNewWait]]) (simp_all add: SNewWait)
    qed (use assms False r in \<open>auto intro: go [OF slk_rlock] go [OF slk_drop] go [OF snew_lock]
      go [OF snew_drop] go [OF s_finish] go [OF srel_rlock] go [OF srel_lock] go [OF srel_unbolt_fast]\<close>)
  qed
qed

text \<open>A use of a volume that can move lets its request go on, unless it waits for the other use.\<close>

lemma own_goes:
  assumes "\<not> crashed w" "moves (outer k) (sVols w)" "sPc w k = SIdle"
  shows "can_go w"
proof -
  obtain v where v: "cache_step (outer k) (sVols w) v" "rank (cPc v (outer k)) < rank (opc w k)"
    using assms(2) unfolding moves_def by blast
  then have "opc w k \<noteq> Idle" "cPc v (outer k) \<noteq> opc w k" by auto
  then show ?thesis
    using own_volume [OF assms(3) v(1)] assms(1,3) unfolding can_go_def goes_on_def points_def by fastforce
qed

lemma source_goes:
  assumes "\<not> crashed w" "moves (inner k) (sVols w)" "in_volume (sPc w k)"
  shows "can_go w"
proof -
  obtain v where v: "cache_step (inner k) (sVols w) v" "rank (cPc v (inner k)) < rank (ipc w k)"
    using assms(2) unfolding moves_def by blast
  then have "ipc w k \<noteq> Idle" "cPc v (inner k) \<noteq> ipc w k" by auto
  then show ?thesis
    using source_volume [OF assms(3) _ v(1)] assms(1,3) unfolding can_go_def goes_on_def points_def by fastforce
qed

lemma ended_goes:
  assumes "\<not> crashed w" "ipc w k = Idle" "in_volume (sPc w k)"
  shows "can_go w"
proof (cases "sPc w k")
  note go = can_goI [OF assms(1), of k]
  case (SLkDrop n m)
  then show ?thesis using go [OF slk_new [OF SLkDrop assms(2)]] by simp
qed (use assms in \<open>auto intro: can_goI [OF _ slk_failed] can_goI [OF _ snew_failed] can_goI [OF _ s_end]\<close>)

section \<open>Waiting for each other\<close>

lemma slot_cases: "\<exists>k. i = outer k \<or> i = inner k"
  unfolding outer_def inner_def by presburger

text \<open>States in which nothing goes on.\<close>

lemma unable_locks:
  assumes "req_inv w" "\<not> crashed w" "\<not> can_go w"
  shows "sWriter w = None" "sReaders w = {}" "sPc w k = SIdle \<or> in_volume (sPc w k)"
proof -
  have none: "\<not> has_readS (sPc w j)" "\<not> has_writeS (sPc w j)" for j
    using snap_lock_goes [OF assms(1,2)] assms(3) by blast+
  show free: "sWriter w = None" "sReaders w = {}"
    using none req_invs(3) [OF assms(1)] unfolding snap_locks_inv_def by (metis option.exhaust, blast)
  show "sPc w k = SIdle \<or> in_volume (sPc w k)"
    using snap_free_goes [OF assms(1,2) free] assms(3) by blast
qed

text \<open>Only the volume of a request that asks for the source of a snapshot could be used further.\<close>

lemma unable_moves:
  assumes "req_inv w" "\<not> crashed w" "\<not> can_go w" "moves i (sVols w)"
  shows "\<exists>k q. i = outer k \<and> sPc w k \<noteq> SIdle \<and> opc w k = Using q"
proof -
  note phase = req_invs(2) [OF assms(1), unfolded phase_inv_def, rule_format]
  obtain k where k: "i = outer k \<or> i = inner k" using slot_cases by blast
  have busy: "cPc (sVols w) i \<noteq> Idle" using assms(4) unfolding moves_def by auto
  show ?thesis
  proof (cases "i = outer k")
    case True
    then have "sPc w k \<noteq> SIdle" using own_goes [OF assms(2)] assms(3,4) by blast
    then show ?thesis using phase [of k] busy True by blast
  next
    case False
    with k have i: "i = inner k" by blast
    then have "in_volume (sPc w k)" using unable_locks(3) [OF assms(1-3), of k] phase [of k] busy by blast
    then show ?thesis using source_goes [OF assms(2)] assms(3,4) i by blast
  qed
qed

lemma unable_waits:
  assumes "req_inv w" "\<not> crashed w" "\<not> can_go w" "cPc (sVols w) i \<noteq> Idle" "\<not> moves i (sVols w)"
  shows "\<exists>r k. cPc (sVols w) i = WaitBolt r \<and> opc w k = Using r \<and> sPc w k \<noteq> SIdle"
proof -
  obtain c where c: "c = sVols w" by blast
  have inv: "locks_inv c" "bolt_owner_inv c" "fresh_inv c"
    using req_invs(1) [OF assms(1)] unfolding protocol_inv_def c by blast+
  have none: "\<not> has_read (cPc c j)" "\<not> has_write (cPc c j)" for j
  proof -
    have "moves j c" if "has_read (cPc c j) \<or> has_write (cPc c j)"
      using that reader_moves writer_moves inv(2,3) by blast
    then show "\<not> has_read (cPc c j)" "\<not> has_write (cPc c j)"
      using unable_moves [OF assms(1-3), of j] unfolding c by fastforce+
  qed
  have free: "cWriter c = None" "cReaders c = {}"
    using none inv(1) unfolding locks_inv_def by (metis option.exhaust, blast)
  obtain r j where r: "cPc c i = WaitBolt r" "cBolt c r = Some j"
    using free_moves [OF free, of i] assms(4,5) none [of i] unfolding c by (metis option.exhaust)
  then have own: "owns r (cPc c j)" using inv(2) unfolding bolt_owner_inv_def by blast
  then have "cPc c j \<noteq> Idle" "\<And>x. cPc c j \<noteq> WaitBolt x" by auto
  then have "moves j c" using free_moves [OF free, of j] none by blast
  then obtain k q where "j = outer k" "sPc w k \<noteq> SIdle" "opc w k = Using q"
    using unable_moves [OF assms(1-3)] unfolding c by blast
  then show ?thesis using own r(1) unfolding c by auto
qed

lemma unable_source:
  assumes "req_inv w" "wish_inv w" "\<not> crashed w" "\<not> can_go w" "sPc w k \<noteq> SIdle"
  shows "\<exists>r n j. ipc w k = WaitBolt r \<and> wanted (sPc w k) = Some n \<and> cName (sVols w) r = n \<and>
    opc w j = Using r \<and> sPc w j \<noteq> SIdle"
proof -
  have vol: "in_volume (sPc w k)" using unable_locks(3) [OF assms(1,3,4), of k] assms(5) by blast
  have "ipc w k \<noteq> Idle" using ended_goes [OF assms(3) _ vol] assms(4) by blast
  moreover have "\<not> moves (inner k) (sVols w)" using source_goes [OF assms(3) _ vol] assms(4) by blast
  ultimately obtain r j where r: "ipc w k = WaitBolt r" "opc w j = Using r" "sPc w j \<noteq> SIdle"
    using unable_waits [OF assms(1,3,4), of "inner k"] by blast
  have "given_back (sPc w k) \<Longrightarrow> leaving (ipc w k)" using assms(2) unfolding wish_inv_def by blast
  then have "\<not> given_back (sPc w k)" using r(1) by auto
  then obtain n where n: "wanted (sPc w k) = Some n" using vol by (cases "sPc w k") auto
  then have "asked (sVols w) n (ipc w k)" using assms(2) unfolding wish_inv_def by blast
  then have "cName (sVols w) r = n" using r(1) by simp
  with r n show ?thesis by blast
qed

lemma finite_cloning:
  assumes "wish_inv w"
  shows "finite (cloning w)"
proof -
  let ?edge = "\<lambda>k. (the (wanted (sPc w k)), cName (sVols w) (case opc w k of Using q \<Rightarrow> q | _ \<Rightarrow> 0))"
  have "cloning w \<subseteq> ?edge ` {k. sPc w k \<noteq> SIdle}"
  proof
    fix e assume "e \<in> cloning w"
    then obtain n q k where e: "e = (n, cName (sVols w) q)" "opc w k = Using q" "wanted (sPc w k) = Some n"
      unfolding cloning_def by blast
    then have "e = ?edge k" "sPc w k \<noteq> SIdle" by auto
    then show "e \<in> ?edge ` {k. sPc w k \<noteq> SIdle}" by blast
  qed
  then show ?thesis using assms finite_subset unfolding wish_inv_def by blast
qed

text \<open>Without a circle of clones a state in which nothing goes on is one without requests.\<close>

lemma unable_rest:
  assumes "req_inv w" "wish_inv w" "\<not> crashed w" "\<not> can_go w" "acyclic (cloning w)"
  shows "points w k = no_request"
proof (rule ccontr)
  assume busy: "points w k \<noteq> no_request"
  let ?B = "{cName (sVols w) r | r j. opc w j = Using r \<and> sPc w j \<noteq> SIdle}"
  have wf: "wf (cloning w)" using finite_acyclic_wf [OF finite_cloning [OF assms(2)] assms(5)] .
  have next': "\<exists>y \<in> ?B. (y, x) \<in> cloning w" if "x \<in> ?B" for x
  proof -
    obtain r j where r: "x = cName (sVols w) r" "opc w j = Using r" "sPc w j \<noteq> SIdle" using \<open>x \<in> ?B\<close> by blast
    from unable_source [OF assms(1-4) r(3)] obtain q i
      where q: "wanted (sPc w j) = Some (cName (sVols w) q)" "opc w i = Using q" "sPc w i \<noteq> SIdle" by blast
    have "(cName (sVols w) q, x) \<in> cloning w" using q(1) r(1,2) unfolding cloning_def by blast
    then show ?thesis using q(2,3) by blast
  qed
  have "\<exists>x. x \<in> ?B"
  proof (cases "sPc w k = SIdle")
    case False
    then show ?thesis using unable_source [OF assms(1-4)] by blast
  next
    case True
    then have "ipc w k = Idle" using req_invs(2) [OF assms(1)] unfolding phase_inv_def by blast
    with busy True have "opc w k \<noteq> Idle" by (simp add: points_def)
    moreover have "\<not> moves (outer k) (sVols w)" using own_goes [OF assms(3) _ True] assms(4) by blast
    ultimately show ?thesis using unable_waits [OF assms(1,3,4)] by blast
  qed
  then obtain x where x: "x \<in> ?B" by blast
  show False by (rule wfE_min [OF wf x]) (use next' in blast)
qed

section \<open>The properties\<close>

text \<open>
  Two clones: request 1 makes \<open>u\<close> from a snapshot of \<open>v\<close>, request 2 makes \<open>v\<close>, and may then ask
  for a snapshot of \<open>u\<close>.
\<close>

lemmas run_start = rr_start [THEN rr_step, OF _ own_volume [OF _ call_new [of _ "outer 1" "''u''"]],
  simplified req_start_def cache_start_def, simplified]

lemma clone_run:
  "\<exists>w. req_reachable w \<and> \<not> crashed w \<and> points w 1 = (Using 0, SLkVol ''v'' ''s'', WaitBolt 1) \<and>
    points w 2 = (Using 1, SIdle, Idle) \<and> cName (sVols w) 0 = ''u'' \<and> cName (sVols w) 1 = ''v'' \<and>
    cTable (sVols w) ''u'' = Some 0 \<and> cTable (sVols w) ''v'' = Some 1 \<and>
    cWriter (sVols w) = None \<and> (\<forall>k. k \<noteq> 1 \<longrightarrow> k \<noteq> 2 \<longrightarrow> points w k = no_request)"
proof -
  note own = rr_step [OF _ _ own_volume, rotated 2]
  note r = run_start
  note r = own [OF _ new_lock [of _ "outer 1" "''u''"] r, simplified]
  note r = own [OF _ new_add [of _ "outer 1" "''u''"] r, simplified fresh_volume_def, simplified]
  note r = own [OF _ new_hold_new [of _ "outer 1" 0] r, simplified]
  note r = own [OF _ new_bolt [of _ "outer 1" 0] r, simplified]
  note r = own [OF _ new_unlock [of _ "outer 1" 0] r, simplified]
  note r = own [OF _ call_new [of _ "outer 2" "''v''"] r, simplified]
  note r = own [OF _ new_lock [of _ "outer 2" "''v''"] r, simplified]
  note r = own [OF _ new_add [of _ "outer 2" "''v''"] r, simplified fresh_volume_def, simplified]
  note r = own [OF _ new_hold_new [of _ "outer 2" 1] r, simplified]
  note r = own [OF _ new_bolt [of _ "outer 2" 1] r, simplified]
  note r = own [OF _ new_unlock [of _ "outer 2" 1] r, simplified]
  note r = rr_step [OF r _ call_clone [of _ 1 0 "''v''" "''s''"], simplified]
  note source = rr_step [OF _ _ source_volume, rotated 2]
  note r = source [OF _ _ lk_rlock [of _ "inner 1" "''v''"] r, simplified]
  note r = source [OF _ _ lk_hold [of _ "inner 1" "''v''" 1] r, simplified]
  note r = source [OF _ _ lk_runlock [of _ "inner 1" 1] r, simplified]
  show ?thesis by (rule exI, rule conjI, rule r) (simp add: points_def)
qed

lemma clones_run:
  "\<exists>w. req_reachable w \<and> \<not> crashed w \<and> points w 1 = (Using 0, SLkVol ''v'' ''s'', WaitBolt 1) \<and>
    points w 2 = (Using 1, SLkVol ''u'' ''t'', WaitBolt 0) \<and> cName (sVols w) 0 = ''u'' \<and>
    cName (sVols w) 1 = ''v'' \<and> (\<forall>k. k \<noteq> 1 \<longrightarrow> k \<noteq> 2 \<longrightarrow> points w k = no_request)"
proof -
  obtain w0 where w0: "req_reachable w0" "\<not> crashed w0" "points w0 1 = (Using 0, SLkVol ''v'' ''s'', WaitBolt 1)"
    "points w0 2 = (Using 1, SIdle, Idle)" "cName (sVols w0) 0 = ''u''" "cName (sVols w0) 1 = ''v''"
    "cTable (sVols w0) ''u'' = Some 0" "cWriter (sVols w0) = None" "\<forall>k. k \<noteq> 1 \<longrightarrow> k \<noteq> 2 \<longrightarrow> points w0 k = no_request"
    using clone_run by blast
  note w = w0(2-) [unfolded points_def, simplified]
  note r = rr_step [OF w0(1,2) call_clone [of _ 2 1 "''u''" "''t''"], simplified w, simplified]
  note source = rr_step [OF _ _ source_volume, rotated 2]
  note r = source [OF _ _ lk_rlock [of _ "inner 2" "''u''"] r, simplified w, simplified]
  note r = source [OF _ _ lk_hold [of _ "inner 2" "''u''" 0] r, simplified w, simplified]
  note r = source [OF _ _ lk_runlock [of _ "inner 2" 0] r, simplified w, simplified]
  obtain w1 where w1: "w1 = (goes w0 2 (SLkVol ''u'' ''t''))\<lparr>sVols := (addRef 0 1 (sVols w0))\<lparr>
    cReaders := cReaders (sVols w0) - {inner 2}, cPc := (cPc (sVols w0))(inner 2 := WaitBolt 0)\<rparr>\<rparr>" by blast
  have "req_reachable w1" unfolding w1 by (rule r) (simp_all add: w)
  moreover have "\<not> crashed w1" by (simp add: w1 w)
  moreover have "points w1 1 = (Using 0, SLkVol ''v'' ''s'', WaitBolt 1)" "points w1 2 = (Using 1, SLkVol ''u'' ''t'', WaitBolt 0)"
    "\<forall>k. k \<noteq> 1 \<longrightarrow> k \<noteq> 2 \<longrightarrow> points w1 k = no_request"
    by (simp_all add: w1 w points_def)
  moreover have "cName (sVols w1) 0 = ''u''" "cName (sVols w1) 1 = ''v''" by (simp_all add: w1 w)
  ultimately show ?thesis by blast
qed



text \<open>A step of some request; what a request in a circle waits for never comes.\<close>

definition req_run :: "req_state \<Rightarrow> req_state \<Rightarrow> bool" where
  "req_run w w' \<longleftrightarrow> \<not> crashed w \<and> (\<exists>k. req_step k w w')"

definition waits_for :: "req_state \<Rightarrow> nat \<Rightarrow> nat \<Rightarrow> nat \<Rightarrow> nat \<Rightarrow> bool" where
  "waits_for w k q j r \<longleftrightarrow> opc w k = Using q \<and> opc w j = Using r \<and> ipc w k = WaitBolt r \<and>
     (\<exists>n m. sPc w k = SLkVol n m)"

lemma waiting_request_stays:
  assumes "req_inv w" "waits_for w k q j r" "req_step i w w'"
  shows "i \<noteq> k"
proof
  assume i: "i = k"
  have bolt: "cBolt (sVols w) r = Some (outer j)"
    using req_invs(1) [OF assms(1)] assms(2)
    unfolding waits_for_def protocol_inv_def bolt_owner_inv_def by (metis owns.simps(3))
  show False
    using assms(3) by cases (use assms(2) i bolt in \<open>auto simp: waits_for_def elim: cache_step.cases\<close>)
qed

lemma circle_stays:
  assumes "req_run\<^sup>*\<^sup>* w w'" "req_inv w" "waits_for w 1 q 2 r" "waits_for w 2 r 1 q"
  shows "req_inv w' \<and> points w' 1 = points w 1 \<and> points w' 2 = points w 2"
  using assms(1)
proof induction
  case (step v v')
  then obtain k where k: "req_step k v v'" unfolding req_run_def by blast
  have same: "points v 1 = points w 1" "points v 2 = points w 2" "req_inv v" using step.IH by blast+
  then have "waits_for v 1 q 2 r" "waits_for v 2 r 1 q"
    using assms(3,4) unfolding waits_for_def points_def by simp_all
  then have "k \<noteq> 1" "k \<noteq> 2" using waiting_request_stays [OF same(3) _ k] by blast+
  then show ?case
    using same req_others [OF k] req_inv_step [OF k same(3)] unfolding points_def by simp
qed (use assms(2) in blast)

text \<open>
  C6: Two clones can wait for each other for ever: of two requests, each of which makes a volume
  from a snapshot of the volume that the other one makes, each has its own volume and waits for
  the other one's; whatever other requests do, none of the two ever goes on.
\<close>

theorem clones_wait_for_each_other:
  "\<exists>w. req_reachable w \<and> \<not> crashed w \<and> cloning w = {(''v'', ''u''), (''u'', ''v'')} \<and>
     points w 1 = (Using 0, SLkVol ''v'' ''s'', WaitBolt 1) \<and>
     points w 2 = (Using 1, SLkVol ''u'' ''t'', WaitBolt 0) \<and>
     \<not> (\<exists>w' k. req_run\<^sup>*\<^sup>* w w' \<and> k \<in> {1, 2} \<and> points w' k \<noteq> points w k)"
proof -
  obtain w where w: "req_reachable w" "\<not> crashed w" "points w 1 = (Using 0, SLkVol ''v'' ''s'', WaitBolt 1)"
    "points w 2 = (Using 1, SLkVol ''u'' ''t'', WaitBolt 0)" "cName (sVols w) 0 = ''u''" "cName (sVols w) 1 = ''v''"
    "\<forall>k. k \<noteq> 1 \<longrightarrow> k \<noteq> 2 \<longrightarrow> points w k = no_request"
    using clones_run by blast
  have "cloning w \<subseteq> {(''v'', ''u''), (''u'', ''v'')}"
  proof
    fix e assume "e \<in> cloning w"
    then obtain n q k where e: "e = (n, cName (sVols w) q)" "opc w k = Using q" "wanted (sPc w k) = Some n"
      unfolding cloning_def by blast
    then have "k = 1 \<or> k = 2" using w(7) by (auto simp: points_def)
    then show "e \<in> {(''v'', ''u''), (''u'', ''v'')}" using e w(3-6) by (auto simp: points_def)
  qed
  moreover have "(''v'', cName (sVols w) 0) \<in> cloning w" "(''u'', cName (sVols w) 1) \<in> cloning w"
    using w(3,4) unfolding cloning_def points_def by fastforce+
  ultimately have "cloning w = {(''v'', ''u''), (''u'', ''v'')}" unfolding w(5,6) by blast
  moreover have "waits_for w 1 0 2 1" "waits_for w 2 1 1 0"
    using w(3,4) by (auto simp: waits_for_def points_def)
  then have "\<not> (\<exists>w' k. req_run\<^sup>*\<^sup>* w w' \<and> k \<in> {1, 2} \<and> points w' k \<noteq> points w k)"
    using circle_stays req_reachable_inv [OF w(1)] by blast
  ultimately show ?thesis using w(1-4) by blast
qed

end
