(* ===== verification/SnapAgreement.thy ===== *)
theory SnapAgreement
  imports CacheAgreement SnapProperties
begin

text \<open>
  The two models of the snapshot cache agree: what \<open>lookupSnapshot\<close> and \<open>releaseSnapshot\<close> of \<open>Cache\<close>
  do to the driver, in one go, is a run of the steps of \<open>SnapProtocol\<close> by one request.  The context
  of request \<open>k\<close> is \<open>inner k\<close>.
\<close>

section \<open>The view\<close>

definition snap_field :: "'a \<Rightarrow> (zSnapshot \<Rightarrow> 'a) \<Rightarrow> ('w, 'b) driver_scheme \<Rightarrow> nat \<Rightarrow> 'a" where
  "snap_field d f s z = (case snaps s z of None \<Rightarrow> d | Some o1 \<Rightarrow> f o1)"

definition request_view :: "(nat \<Rightarrow> cpc) \<Rightarrow> (nat \<Rightarrow> spc) \<Rightarrow> ('w, 'b) driver_scheme \<Rightarrow> req_state" where
  "request_view pos spos s = \<lparr>sVols = volume_view pos s, sTable = map_of (sHash s),
     sName = snap_field [] zName_of s, sVolName = snap_field [] (\<lambda>o1. vidName (sidVolumeId (zId o1))) s,
     sSource = snap_field 0 zVol s, sRef = snap_field 0 zRefcount s, sSt = snap_field stateCreating zState s,
     sBolt = snap_field None (\<lambda>o1. map_option (\<lambda>i. i div 2) (zBolt o1)) s, sNext = nextRef s,
     sWriter = None, sReaders = {}, sPc = spos, crashed = False\<rparr>"

lemma inner_div [simp]: "inner k div 2 = k"
  unfolding inner_def by simp

lemma snap_field_put [simp]: "snap_field d f (putSnap z o1 s) = (snap_field d f s)(z := f o1)"
  by (rule ext) (simp add: snap_field_def)

lemma snap_field_other [simp]:
  "snap_field d f (s\<lparr>sHash := h\<rparr>) = snap_field d f s" "snap_field d f (putVol r v s) = snap_field d f s"
  by (rule ext, simp add: snap_field_def)+

lemma snap_field_at: "snaps s z = Some o1 \<Longrightarrow> snap_field d f s z = f o1"
  by (simp add: snap_field_def)

lemma snap_field_same: "snaps s' = snaps s \<Longrightarrow> snap_field d f s' = snap_field d f s"
  by (rule ext) (simp add: snap_field_def)

lemma volume_field_snap [simp]:
  "volume_field d f (putSnap z o1 s) = volume_field d f s" "volume_field d f (s\<lparr>sHash := h\<rparr>) = volume_field d f s"
  by (rule ext, simp add: volume_field_def)+

lemma volume_view_snap [simp]:
  "volume_view pos (putSnap z o1 s) = volume_view pos s" "volume_view pos (s\<lparr>sHash := h\<rparr>) = volume_view pos s"
  by (simp_all add: volume_view_def)

section \<open>Runs of one request\<close>

lemma req_chain: "req_step k w w1 \<Longrightarrow> (req_step k)\<^sup>*\<^sup>* w1 w2 \<Longrightarrow> (req_step k)\<^sup>*\<^sup>* w w2"
  by (rule converse_rtranclp_into_rtranclp)

lemma source_runs:
  assumes "(busy_step (inner k))\<^sup>*\<^sup>* (sVols w) c" "in_volume (sPc w k)"
  shows "(req_step k)\<^sup>*\<^sup>* w (w\<lparr>sVols := c\<rparr>)"
  using assms(1)
proof induction
  case (step c1 c2)
  have "req_step k (w\<lparr>sVols := c1\<rparr>) ((w\<lparr>sVols := c1\<rparr>)\<lparr>sVols := c2\<rparr>)"
    using step.hyps(2) assms(2) by (intro source_volume) (simp_all add: busy_step_def)
  with step.IH show ?case by simp
qed simp

text \<open>A lookup of a cached snapshot, given the lookup of its volume.\<close>

lemma snap_lookup_run:
  assumes "sPc w k = SIdle" "opc w k = Idle" "sWriter w = None" "sReaders w = {}" "sTable w m = Some z"
    "sSource w z = r" "sBolt w z = None" "sSt w z = stateCreated"
    "(busy_step (inner k))\<^sup>*\<^sup>* (moveto (sVols w) (inner k) (LkWant n)) c" "cPc c (inner k) = Using r"
  shows "(req_step k)\<^sup>*\<^sup>* w (w\<lparr>sVols := c, sRef := (sRef w)(z := sRef w z + 1),
    sBolt := (sBolt w)(z := Some k), sPc := (sPc w)(k := SUse z)\<rparr>)"
proof -
  obtain w1 where w1: "w1 = goes (looking k n w) k (SLkVol n m)" by blast
  obtain w2 where w2: "w2 = w1\<lparr>sVols := c\<rparr>" by blast
  obtain w3 where w3: "w3 = goes w2 k (SLkWant n m)" by blast
  obtain w4 where w4: "w4 = goes (readingS k w3) k (SLkGot n m)" by blast
  obtain w5 where w5: "w5 = goes (addCount z 1 w4) k (SLkHeld z)" by blast
  obtain w6 where w6: "w6 = goes (unreadingS k w5) k (SWait z)" by blast
  obtain w7 where w7: "w7 = goes (setBoltS z (Some k) w6) k (SCheck z)" by blast
  obtain w8 where w8: "w8 = goes w7 k (SUse z)" by blast
  have s1: "req_step k w w1" unfolding w1 by (rule call_lookupSnapshot) (simp_all add: assms)
  have s2: "(req_step k)\<^sup>*\<^sup>* w1 w2" unfolding w2 by (rule source_runs) (simp_all add: w1 assms)
  have s3: "req_step k w2 w3" unfolding w3 by (rule slk_volume [of _ _ _ _ r]) (simp_all add: w1 w2 assms)
  have s4: "req_step k w3 w4" unfolding w4 by (rule slk_rlock) (simp_all add: w1 w2 w3 assms)
  have s5: "req_step k w4 w5" unfolding w5 by (rule slk_hold [of _ _ n m _ r]) (simp_all add: w1 w2 w3 w4 assms)
  have s6: "req_step k w5 w6" unfolding w6 by (rule slk_runlock) (simp_all add: w1 w2 w3 w4 w5 assms)
  have s7: "req_step k w6 w7" unfolding w7 by (rule s_bolt) (simp_all add: w1 w2 w3 w4 w5 w6 assms)
  have s8: "req_step k w7 w8" unfolding w8 by (rule s_created) (simp_all add: w1 w2 w3 w4 w5 w6 w7 assms)
  have "(req_step k)\<^sup>*\<^sup>* w w8"
    by (rule req_chain [OF s1], rule rtranclp_trans [OF s2], rule req_chain [OF s3], rule req_chain [OF s4],
        rule req_chain [OF s5], rule req_chain [OF s6], rule req_chain [OF s7], rule req_chain [OF s8], rule rtranclp.rtrancl_refl)
  then show ?thesis using assms(4) by (cases w) (simp add: w1 w2 w3 w4 w5 w6 w7 w8)
qed

text \<open>The end of a release: that of the source volume.\<close>

lemma snap_drop_run:
  assumes "sPc w k = SDrop z" "ipc w k = Using r" "sSource w z = r"
    "(busy_step (inner k))\<^sup>*\<^sup>* (moveto (sVols w) (inner k) (Rel r)) c" "cPc c (inner k) = Idle"
  shows "(req_step k)\<^sup>*\<^sup>* w (w\<lparr>sVols := c, sPc := (sPc w)(k := SIdle)\<rparr>)"
proof -
  obtain w1 where w1: "w1 = goes (dropping k r w) k SEnd" by blast
  obtain w2 where w2: "w2 = w1\<lparr>sVols := c\<rparr>" by blast
  obtain w3 where w3: "w3 = goes w2 k SIdle" by blast
  have s1: "req_step k w w1" unfolding w1 by (rule s_drop [of w k z]) (simp_all add: assms)
  have s2: "(req_step k)\<^sup>*\<^sup>* w1 w2" unfolding w2 by (rule source_runs) (simp_all add: w1 assms)
  have s3: "req_step k w2 w3" unfolding w3 by (rule s_end) (simp_all add: w1 w2 assms)
  have "(req_step k)\<^sup>*\<^sup>* w w3"
    by (rule req_chain [OF s1], rule rtranclp_trans [OF s2], rule req_chain [OF s3], rule rtranclp.rtrancl_refl)
  then show ?thesis by (cases w) (simp add: w1 w2 w3)
qed

lemma snap_release_created:
  assumes "sPc w k = SUse z" "sWriter w = None" "sReaders w = {}" "sSt w z = stateCreated"
  shows "(req_step k)\<^sup>*\<^sup>* w (w\<lparr>sRef := (sRef w)(z := sRef w z - 1), sBolt := (sBolt w)(z := None),
    sPc := (sPc w)(k := SDrop z)\<rparr>)"
proof -
  obtain w1 where w1: "w1 = goes w k (SRel z)" by blast
  obtain w2 where w2: "w2 = goes (readingS k w1) k (SRelR z)" by blast
  obtain w3 where w3: "w3 = goes (addCount z (- 1) w2) k (SRelFast z)" by blast
  obtain w4 where w4: "w4 = goes (unreadingS k w3) k (SRelFast2 z)" by blast
  obtain w5 where w5: "w5 = goes (setBoltS z None w4) k (SDrop z)" by blast
  have s1: "req_step k w w1" unfolding w1 by (rule s_finish) (simp_all add: assms)
  have s2: "req_step k w1 w2" unfolding w2 by (rule srel_rlock) (simp_all add: w1 assms)
  have s3: "req_step k w2 w3" unfolding w3 by (rule srel_other) (simp_all add: w1 w2 assms)
  have s4: "req_step k w3 w4" unfolding w4 by (rule srel_runlock_fast) (simp_all add: w1 w2 w3 assms)
  have s5: "req_step k w4 w5" unfolding w5 by (rule srel_unbolt_fast) (simp_all add: w1 w2 w3 w4 assms)
  have "(req_step k)\<^sup>*\<^sup>* w w5"
    by (rule req_chain [OF s1], rule req_chain [OF s2], rule req_chain [OF s3], rule req_chain [OF s4],
        rule req_chain [OF s5], rule rtranclp.rtrancl_refl)
  then show ?thesis using assms(3) by (cases w) (simp add: w1 w2 w3 w4 w5)
qed

lemma snap_release_last:
  assumes "sPc w k = SUse z" "sWriter w = None" "sReaders w = {}" "sSt w z \<noteq> stateCreated" "sRef w z = 1"
  shows "(req_step k)\<^sup>*\<^sup>* w (w\<lparr>sTable := (sTable w)(sName w z := None), sRef := (sRef w)(z := 0),
    sBolt := (sBolt w)(z := None), sPc := (sPc w)(k := SDrop z)\<rparr>)"
proof -
  obtain w1 where w1: "w1 = goes w k (SRel z)" by blast
  obtain w2 where w2: "w2 = goes (readingS k w1) k (SRelR z)" by blast
  obtain w3 where w3: "w3 = goes (addCount z (- 1) w2) k (SRelSlow z)" by blast
  obtain w4 where w4: "w4 = goes (unreadingS k w3) k (SRelWant z)" by blast
  obtain w5 where w5: "w5 = goes (w4\<lparr>sWriter := Some k\<rparr>) k (SRelW z)" by blast
  obtain w6 where w6: "w6 = goes (setBoltS z None w5) k (SRelW2 z)" by blast
  obtain w7 where w7: "w7 = goes (w6\<lparr>sTable := (sTable w6)(sName w6 z := None)\<rparr>) k (SRelW3 z)" by blast
  obtain w8 where w8: "w8 = goes (w7\<lparr>sWriter := None\<rparr>) k (SDrop z)" by blast
  have s1: "req_step k w w1" unfolding w1 by (rule s_finish) (simp_all add: assms)
  have s2: "req_step k w1 w2" unfolding w2 by (rule srel_rlock) (simp_all add: w1 assms)
  have s3: "req_step k w2 w3" unfolding w3 by (rule srel_last) (simp_all add: w1 w2 assms)
  have s4: "req_step k w3 w4" unfolding w4 by (rule srel_runlock) (simp_all add: w1 w2 w3 assms)
  have s5: "req_step k w4 w5" unfolding w5 by (rule srel_lock) (simp_all add: w1 w2 w3 w4 assms)
  have s6: "req_step k w5 w6" unfolding w6 by (rule srel_unbolt) (simp_all add: w1 w2 w3 w4 w5 assms)
  have s7: "req_step k w6 w7" unfolding w7 by (rule srel_delete) (simp_all add: w1 w2 w3 w4 w5 w6 assms)
  have s8: "req_step k w7 w8" unfolding w8 by (rule srel_unlock) (simp_all add: w1 w2 w3 w4 w5 w6 w7 assms)
  have "(req_step k)\<^sup>*\<^sup>* w w8"
    by (rule req_chain [OF s1], rule req_chain [OF s2], rule req_chain [OF s3], rule req_chain [OF s4],
        rule req_chain [OF s5], rule req_chain [OF s6], rule req_chain [OF s7], rule req_chain [OF s8],
        rule rtranclp.rtrancl_refl)
  then show ?thesis using assms(2,3,5) by (cases w) (simp add: w1 w2 w3 w4 w5 w6 w7 w8)
qed

section \<open>Agreement\<close>

text \<open>The state after the lookup: the snapshot and its volume are locked and counted.\<close>

definition both_locked :: "nat \<Rightarrow> nat \<Rightarrow> nat \<Rightarrow> ('w, 'b) driver_scheme \<Rightarrow> ('w, 'b) driver_scheme" where
  "both_locked k r z s = putSnap z (slock.acquired (Some (inner k)) (the (snaps s z)))
     (putVol r (vlock.acquired (Some (inner k)) (the (vols s r))) s)"

lemma snap_lookup_agrees:
  assumes "held {} {} (Some (inner k)) s" "SnapshotIdFromString i = Inr sid"
    "VolumeIdFromString (VolumeId_String (sidVolumeId sid)) = Inr vid" "map_of (vHash s) (vidName vid) = Some r"
    "map_of (sHash s) (sidName sid) = Some z" "snaps s z = Some o1" "zVol o1 = r"
    "spos k = SIdle" "pos (outer k) = Idle"
  shows "lookupSnapshot env (Some (inner k)) t i s = (Done (Inr z), both_locked k r z s)"
    "got_snapshot {} (Some (inner k)) z (both_locked k r z s)"
    "(req_step k)\<^sup>*\<^sup>* (request_view pos spos s)
       (request_view (pos(inner k := Using r)) (spos(k := SUse z)) (both_locked k r z s))"
proof -
  obtain v where v: "vols s r = Some v"
    "lookupVolume env (Some (inner k)) t (VolumeId_String (sidVolumeId sid)) s
      = (Done (Inr r), putVol r (vlock.acquired (Some (inner k)) v) s)"
    "got_volume {} {} (Some (inner k)) (vidName vid) r (putVol r (vlock.acquired (Some (inner k)) v) s)"
    "(busy_step (inner k))\<^sup>*\<^sup>* (moveto (volume_view pos s) (inner k) (LkWant (vidName vid)))
      (volume_view (pos(inner k := Using r)) (putVol r (vlock.acquired (Some (inner k)) v) s))"
    using lookup_agrees [OF assms(1,3,4), where env = env and t = t and pos = pos] by blast
  obtain s1 where s1: "s1 = putVol r (vlock.acquired (Some (inner k)) v) s" by blast
  have o1: "zBolt o1 = None" "zRefcount o1 = 0" "zState o1 = stateCreated"
    using cached_snapshot [OF assms(1,5)] assms(6) by auto
  have at1: "snaps s1 z = Some o1" "map_of (sHash s1) (sidName sid) = Some z" using assms(5,6) by (simp_all add: s1)
  have both: "both_locked k r z s = putSnap z (slock.acquired (Some (inner k)) o1) s1"
    by (simp add: both_locked_def s1 v(1) assms(6))
  note cached = lookupSnapshot_cached [OF v(3) [folded s1] at1(2,1) assms(7) o1(3,1,2)]
  have same: "sHash s1 = sHash s" "nextRef s1 = nextRef s" "snaps s1 = snaps s" by (simp_all add: s1)
  have m: "sMutex s1 = RWFree" using assms(1) by (simp add: s1 held_def)
  show "lookupSnapshot env (Some (inner k)) t i s = (Done (Inr z), both_locked k r z s)"
    using at1 m assms(7) cached(1)
    by (simp add: lookupSnapshot_def assms(2) tryG_Inr [where m = "lookupVolume env (Some (inner k)) t _", OF v(2) [folded s1]]
        cache_run getSnap_def both)
  show "got_snapshot {} (Some (inner k)) z (both_locked k r z s)" unfolding both by (rule cached(2))
  have "(req_step k)\<^sup>*\<^sup>* (request_view pos spos s)
      ((request_view pos spos s)\<lparr>sVols := volume_view (pos(inner k := Using r)) s1,
        sRef := (sRef (request_view pos spos s))(z := sRef (request_view pos spos s) z + 1),
        sBolt := (sBolt (request_view pos spos s))(z := Some k), sPc := spos(k := SUse z)\<rparr>)"
    using snap_lookup_run [of "request_view pos spos s" k "sidName sid" z r "vidName vid"
        "volume_view (pos(inner k := Using r)) s1"] v(4) assms(5-9) o1
    by (simp add: request_view_def snap_field_at s1) (simp add: volume_view_def)
  moreover have "(request_view pos spos s)\<lparr>sVols := volume_view (pos(inner k := Using r)) s1,
        sRef := (sRef (request_view pos spos s))(z := sRef (request_view pos spos s) z + 1),
        sBolt := (sBolt (request_view pos spos s))(z := Some k), sPc := spos(k := SUse z)\<rparr>
      = request_view (pos(inner k := Using r)) (spos(k := SUse z)) (both_locked k r z s)"
    using assms(6) o1 same(1,2)
    by (simp add: snap_field_same [OF same(3)] both request_view_def slock.acquired_def snap_field_at fun_upd_idem zName_of_def)
  ultimately show "(req_step k)\<^sup>*\<^sup>* (request_view pos spos s)
       (request_view (pos(inner k := Using r)) (spos(k := SUse z)) (both_locked k r z s))" by metis
qed

lemma snap_release_agrees:
  assumes "got_snapshot {} (Some (inner k)) z s" "spos k = SUse z" "snaps s z = Some o1" "pos (inner k) = Using (zVol o1)"
  shows "\<exists>s'. releaseSnapshot (Some (inner k)) z s = (Done (), s') \<and>
    (req_step k)\<^sup>*\<^sup>* (request_view pos spos s) (request_view (pos(inner k := Idle)) (spos(k := SIdle)) s')"
proof -
  obtain r where r: "held {r} {z} (Some (inner k)) s" "zVol o1 = r"
    using assms(1,3) by (auto simp: got_snapshot_def)
  have lock: "zBolt o1 = Some (inner k)" "zRefcount o1 = 1" "sMutex s = RWFree"
    using r(1) assms(3) by (auto simp: held_def cache_inv_def)
  let ?v = "request_view pos"
  obtain s1 where s1: "s1 = (if zState o1 = stateCreated then putSnap z (slock.dropped o1) s
    else (putSnap z (slock.dropped o1) s)\<lparr>sHash := AList.delete (zName_of o1) (sHash s)\<rparr>)" by blast
  have held1: "held {r} {} (Some (inner k)) s1"
    using held_drop_snap [OF r(1) assms(3)] held_delete_snap [OF r(1) insertI1 assms(3)] by (auto simp: s1)
  have run: "releaseSnapshot (Some (inner k)) z s = releaseVolume (Some (inner k)) r s1"
    using r(2) assms(3) lock
    by (simp add: releaseSnapshot_def getSnap_def cache_run slock.dropped_def s1 Let_def zName_of_def)
  have first: "(req_step k)\<^sup>*\<^sup>* (?v spos s) (?v (spos(k := SDrop z)) s1)"
  proof (cases "zState o1 = stateCreated")
    case True
    have "(?v spos s)\<lparr>sRef := (sRef (?v spos s))(z := sRef (?v spos s) z - 1), sBolt := (sBolt (?v spos s))(z := None),
        sPc := spos(k := SDrop z)\<rparr> = ?v (spos(k := SDrop z)) s1"
      using True by (simp add: s1 request_view_def slock.dropped_def snap_field_at assms(3) lock fun_upd_idem zName_of_def)
    moreover have "(req_step k)\<^sup>*\<^sup>* (?v spos s) ((?v spos s)\<lparr>sRef := (sRef (?v spos s))(z := sRef (?v spos s) z - 1),
        sBolt := (sBolt (?v spos s))(z := None), sPc := (sPc (?v spos s))(k := SDrop z)\<rparr>)"
      by (rule snap_release_created) (simp_all add: request_view_def snap_field_at True assms(2,3))
    moreover have "sPc (?v spos s) = spos" by (simp add: request_view_def)
    ultimately show ?thesis by metis
  next
    case False
    have "(?v spos s)\<lparr>sTable := (sTable (?v spos s))(sName (?v spos s) z := None), sRef := (sRef (?v spos s))(z := 0),
        sBolt := (sBolt (?v spos s))(z := None), sPc := spos(k := SDrop z)\<rparr> = ?v (spos(k := SDrop z)) s1"
      using False by (simp add: s1 request_view_def slock.dropped_def snap_field_at assms(3) lock fun_upd_idem
          delete_conv' zName_of_def)
    moreover have "(req_step k)\<^sup>*\<^sup>* (?v spos s) ((?v spos s)\<lparr>sTable := (sTable (?v spos s))(sName (?v spos s) z := None),
        sRef := (sRef (?v spos s))(z := 0), sBolt := (sBolt (?v spos s))(z := None), sPc := (sPc (?v spos s))(k := SDrop z)\<rparr>)"
      by (rule snap_release_last) (simp_all add: request_view_def snap_field_at False assms(2,3) lock)
    moreover have "sPc (?v spos s) = spos" by (simp add: request_view_def)
    ultimately show ?thesis by metis
  qed
  obtain s' where s': "releaseVolume (Some (inner k)) r s1 = (Done (), s')" "snaps s' = snaps s1" "sHash s' = sHash s1"
    "(busy_step (inner k))\<^sup>*\<^sup>* (moveto (volume_view pos s1) (inner k) (Rel r)) (volume_view (pos(inner k := Idle)) s')"
    "nextRef s' = nextRef s1"
    using release_agrees [OF held1 insertI1, of pos] by blast
  let ?w = "?v (spos(k := SDrop z)) s1"
  have "zVol o1 = r" "snap_field 0 zVol s1 z = r"
    using r(2) assms(3) by (simp_all add: s1 snap_field_at slock.dropped_def)
  then have "(req_step k)\<^sup>*\<^sup>* ?w (?w\<lparr>sVols := volume_view (pos(inner k := Idle)) s', sPc := (sPc ?w)(k := SIdle)\<rparr>)"
    using s'(4) assms(4) by (intro snap_drop_run [of ?w k z r]) (simp_all add: request_view_def volume_view_def)
  moreover have "?w\<lparr>sVols := volume_view (pos(inner k := Idle)) s', sPc := (sPc ?w)(k := SIdle)\<rparr>
      = request_view (pos(inner k := Idle)) (spos(k := SIdle)) s'"
    using s'(3,5) by (simp add: request_view_def snap_field_same [OF s'(2)])
  ultimately have "(req_step k)\<^sup>*\<^sup>* ?w (request_view (pos(inner k := Idle)) (spos(k := SIdle)) s')" by metis
  then show ?thesis using first run s'(1) by (metis rtranclp_trans)
qed


text \<open>The volume \<open>f\<close> and its snapshot \<open>s\<close>, both cached.\<close>

definition cached_state :: "http_result list driver" where
  "cached_state = stale_state\<lparr>snaps := (snaps stale_state)(2 := map_option (\<lambda>o1. o1\<lparr>zVol := 1\<rparr>) (snaps stale_state 2))\<rparr>"


end
