(* ===== verification/Spec2Isabelle.thy ===== *)
theory Spec2Isabelle
  imports RestProperties ControllerProperties Deadlocks Evolution StartupProperties CacheRefinement CacheAgreement
    TokenProperties Server Logging Schema SnapLiveness SnapAgreement
begin

text \<open>
  The driver connects a container orchestrator, through the CSI protocol, to a ZFS storage
  appliance, through its REST interface.  It is one program (\<open>cmd/zfssa-csi-driver/main.go\<close>) with
  three gRPC services on one structure, \<open>ZFSSADriver\<close>: the identity service, the controller service,
  which makes and removes volumes and snapshots on the appliance, and the node service, which mounts
  them.  The controller keeps a cache of volumes and one of snapshots; each structure in them has a
  reference count and a lock, the Bolt, that a request owns while it works on the structure.  A call
  of the appliance needs a session, which belongs to a token; tokens are listed by user.

  Conventions.  A Go function is a function from the state to an outcome and the new state
  (\<open>Prelude\<close>: \<open>('s, 'a) go\<close>); the outcome is a result, a panic or a deadlock, a wait that only the
  request itself could end.  A result that may be an error is a sum, the error on the left, with its
  gRPC code and its message (the format string where the code formats one).  Pointers are numbers
  into heaps of the state.  Strings are lists of bytes; the 64-bit and 32-bit integers are integers
  with the wrap-around written out (\<open>wrap64\<close>, \<open>wrap32\<close>).  Output to the log is left out.  Everything
  outside the repository is a field of two records of parameters: \<open>env\<close> (\<open>RestTypes\<close>) for the
  appliance, the JSON decoders, files, the clock, the cluster and the order in which Go visits a map;
  \<open>os\<close> (\<open>Machine\<close>) for the environment, the file system, commands, the mount table and the iSCSI
  library of the node.  No property assumes how the appliance or the machine behaves unless it says so.

  The model, with the files under \<open>pkg\<close> it is made from:
  \<^item> \<open>GoStrings\<close>: \<open>strings\<close>, \<open>strconv\<close> and \<open>fmt.Sprintf\<close> as far as they are used.
  \<^item> \<open>VolumeIds\<close> (\<open>utils/volume_id.go\<close>): identifiers of volumes and snapshots, hrefs, dates.
  \<^item> \<open>Bolt\<close> (\<open>utils/sync.go\<close>): the lock, as a step relation over the program points of any number
    of goroutines, with its invariants; and the effect of \<open>Lock\<close> and \<open>Unlock\<close> on one request.
  \<^item> \<open>RestTypes\<close>, \<open>Rest\<close>, \<open>RestApi\<close>, \<open>Schema\<close> (\<open>zfssarest\<close>): the structures of the appliance, tokens and
    sessions, \<open>MakeRequest\<close>, and one definition per call.
  \<^item> \<open>TokenProtocol\<close> (\<open>zfssarest/zfssa_rest.go\<close>): \<open>getToken\<close> as a step relation of any number of
    goroutines, with the mutex and the condition variable of the token.
  \<^item> \<open>Driver\<close>, \<open>Volumes\<close>, \<open>Snapshots\<close> (\<open>service/controller_fs.go\<close>, \<open>controller_block.go\<close>,
    \<open>snapshots.go\<close>): the state of the controller and the methods of a filesystem, a LUN and a snapshot.
  \<^item> \<open>Cache\<close>, \<open>CacheLists\<close> (\<open>service/volumes.go\<close>): the two caches, for a request that runs alone.
  \<^item> \<open>CacheProtocol\<close> (\<open>service/volumes.go\<close>): \<open>lookupVolume\<close>, \<open>newVolume\<close> and \<open>releaseVolume\<close> as a step
    relation of any number of goroutines.  \<open>SnapProtocol\<close>: \<open>lookupSnapshot\<close>, \<open>newSnapshot\<close> and
    \<open>releaseSnapshot\<close> on top of it, a step relation of requests that use up to two volumes, as
    \<open>CreateVolume\<close> does with a snapshot as its source.
  \<^item> \<open>Cluster\<close> (\<open>service/cluster.go\<close>): the questions to Kubernetes, with a clientset that may be nil.
  \<^item> \<open>Login\<close>, \<open>Controller\<close> (\<open>service/controller.go\<close>, the credentials of \<open>service.go\<close>): every handler of
    the controller service.
  \<^item> \<open>Machine\<close>, \<open>Iscsi\<close>, \<open>Node\<close> (\<open>service/iscsi.go\<close>, \<open>mount.go\<close>, \<open>node.go\<close>, \<open>node_fs.go\<close>,
    \<open>node_block.go\<close>): every handler of the node service.
  \<^item> \<open>Startup\<close>, \<open>Server\<close> (\<open>service/service.go\<close>, \<open>identity.go\<close>, \<open>cluster.go\<close>, \<open>utils/parser_utils.go\<close>,
    \<open>main.go\<close>): configuration, creation and run of the driver, the identity service, and the two
    goroutines of the gRPC server.
  \<^item> \<open>Logging\<close> (\<open>utils/log_utils.go\<close>): the loggers of the driver and of each request.

  What is shown:
  \<^item> Here: the Bolt excludes, makes progress, never panics with contexts and refines a lock; volume
    and snapshot identifiers round-trip and their parsers agree; any sequence of controller requests
    leaves all locks free and never waits for ever, whatever the appliance answers
    (\<open>Quiescence\<close>, \<open>Access\<close>, \<open>SnapAccess\<close>, \<open>Service\<close>: the invariant \<open>held\<close> of a request running alone
    and a Hoare triple per operation); identities never change (\<open>Evolution\<close>: a frame relation).
  \<^item> \<open>ProtocolProperties\<close>, \<open>CacheRefinement\<close>: the cache under interleaved requests uses a volume
    exclusively, never removes a structure in use, counts exactly, always ends, leaves nothing
    behind, and implements one lock per volume name.  \<open>CacheAgreement\<close>: the model of a request
    running alone makes steps of that protocol.
  \<^item> \<open>SnapProperties\<close>, \<open>SnapLiveness\<close>, \<open>SnapAgreement\<close>: the same for requests with snapshots, composed
    of the protocols of both caches: a snapshot and its volume are used exclusively, the lock of a
    snapshot is never waited for, all requests end unless clones wait for each other in a circle,
    two clones can do so, and the model of a request running alone makes steps of the protocol.
  \<^item> \<open>TokenProperties\<close>: concurrent requests create one session at a time, all calls return, and what
    a certificate failure breaks.
  \<^item> \<open>RestProperties\<close>, \<open>CacheProperties\<close>, \<open>ControllerProperties\<close>, \<open>NodeProperties\<close>, \<open>StartupProperties\<close>,
    \<open>Server\<close>, \<open>Logging\<close>: the contracts of the single operations, and the cases in which the code does
    not do what it means to.  \<open>Deadlocks\<close>: the two kinds of requests that are excluded above, run to
    the deadlock.  \<open>Examples\<close>: the environment on which the properties are instantiated.

  Bounds.  Two loops of the code have no bound of their own: the token loop, whose fuel of two
  rounds is shown to be enough for every answer, and \<open>Sprintf\<close>, whose recursion is
  on the format.  The retry of a request after a lost session is a single one in the code.

  Not modelled: the text of the fault messages of the appliance and of the log; the TLS
  configuration beyond the acceptance of the certificate; the Kubernetes client (its answers are
  parameters); the node methods of the volume structures, which return nil; \<open>ForceStop\<close>, which
  is not called.  The controller handlers are modelled one after the other; their interleaving is
  modelled where they meet, for the Bolt, the two caches and the token.  In the protocols of the
  caches what a request does with a volume or a snapshot that it has is any change of its state,
  \<open>updateSnapshotList\<close> is a sequence of requests for one snapshot each, and the identifiers that
  \<open>newSnapshot\<close> compares are represented by the names in them.  There the reference count is an
  integer: the 32 bits of the code suffice for fewer than \<open>2 ^ 31\<close> requests at a time.
\<close>

section \<open>The Bolt\<close>

text \<open>A run that the witnesses use: goroutine 0 owns the bolt and goroutine 1 waits for it.\<close>

lemma contended_run:
  obtains m where "bolt_reachable Some m" "pcs m 0 = Owner" "pcs m 1 = LkWait" "mutex m = None"
    "bolt_context m = Some 0"
proof -
  let ?m1 = "goto NewBolt 0 LkEnter"
  let ?m2 = "goto (?m1\<lparr>mutex := Some 0\<rparr>) 0 LkLoop"
  let ?m3 = "goto (?m2\<lparr>bolt_context := Some 0\<rparr>) 0 LkRel"
  let ?m4 = "goto (?m3\<lparr>mutex := None\<rparr>) 0 Owner"
  let ?m5 = "goto ?m4 1 LkEnter"
  let ?m6 = "goto (?m5\<lparr>mutex := Some 1\<rparr>) 1 LkLoop"
  let ?m7 = "goto (?m6\<lparr>mutex := None\<rparr>) 1 LkWait"
  have "bolt_step Some 0 NewBolt ?m1" by (rule bolt_step.call_lock) (simp add: NewBolt_def)
  moreover have "bolt_step Some 0 ?m1 ?m2" by (rule bolt_step.lk_mutex) (simp_all add: NewBolt_def)
  moreover have "bolt_step Some 0 ?m2 ?m3" by (rule bolt_step.lk_take) (simp_all add: NewBolt_def)
  moreover have "bolt_step Some 0 ?m3 ?m4" by (rule bolt_step.lk_exit) simp
  moreover have "bolt_step Some 1 ?m4 ?m5" by (rule bolt_step.call_lock) (simp add: NewBolt_def)
  moreover have "bolt_step Some 1 ?m5 ?m6" by (rule bolt_step.lk_mutex) (simp_all add: NewBolt_def)
  moreover have "bolt_step Some 1 ?m6 ?m7" by (rule bolt_step.lk_wait) (simp_all add: NewBolt_def)
  ultimately have "bolt_reachable Some ?m7"
    using bolt_reachable.start bolt_reachable.step by metis
  then show thesis by (rule that) simp_all
qed

text \<open>
  C1: Requests with a context exclude each other: in every reachable state of the bolt at most
  one goroutine is between the return of \<open>Lock\<close> and its \<open>Unlock\<close>, and the owner field holds
  its context.
\<close>

theorem bolt_mutual_exclusion:
  assumes "bolt_reachable cx m" "\<forall>i. cx i \<noteq> None" "owning (pcs m i)" "owning (pcs m j)"
  shows "i = j \<and> bolt_context m = cx i"
  using bolt_invariants [OF assms(1,2)] owner_unique owner_ctx assms(3,4) by blast

theorem bolt_mutual_exclusion_witness:
  "\<exists>m. bolt_reachable Some m \<and> owning (pcs m 0) \<and> bolt_context m = Some 0"
proof -
  obtain m where m: "bolt_reachable Some m" "pcs m 0 = Owner" by (rule contended_run)
  with bolt_mutual_exclusion [OF m(1), of 0 0] show ?thesis by auto
qed

text \<open>
  The panic \<open>wrong owner unlocking fs\<close> cannot happen when every request has a context:
  no goroutine that unlocks after its own lock ever sees another owner.
\<close>

theorem bolt_never_panics:
  assumes "bolt_reachable cx m" "\<forall>i. cx i \<noteq> None"
  shows "pcs m i \<noteq> Crashed"
  using bolt_invariants [OF assms] by (simp add: no_crash_def)

theorem bolt_never_panics_witness: "\<exists>m. bolt_reachable Some m \<and> pcs m 0 = Owner \<and> pcs m 0 \<noteq> Crashed"
proof -
  obtain m where m: "bolt_reachable Some m" "pcs m 0 = Owner" by (rule contended_run)
  with bolt_never_panics [OF m(1), of 0] show ?thesis by auto
qed

text \<open>
  C24: No wake-up is lost: as long as a goroutine is inside the bolt, waiting for it included,
  some goroutine that is not waiting can make a step.
\<close>

theorem bolt_progress:
  assumes "bolt_reachable cx m" "\<forall>i. cx i \<noteq> None" "pcs m i \<noteq> Out"
  shows "\<exists>j. pcs m j \<noteq> Out \<and> pcs m j \<noteq> LkWait \<and> can_step cx j m"
  using bolt_invariants [OF assms(1,2)] monitor_progress assms(3) by blast

theorem bolt_progress_witness:
  "\<exists>m. pcs m 1 = LkWait \<and> (\<exists>j. pcs m j \<noteq> Out \<and> pcs m j \<noteq> LkWait \<and> can_step Some j m)"
proof -
  obtain m where m: "bolt_reachable Some m" "pcs m 1 = LkWait" by (rule contended_run)
  with bolt_progress [OF m(1), of 1] show ?thesis by auto
qed



section \<open>Identifiers\<close>



text \<open>
  Two accepted IDs address the same share on the appliance exactly when pool, project and
  name are equal: the validated names cannot be confused in the URL of the request.
\<close>

theorem accepted_ids_have_distinct_urls:
  assumes "VolumeIdFromString str = Inr v" "VolumeIdFromString str' = Inr w"
  shows "Sprintf zFilesystem [z, vidPool v, vidProject v, vidName v] =
      Sprintf zFilesystem [z, vidPool w, vidProject w, vidName w] \<longleftrightarrow>
    vidPool v = vidPool w \<and> vidProject v = vidProject w \<and> vidName v = vidName w"
  using VolumeIdFromString_names [OF assms(1)] VolumeIdFromString_names [OF assms(2)]
  by (simp add: Sprintf_share share_url_inject)

theorem accepted_ids_have_distinct_urls_witness:
  "Sprintf zFilesystem [''z'', ''p'', ''q'', ''a''] \<noteq> Sprintf zFilesystem [''z'', ''p'', ''q'', ''b'']"
proof -
  have a: "VolumeIdFromString ''/mnt/z/p/q/a'' = Inr \<lparr>vidType = ''mnt'', vidZfssa = ''z'',
     vidPool = ''p'', vidProject = ''q'', vidName = ''a''\<rparr>" by code_simp
  have b: "VolumeIdFromString ''/mnt/z/p/q/b'' = Inr \<lparr>vidType = ''mnt'', vidZfssa = ''z'',
     vidPool = ''p'', vidProject = ''q'', vidName = ''b''\<rparr>" by code_simp
  show ?thesis using accepted_ids_have_distinct_urls [OF a b, of "''z''"] by simp
qed

text \<open>
  C28: The three parsers of a snapshot reference of the appliance agree: the ID strings made
  from an accepted reference are those of the parsed snapshot and of its volume, and the
  snapshot ID string parses back to the snapshot.
\<close>

theorem snapshot_href_parsers_agree:
  assumes "SnapshotIdFromHref zfssa href = Inr z" "CHR ''/'' \<notin> set zfssa"
  shows "SnapshotIdStringFromHref zfssa href = Inr (SnapshotId_String z) \<and>
    VolumeIdStringFromHref zfssa href = Inr (VolumeId_String (sidVolumeId z)) \<and>
    SnapshotIdFromString (SnapshotId_String z) = Inr z"
proof -
  obtain r t where r: "r = split_on CHR ''/'' href" "12 \<le> length r" "href_type (r ! 8) = Inr t"
      "z = \<lparr>sidVolumeId = \<lparr>vidType = t, vidZfssa = zfssa, vidPool = r ! 5, vidProject = r ! 7,
                         vidName = r ! 9\<rparr>, sidName = r ! 11\<rparr>"
    using SnapshotIdFromHref_parts [OF assms(1)] by blast
  have "CHR ''/'' \<notin> set (r ! i)" if "i < 12" for i
    using r(1,2) that by (metis nth_mem order_less_le_trans split_on_components)
  moreover have "CHR ''/'' \<notin> set t"
    using r(3) by (auto simp: href_type_def id_consts split: if_splits)
  ultimately have "sid_wf z" using assms(2) by (simp add: sid_wf_def r(4) Let_def)
  moreover have "SnapshotIdStringFromHref zfssa href = Inr (SnapshotId_String z)"
    using assms(1) r(1,3,4)
    by (auto simp: SnapshotIdFromHref_def SnapshotIdStringFromHref_def SnapshotId_String_def Let_def
        split: if_splits)
  ultimately show ?thesis
    using VolumeIdStringFromHref_snapshot [OF assms(1)] sid.parse_print by blast
qed

theorem snapshot_href_parsers_agree_witness:
  "SnapshotIdStringFromHref ''z'' ''/api/storage/v1/pools/p/projects/q/filesystems/f/snapshots/s'' =
     Inr ''/mnt/z/p/q/f/s''"
proof -
  have a: "SnapshotIdFromHref ''z'' ''/api/storage/v1/pools/p/projects/q/filesystems/f/snapshots/s'' =
     Inr \<lparr>sidVolumeId = \<lparr>vidType = ''mnt'', vidZfssa = ''z'', vidPool = ''p'', vidProject = ''q'',
       vidName = ''f''\<rparr>, sidName = ''s''\<rparr>" by code_simp
  show ?thesis using snapshot_href_parsers_agree [OF a] by (simp add: SnapshotId_String_def Let_def)
qed

text \<open>
  A date whose year is a number and whose month is not is accepted with neither a time
  nor an error: the error of the conversion is lost.
\<close>

theorem DateToUnix_loses_error:
  assumes "7 \<le> length date" "Atoi (take 4 date) = Some year" "Atoi (take 2 (drop 5 date)) = None"
  shows "DateToUnix tz date s = (Done (None, None), s)"
  using assms by (simp add: DateToUnix_def sliceG_def)

theorem DateToUnix_loses_error_witness:
  "DateToUnix (\<lambda>_ _ _ _ _ _. 0) ''2024-xx-01T00:00:00'' () = (Done (None, None), ())"
  by (rule DateToUnix_loses_error [where year = 2024]) (simp, code_simp, code_simp)

section \<open>The REST interface\<close>

text \<open>
  C30: When \<open>MakeRequest\<close> reports no error, either the appliance answered with the expected
  status and the result is a decoded body, or the status is 401 and the result is the zero
  value the caller passed in.  It never waits for ever.
\<close>

theorem MakeRequest_without_error:
  assumes "tokens_settled s"
    "MakeRequest env t httpMethod url reqbody status decode rspbody s = (r, s')"
  shows "r \<noteq> Deadlock \<and> (\<forall>v code. r = Done (v, code, None) \<longrightarrow> tokens_settled s' \<and>
      (code = status \<and> (\<exists>b. decode b = Decoded v) \<or> code = StatusUnauthorized \<and> v = rspbody))"
  using triple_run [OF MakeRequest_answer assms] by (auto simp: good_answer_def)

theorem MakeRequest_without_error_witness:
  "tokens_settled (snd (MakeRequest script_env 0 ''GET'' ''u'' NoBody StatusOK
     (unmarshal (decPool script_env)) zero_Pool (boot_token [ok_answer 200 ''online''])))"
proof -
  let ?m = "MakeRequest script_env 0 ''GET'' ''u'' NoBody StatusOK
     (unmarshal (decPool script_env)) zero_Pool (boot_token [ok_answer 200 ''online''])"
  have run: "fst ?m = Done (zero_Pool\<lparr>poStatus := ''online''\<rparr>, 200, None)" by code_simp
  obtain r s' where m: "?m = (r, s')" by (cases ?m)
  from MakeRequest_without_error [OF boot_settled(2) m] run m show ?thesis by simp
qed

section \<open>The controller service\<close>



text \<open>
  C26: No sequence of requests changes the identity of a volume structure, its kind, or the
  identity and the volume of a snapshot structure, also when the driver crashes on the way.
\<close>

theorem requests_keep_identities:
  assumes "fresh_refs (nextRef s) (vols s) (snaps s)" "serve_all env l s = (r, s')"
  shows "(vols s i = Some v \<longrightarrow> (\<exists>v'. vols s' i = Some v' \<and> getVolumeID v' = getVolumeID v \<and>
       isBlockVol v' = isBlockVol v)) \<and>
    (snaps s j = Some z \<longrightarrow> (\<exists>z'. snaps s' j = Some z' \<and> zId z' = zId z \<and> zVol z' = zVol z))"
  using keepsD [OF keeps_serve_all assms(2)] assms(1)
  by (auto simp: evolves_def same_vol_def same_snap_def)

theorem requests_keep_identities_witness:
  "\<exists>v. vols (snd (serve_all script_env [(1, DeleteVolumeReq ''/mnt/z/p/q/f'' None)] stale_state)) 1 = Some v \<and>
     getName v = ''f'' \<and> \<not> isBlockVol v"
proof -
  have f: "fresh_refs (nextRef stale_state) (vols stale_state) (snaps stale_state)"
    using stale_quiescent by (simp add: quiescent_def held_def)
  have v: "vols stale_state 1 = Some demo_volume" by (simp add: stale_state_def)
  obtain r s' where m: "serve_all script_env [(1, DeleteVolumeReq ''/mnt/z/p/q/f'' None)] stale_state = (r, s')"
    by fastforce
  from requests_keep_identities [OF f m, of 1 demo_volume 9 undefined] v m show ?thesis
    by (auto simp: getName_def demo_volume_def newFilesystem_def NewVolumeId_def)
qed

text \<open>
  No structure of a LUN ever has access modes: from a driver without them, no sequence of
  requests gives one any.
\<close>

theorem LUNs_never_have_modes:
  assumes "fresh_refs (nextRef s) (vols s) (snaps s)" "lun_modes s" "serve_all env l s = (r, s')"
    "vols s' i = Some (LUN lun)"
  shows "vAccessModes lun = []"
proof -
  have "lun_modes s'"
    using keepsD [OF keeps_serve_all assms(3)] assms(1,2) unfolding evolves_def by blast
  then show ?thesis using assms(4) unfolding lun_modes_def by blast
qed

theorem LUNs_never_have_modes_witness:
  "\<exists>lun. vols (snd (serve_all script_env [(1, demo_create None)] (lun_state (ok_answer 200 ''x'')\<lparr>nextRef := 2\<rparr>))) 1
     = Some (LUN lun) \<and> vAccessModes lun = []"
proof -
  let ?s = "lun_state (ok_answer 200 ''x'')\<lparr>nextRef := 2\<rparr>"
  obtain r s' where m: "serve_all script_env [(1, demo_create None)] ?s = (r, s')" by fastforce
  have f: "fresh_refs (nextRef ?s) (vols ?s) (snaps ?s)" "lun_modes ?s"
    by (simp_all add: fresh_refs_def lun_modes_def lun_state_def boot_token_def boot_def newLUN_def)
  obtain v where v: "vols ?s 1 = Some v" "isBlockVol v" by (simp add: lun_state_def newLUN_def)
  obtain v' where v': "vols s' 1 = Some v'" "same_vol v v'"
    using keepsD [OF keeps_serve_all m] f(1) v(1) unfolding evolves_def by blast
  then obtain lun where "vols s' 1 = Some (LUN lun)" using v(2) by (cases v') (auto simp: same_vol_def)
  with LUNs_never_have_modes [OF f m] m show ?thesis by simp
qed

end
